theory Spec2Isabelle
  imports Main "HOL-Library.Word"
begin

unbundle bit_operations_syntax

section \<open>ctkPopupWidget: the inline slot \<open>showPopup(bool)\<close>\<close>

text \<open>
  \<open>ctkPopupWidget.h\<close> declares the popup widget; the only function body it holds is the
  inline slot \<open>showPopup(bool show)\<close>. The two parameterless slots \<open>showPopup()\<close> and
  \<open>hidePopup()\<close> are declared there and defined elsewhere, so they are parameters of the
  model: transformers of the popup's state, whatever that state is.
\<close>

definition showPopup_bool :: "('p \<Rightarrow> 'p) \<Rightarrow> ('p \<Rightarrow> 'p) \<Rightarrow> bool \<Rightarrow> 'p \<Rightarrow> 'p" where
  "showPopup_bool showPopup hidePopup show p =
     (if show then showPopup p else hidePopup p)"

text \<open>A log of slot calls, to observe which slots a call of \<open>showPopup(bool)\<close> runs.\<close>

datatype popup_call = Call_showPopup | Call_hidePopup

definition log_showPopup :: "popup_call list \<Rightarrow> popup_call list" where
  "log_showPopup calls = calls @ [Call_showPopup]"

definition log_hidePopup :: "popup_call list \<Rightarrow> popup_call list" where
  "log_hidePopup calls = calls @ [Call_hidePopup]"


section \<open>ctkCollapsibleGroupBox: data model\<close>

text \<open>
  A \<open>QObject*\<close> is either a widget or another object; \<open>isWidgetType()\<close> and
  \<open>qobject_cast<QWidget*>\<close> tell them apart. Widgets are numbered, and so are the other
  objects. Every pointer of the model points to an object: the null checks of the source
  (\<open>Q_ASSERT(child && e)\<close>, \<open>c && ... child && ...\<close>) always succeed.
\<close>

datatype QObject = Widget nat | NonWidget nat

fun isWidgetType :: "QObject \<Rightarrow> bool" where
  "isWidgetType (Widget w) = True"
| "isWidgetType (NonWidget k) = False"

fun qobject_cast_QWidget :: "QObject \<Rightarrow> nat option" where
  "qobject_cast_QWidget (Widget w) = Some w"
| "qobject_cast_QWidget (NonWidget k) = None"

text \<open>The event types the group box looks at, and two it lets pass.\<close>

datatype QEvent_Type = ChildAdded | ChildRemoved | ShowToParent | HideToParent | Show | Hide

text \<open>
  The two widget attributes of a child that the group box reads and writes.
  \<open>WA_WState_Hidden\<close> is what \<open>QWidget::isHidden()\<close> returns.
\<close>

record QWidget =
  WA_WState_ExplicitShowHide :: bool
  WA_WState_Hidden :: bool

type_synonym QSize = "int \<times> int"

text \<open>
  The part of the toolkit's \<open>QGroupBox\<close> that the group box uses: the check state, the
  created attribute, size and maximum height, the child list, the connection of the
  \<open>toggled(bool)\<close> signal to the \<open>expand(bool)\<close> slot, and the objects the box can reach
  (the attributes of the widgets, the dynamic property \<open>"visibilityToParent"\<close> of each
  object, where \<open>None\<close> is the invalid \<open>QVariant\<close>, and whether the box is installed as an
  event filter on the object).
\<close>

record QGroupBox =
  isCheckable :: bool
  isChecked :: bool
  WA_WState_Created :: bool
  size_q :: QSize
  maximumHeight :: int
  children :: "QObject list"
  toggled_to_expand :: bool
  widgets :: "nat \<Rightarrow> QWidget"
  visibilityToParent :: "QObject \<Rightarrow> bool option"
  eventFilter_installed :: "QObject \<Rightarrow> bool"

text \<open>\<open>ctkCollapsibleGroupBoxPrivate\<close>: the four fields behind \<open>d_ptr\<close>.\<close>

record ctkCollapsibleGroupBox = QGroupBox +
  OldSize :: QSize
  MaxHeight :: int
  ForcingVisibility :: bool
  IsStateCreated :: bool

text \<open>
  A call ends in a state or in one of two failures. \<open>Reentered\<close>: \<open>setChildVisibility\<close> was
  entered with no activation left in the nesting budget (see below). \<open>AssertFailed\<close>: the
  \<open>Q_ASSERT\<close> of \<open>eventFilter\<close> on the cast of the child failed. The same value stands
  where \<open>expand\<close> and \<open>childEvent\<close> cast an object they have just found to be a widget; that
  cast never fails.
\<close>

datatype error = Reentered | AssertFailed


section \<open>The toolkit calls the group box makes\<close>

text \<open>\<open>QVariant::isValid()\<close> and \<open>QVariant::toBool()\<close> on the value of a property.\<close>

definition isValid :: "bool option \<Rightarrow> bool" where
  "isValid v = (case v of None \<Rightarrow> False | Some b \<Rightarrow> True)"

definition toBool :: "bool option \<Rightarrow> bool" where
  "toBool v = (case v of None \<Rightarrow> False | Some b \<Rightarrow> b)"

definition property_visibilityToParent :: "ctkCollapsibleGroupBox \<Rightarrow> QObject \<Rightarrow> bool option" where
  "property_visibilityToParent s obj = visibilityToParent s obj"

definition setProperty_visibilityToParent ::
  "ctkCollapsibleGroupBox \<Rightarrow> QObject \<Rightarrow> bool \<Rightarrow> ctkCollapsibleGroupBox" where
  "setProperty_visibilityToParent s obj v =
     s\<lparr>visibilityToParent := (visibilityToParent s)(obj := Some v)\<rparr>"

definition installEventFilter :: "ctkCollapsibleGroupBox \<Rightarrow> QObject \<Rightarrow> ctkCollapsibleGroupBox" where
  "installEventFilter s obj = s\<lparr>eventFilter_installed := (eventFilter_installed s)(obj := True)\<rparr>"

definition setAttribute_ExplicitShowHide ::
  "ctkCollapsibleGroupBox \<Rightarrow> nat \<Rightarrow> bool \<Rightarrow> ctkCollapsibleGroupBox" where
  "setAttribute_ExplicitShowHide s w b =
     s\<lparr>widgets := (widgets s)(w := (widgets s w)\<lparr>WA_WState_ExplicitShowHide := b\<rparr>)\<rparr>"

definition setAttribute_Hidden ::
  "ctkCollapsibleGroupBox \<Rightarrow> nat \<Rightarrow> bool \<Rightarrow> ctkCollapsibleGroupBox" where
  "setAttribute_Hidden s w b =
     s\<lparr>widgets := (widgets s)(w := (widgets s w)\<lparr>WA_WState_Hidden := b\<rparr>)\<rparr>"

text \<open>
  \<open>QWidget::setMaximumHeight\<close>: the new maximum is stored, and a widget taller than it is
  shrunk to it. \<open>QWidget::resize\<close>: the requested size, its height bounded by the maximum
  height. (The toolkit bounds sizes by the minimum size and the maximum width as well; the
  group box never changes those, and they are not part of this model.)
\<close>

definition QWidget_setMaximumHeight :: "ctkCollapsibleGroupBox \<Rightarrow> int \<Rightarrow> ctkCollapsibleGroupBox" where
  "QWidget_setMaximumHeight s maxh =
     (let s1 = s\<lparr>maximumHeight := maxh\<rparr>
      in if maxh < snd (size_q s1) then s1\<lparr>size_q := (fst (size_q s1), maxh)\<rparr> else s1)"

definition QWidget_resize :: "ctkCollapsibleGroupBox \<Rightarrow> QSize \<Rightarrow> ctkCollapsibleGroupBox" where
  "QWidget_resize s sz = s\<lparr>size_q := (fst sz, min (snd sz) (maximumHeight s))\<rparr>"

text \<open>
  \<open>QGroupBox::eventFilter\<close> is \<open>QObject::eventFilter\<close>, which filters nothing out.
\<close>

definition QGroupBox_eventFilter :: "QObject \<Rightarrow> QEvent_Type \<Rightarrow> bool" where
  "QGroupBox_eventFilter child e = False"

text \<open>
  Modelled from the spec: \<open>collapsed()\<close> is declared in \<open>ctkCollapsibleGroupBox.h\<close>, which
  is not among the sources. The spec calls the box a checkable container with a
  collapsed/expanded toggle state: the box is collapsed when it is not checked.
\<close>

definition collapsed :: "ctkCollapsibleGroupBox \<Rightarrow> bool" where
  "collapsed s = (\<not> isChecked s)"


section \<open>setChildVisibility and eventFilter\<close>

text \<open>
  \<open>setChildVisibility\<close> calls \<open>childWidget->setVisible\<close>; the toolkit's
  \<open>QWidget::setVisible\<close> sends a \<open>ShowToParent\<close> or \<open>HideToParent\<close> event to the child;
  the event goes through the event filters installed on the child, among them the group
  box's \<open>eventFilter\<close>; and \<open>eventFilter\<close> calls \<open>setChildVisibility\<close>. The four functions
  are therefore mutually recursive.

  The first argument is a nesting budget: the number of activations of
  \<open>setChildVisibility\<close> that may be on the call stack at once. Each entry into
  \<open>setChildVisibility\<close> uses one; an entry with none left ends the call with
  \<open>Inl Reentered\<close>. A call that returns \<open>Inr\<close> with budget \<open>1\<close> never had
  \<open>setChildVisibility\<close> entered while \<open>setChildVisibility\<close> was running.

  \<open>QWidget_setVisible\<close> is the toolkit's \<open>QWidget::setVisible\<close> on a child: nothing happens
  when the child is already explicitly in the requested state; otherwise both attributes
  are set and the event is sent. \<open>sendEvent\<close> is \<open>QApplication::sendEvent\<close> to a child:
  the box's filter runs when it is installed on the child.
\<close>

fun setChildVisibility :: "nat \<Rightarrow> ctkCollapsibleGroupBox \<Rightarrow> nat \<Rightarrow> error + ctkCollapsibleGroupBox"
and QWidget_setVisible :: "nat \<Rightarrow> ctkCollapsibleGroupBox \<Rightarrow> nat \<Rightarrow> bool \<Rightarrow> error + ctkCollapsibleGroupBox"
and sendEvent :: "nat \<Rightarrow> ctkCollapsibleGroupBox \<Rightarrow> nat \<Rightarrow> QEvent_Type \<Rightarrow> error + ctkCollapsibleGroupBox"
and eventFilter :: "nat \<Rightarrow> ctkCollapsibleGroupBox \<Rightarrow> QObject \<Rightarrow> QEvent_Type \<Rightarrow> error + (bool \<times> ctkCollapsibleGroupBox)"
where
  "setChildVisibility 0 s childWidget = Inl Reentered"
| "setChildVisibility (Suc n) s childWidget =
     (if \<not> WA_WState_Created s then Inr s
      else
        let s1 = s\<lparr>ForcingVisibility := True\<rparr>;
            visible = (\<not> collapsed s1);
            visible = (if isValid (property_visibilityToParent s1 (Widget childWidget))
                          \<and> \<not> toBool (property_visibilityToParent s1 (Widget childWidget))
                       then False else visible)
        in case QWidget_setVisible n s1 childWidget visible of
             Inl err \<Rightarrow> Inl err
           | Inr s2 \<Rightarrow>
               let s3 = (if \<not> isValid (property_visibilityToParent s2 (Widget childWidget))
                            \<or> toBool (property_visibilityToParent s2 (Widget childWidget))
                         then setAttribute_ExplicitShowHide s2 childWidget False else s2)
               in Inr (s3\<lparr>ForcingVisibility := False\<rparr>))"
| "QWidget_setVisible n s w visible =
     (if visible then
        if WA_WState_ExplicitShowHide (widgets s w) \<and> \<not> WA_WState_Hidden (widgets s w)
        then Inr s
        else sendEvent n (setAttribute_Hidden (setAttribute_ExplicitShowHide s w True) w False)
               w ShowToParent
      else
        if WA_WState_ExplicitShowHide (widgets s w) \<and> WA_WState_Hidden (widgets s w)
        then Inr s
        else sendEvent n (setAttribute_ExplicitShowHide (setAttribute_Hidden s w True) w True)
               w HideToParent)"
| "sendEvent n s w e =
     (if eventFilter_installed s (Widget w)
      then case eventFilter n s (Widget w) e of
             Inl err \<Rightarrow> Inl err
           | Inr (filtered, s') \<Rightarrow> Inr s'
      else Inr s)"
| "eventFilter n s child e =
     (if ForcingVisibility s then Inr (False, s)
      else if e = ShowToParent then
        let s1 = setProperty_visibilityToParent s child True
        in case qobject_cast_QWidget child of
             None \<Rightarrow> Inl AssertFailed
           | Some childWidget \<Rightarrow>
               (case setChildVisibility n s1 childWidget of
                  Inl err \<Rightarrow> Inl err
                | Inr s2 \<Rightarrow> Inr (QGroupBox_eventFilter child e, s2))
      else if e = HideToParent then
        Inr (QGroupBox_eventFilter child e, setProperty_visibilityToParent s child False)
      else Inr (QGroupBox_eventFilter child e, s))"

declare setChildVisibility.simps [simp del] QWidget_setVisible.simps [simp del]
  sendEvent.simps [simp del] eventFilter.simps [simp del]


section \<open>expand, the toggled signal and the constructor\<close>

text \<open>
  The loop of \<open>expand\<close> over \<open>this->children()\<close>: an object that is a widget gets
  \<open>setChildVisibility\<close>, any other object is skipped.
\<close>

fun expand_foreach :: "nat \<Rightarrow> ctkCollapsibleGroupBox \<Rightarrow> QObject list \<Rightarrow> error + ctkCollapsibleGroupBox" where
  "expand_foreach n s [] = Inr s"
| "expand_foreach n s (childObject # rest) =
     (if isWidgetType childObject then
        case qobject_cast_QWidget childObject of
          None \<Rightarrow> Inl AssertFailed
        | Some childWidget \<Rightarrow>
            (case setChildVisibility n s childWidget of
               Inl err \<Rightarrow> Inl err
             | Inr s' \<Rightarrow> expand_foreach n s' rest)
      else expand_foreach n s rest)"

definition expand :: "nat \<Rightarrow> ctkCollapsibleGroupBox \<Rightarrow> bool \<Rightarrow> error + ctkCollapsibleGroupBox" where
  "expand n s expand_arg =
     (let s1 = (if \<not> expand_arg then s\<lparr>OldSize := size_q s\<rparr> else s)
      in case expand_foreach n s1 (children s1) of
           Inl err \<Rightarrow> Inl err
         | Inr s2 \<Rightarrow>
             if expand_arg
             then Inr (QWidget_resize (QWidget_setMaximumHeight s2 (MaxHeight s2)) (OldSize s2))
             else Inr (QWidget_setMaximumHeight (s2\<lparr>MaxHeight := maximumHeight s2\<rparr>) 22))"

text \<open>
  The toolkit's \<open>QGroupBox::setChecked\<close>: a checkable box whose check state changes
  stores the new state and emits \<open>toggled\<close>, which runs the \<open>expand\<close> slot when it is
  connected. \<open>QGroupBox::setCheckable(true)\<close> makes the box checkable and checks it.
\<close>

definition emit_toggled :: "nat \<Rightarrow> ctkCollapsibleGroupBox \<Rightarrow> bool \<Rightarrow> error + ctkCollapsibleGroupBox" where
  "emit_toggled n s b = (if toggled_to_expand s then expand n s b else Inr s)"

definition QGroupBox_setChecked :: "nat \<Rightarrow> ctkCollapsibleGroupBox \<Rightarrow> bool \<Rightarrow> error + ctkCollapsibleGroupBox" where
  "QGroupBox_setChecked n s b =
     (if isCheckable s \<and> b \<noteq> isChecked s then emit_toggled n (s\<lparr>isChecked := b\<rparr>) b else Inr s)"

definition QGroupBox_setCheckable :: "nat \<Rightarrow> ctkCollapsibleGroupBox \<Rightarrow> bool \<Rightarrow> error + ctkCollapsibleGroupBox" where
  "QGroupBox_setCheckable n s checkable =
     (let s1 = s\<lparr>isCheckable := checkable\<rparr>
      in if checkable then QGroupBox_setChecked n s1 True else Inr s1)"

text \<open>
  \<open>ctkCollapsibleGroupBoxPrivate::init\<close>. The style set at its end only changes how the
  check box indicator is painted.
\<close>

definition init :: "nat \<Rightarrow> ctkCollapsibleGroupBox \<Rightarrow> error + ctkCollapsibleGroupBox" where
  "init n s =
     (case QGroupBox_setCheckable n s True of
        Inl err \<Rightarrow> Inl err
      | Inr s1 \<Rightarrow>
          let s2 = s1\<lparr>toggled_to_expand := True\<rparr>
          in Inr (s2\<lparr>MaxHeight := maximumHeight s2\<rparr>))"

text \<open>
  The constructor of \<open>ctkCollapsibleGroupBoxPrivate\<close> on top of a \<open>QGroupBox\<close>;
  \<open>OldSize\<close> is a default-constructed \<open>QSize\<close>, which is \<open>(-1, -1)\<close>. Then the constructor
  of \<open>ctkCollapsibleGroupBox\<close>, which runs \<open>init\<close>.
\<close>

definition ctkCollapsibleGroupBoxPrivate_new :: "QGroupBox \<Rightarrow> ctkCollapsibleGroupBox" where
  "ctkCollapsibleGroupBoxPrivate_new q =
     QGroupBox.extend q
       (ctkCollapsibleGroupBox.fields (- 1, - 1) 0 False False)"

definition ctkCollapsibleGroupBox_new :: "nat \<Rightarrow> QGroupBox \<Rightarrow> error + ctkCollapsibleGroupBox" where
  "ctkCollapsibleGroupBox_new n q = init n (ctkCollapsibleGroupBoxPrivate_new q)"

text \<open>
  The state the toolkit's \<open>QGroupBox\<close> constructor leaves: not checkable, checked, not
  created, no children, nothing connected, the maximum height \<open>QWIDGETSIZE_MAX\<close>. The
  initial size and the objects around the box are the caller's.
\<close>

definition QGroupBox_new :: "QSize \<Rightarrow> (nat \<Rightarrow> QWidget) \<Rightarrow> QGroupBox" where
  "QGroupBox_new sz ws =
     \<lparr> isCheckable = False, isChecked = True, WA_WState_Created = False, size_q = sz,
       maximumHeight = 16777215, children = [], toggled_to_expand = False, widgets = ws,
       visibilityToParent = (\<lambda>obj. None), eventFilter_installed = (\<lambda>obj. False) \<rparr>"


section \<open>childEvent and setVisible\<close>

record QChildEvent =
  type_ev :: QEvent_Type
  child_ev :: QObject

text \<open>
  \<open>QGroupBox::childEvent\<close> enables or disables the new child after the check state; it
  touches nothing of this model.
\<close>

definition QGroupBox_childEvent :: "ctkCollapsibleGroupBox \<Rightarrow> QChildEvent \<Rightarrow> ctkCollapsibleGroupBox" where
  "QGroupBox_childEvent s c = s"

definition childEvent :: "nat \<Rightarrow> ctkCollapsibleGroupBox \<Rightarrow> QChildEvent \<Rightarrow> error + ctkCollapsibleGroupBox" where
  "childEvent n s c =
     (let child = child_ev c
      in if type_ev c = ChildAdded \<and> isWidgetType child then
           case qobject_cast_QWidget child of
             None \<Rightarrow> Inl AssertFailed
           | Some childWidget \<Rightarrow>
               let s1 = (if WA_WState_ExplicitShowHide (widgets s childWidget)
                            \<and> WA_WState_Hidden (widgets s childWidget)
                         then setProperty_visibilityToParent s (Widget childWidget) False else s);
                   s2 = installEventFilter s1 child
               in (case setChildVisibility n s2 childWidget of
                     Inl err \<Rightarrow> Inl err
                   | Inr s3 \<Rightarrow> Inr (QGroupBox_childEvent s3 c))
         else Inr (QGroupBox_childEvent s c))"

text \<open>
  What \<open>QGroupBox::setVisible\<close> does inside the toolkit depends on the widget tree around
  the box. It reaches the group box in two ways: the window of the box may get created,
  and children get \<open>setVisible\<close> calls (\<open>QWidget::showChildren\<close>), whose events go through
  the event filter. Which of these happen, and in which order, is given by the caller as
  a list of toolkit calls, so that whatever is proved holds for every such list.
\<close>

datatype toolkit_call = Toolkit_create | Toolkit_child_setVisible nat bool

fun QGroupBox_setVisible ::
  "nat \<Rightarrow> ctkCollapsibleGroupBox \<Rightarrow> bool \<Rightarrow> toolkit_call list \<Rightarrow> error + ctkCollapsibleGroupBox" where
  "QGroupBox_setVisible n s show [] = Inr s"
| "QGroupBox_setVisible n s show (Toolkit_create # calls) =
     QGroupBox_setVisible n (s\<lparr>WA_WState_Created := True\<rparr>) show calls"
| "QGroupBox_setVisible n s show (Toolkit_child_setVisible w visible # calls) =
     (case QWidget_setVisible n s w visible of
        Inl err \<Rightarrow> Inl err
      | Inr s' \<Rightarrow> QGroupBox_setVisible n s' show calls)"

text \<open>The loop of \<open>setVisible\<close> over \<open>this->children()\<close>, with its cast.\<close>

fun setVisible_foreach :: "nat \<Rightarrow> ctkCollapsibleGroupBox \<Rightarrow> QObject list \<Rightarrow> error + ctkCollapsibleGroupBox" where
  "setVisible_foreach n s [] = Inr s"
| "setVisible_foreach n s (child # rest) =
     (case qobject_cast_QWidget child of
        Some childWidget \<Rightarrow>
          (case setChildVisibility n s childWidget of
             Inl err \<Rightarrow> Inl err
           | Inr s' \<Rightarrow> setVisible_foreach n s' rest)
      | None \<Rightarrow> setVisible_foreach n s rest)"

definition setVisible ::
  "nat \<Rightarrow> ctkCollapsibleGroupBox \<Rightarrow> bool \<Rightarrow> toolkit_call list \<Rightarrow> error + ctkCollapsibleGroupBox" where
  "setVisible n s show toolkit =
     (let s1 = s\<lparr>ForcingVisibility := True\<rparr>
      in case QGroupBox_setVisible n s1 show toolkit of
           Inl err \<Rightarrow> Inl err
         | Inr s2 \<Rightarrow>
             let s3 = s2\<lparr>ForcingVisibility := False\<rparr>
             in if \<not> IsStateCreated s3 \<and> WA_WState_Created s3
                then setVisible_foreach n (s3\<lparr>IsStateCreated := True\<rparr>) (children s3)
                else Inr s3)"


section \<open>The mouse handlers of the build for Qt before 4.6\<close>

datatype MouseButton = NoButton | LeftButton | RightButton | MidButton | XButton1 | XButton2



definition SC_GroupBoxContents :: "32 word" where "SC_GroupBoxContents = 4"
definition SC_GroupBoxFrame :: "32 word" where "SC_GroupBoxFrame = 8"








section \<open>Sequences of calls from outside\<close>

text \<open>
  What the application and the toolkit do to the box and its children, one call at a time:
  somebody calls \<open>setVisible\<close> on a child, shows or hides the box, checks or unchecks it,
  calls the \<open>expand\<close> slot directly, adds a child (the toolkit appends it to the child list
  and sends \<open>ChildAdded\<close>), or the window of the box gets created outside \<open>setVisible\<close>.
  Every call of a sequence gets the same nesting budget.
\<close>

datatype action =
    Child_setVisible nat bool
  | Box_setVisible bool "toolkit_call list"
  | Box_setChecked bool
  | Box_expand bool
  | Child_added QObject
  | Box_created

fun step :: "nat \<Rightarrow> ctkCollapsibleGroupBox \<Rightarrow> action \<Rightarrow> error + ctkCollapsibleGroupBox" where
  "step n s (Child_setVisible w visible) = QWidget_setVisible n s w visible"
| "step n s (Box_setVisible show toolkit) = setVisible n s show toolkit"
| "step n s (Box_setChecked b) = QGroupBox_setChecked n s b"
| "step n s (Box_expand b) = expand n s b"
| "step n s (Child_added child) =
     childEvent n (s\<lparr>children := children s @ [child]\<rparr>) \<lparr>type_ev = ChildAdded, child_ev = child\<rparr>"
| "step n s Box_created = Inr (s\<lparr>WA_WState_Created := True\<rparr>)"

fun run :: "nat \<Rightarrow> ctkCollapsibleGroupBox \<Rightarrow> action list \<Rightarrow> error + ctkCollapsibleGroupBox" where
  "run n s [] = Inr s"
| "run n s (a # acts) =
     (case step n s a of Inl err \<Rightarrow> Inl err | Inr s' \<Rightarrow> run n s' acts)"

text \<open>A call that shows the child \<open>w\<close>: by the application, or by the toolkit while the box is shown.\<close>

fun shows_child :: "nat \<Rightarrow> action \<Rightarrow> bool" where
  "shows_child w (Child_setVisible w' visible) = (w' = w \<and> visible)"
| "shows_child w (Box_setVisible show toolkit) = (Toolkit_child_setVisible w True \<in> set toolkit)"
| "shows_child w a = False"

fun is_Box_setVisible :: "action \<Rightarrow> bool" where
  "is_Box_setVisible (Box_setVisible show toolkit) = True"
| "is_Box_setVisible a = False"

text \<open>
  The source sets \<open>IsStateCreated\<close> in one place, in front of the deferred loop of
  \<open>setVisible\<close>: a call that finds it unset and leaves it set is a call that has run the
  loop. \<open>fixups\<close> counts those calls of a sequence.
\<close>

fun fixups :: "nat \<Rightarrow> ctkCollapsibleGroupBox \<Rightarrow> action list \<Rightarrow> nat" where
  "fixups n s [] = 0"
| "fixups n s (a # acts) =
     (case step n s a of
        Inl err \<Rightarrow> 0
      | Inr s' \<Rightarrow>
          (if \<not> IsStateCreated s \<and> IsStateCreated s' then 1 else 0) + fixups n s' acts)"

text \<open>A call from outside that hides the child \<open>w\<close>.\<close>

fun hides_child :: "nat \<Rightarrow> action \<Rightarrow> bool" where
  "hides_child w (Child_setVisible w' visible) = (w' = w \<and> \<not> visible)"
| "hides_child w a = False"

text \<open>
  While the box is shown or hidden, the toolkit goes through the children itself
  (\<open>QWidget::showChildren\<close>, \<open>hideChildren\<close>): it calls \<open>show()\<close> on a child only when the
  child is not hidden, and it never hides a child explicitly. \<open>toolkit_respects\<close> says that
  a call keeps to this for the child \<open>w\<close>; \<open>run_respects\<close> says that every call of a
  sequence does, in the state in which it is made.
\<close>

fun toolkit_respects :: "ctkCollapsibleGroupBox \<Rightarrow> nat \<Rightarrow> action \<Rightarrow> bool" where
  "toolkit_respects s w (Box_setVisible show toolkit) =
     (Toolkit_child_setVisible w False \<notin> set toolkit
      \<and> (Toolkit_child_setVisible w True \<in> set toolkit \<longrightarrow> \<not> WA_WState_Hidden (widgets s w)))"
| "toolkit_respects s w a = True"

fun run_respects :: "nat \<Rightarrow> nat \<Rightarrow> ctkCollapsibleGroupBox \<Rightarrow> action list \<Rightarrow> bool" where
  "run_respects n w s [] = True"
| "run_respects n w s (a # acts) =
     (toolkit_respects s w a
      \<and> (case step n s a of Inl err \<Rightarrow> True | Inr s' \<Rightarrow> run_respects n w s' acts))"

text \<open>
  The state between two calls from outside, as the box keeps it. \<open>box_ok\<close>: the box is not
  forcing, \<open>toggled\<close> is connected to \<open>expand\<close>, and the deferred loop has run only on a
  created window. \<open>tracked\<close>, for a child widget \<open>w\<close> with the event filter installed: a
  child hidden explicitly has the property false; a child with the property false is
  hidden; and once the deferred loop has run, the child is hidden exactly when the box is
  collapsed or the property is false.
\<close>

definition box_ok :: "ctkCollapsibleGroupBox \<Rightarrow> bool" where
  "box_ok s =
     (\<not> ForcingVisibility s \<and> toggled_to_expand s
      \<and> (IsStateCreated s \<longrightarrow> WA_WState_Created s))"

definition tracked :: "ctkCollapsibleGroupBox \<Rightarrow> nat \<Rightarrow> bool" where
  "tracked s w =
     (box_ok s \<and> Widget w \<in> set (children s) \<and> eventFilter_installed s (Widget w)
      \<and> (WA_WState_ExplicitShowHide (widgets s w) \<and> WA_WState_Hidden (widgets s w)
            \<longrightarrow> visibilityToParent s (Widget w) = Some False)
      \<and> (visibilityToParent s (Widget w) = Some False \<longrightarrow> WA_WState_Hidden (widgets s w))
      \<and> (IsStateCreated s \<longrightarrow>
            WA_WState_Hidden (widgets s w)
              = (collapsed s \<or> visibilityToParent s (Widget w) = Some False)))"


section \<open>Closed forms and example states\<close>

text \<open>
  What \<open>setChildVisibility\<close> leaves of a child of a created box: the child is hidden when
  the box is collapsed or the property is valid and false, and it keeps the
  \<open>ExplicitShowHide\<close> attribute only in the latter case.
\<close>

definition child_forced :: "ctkCollapsibleGroupBox \<Rightarrow> nat \<Rightarrow> QWidget" where
  "child_forced s w =
     \<lparr> WA_WState_ExplicitShowHide = (visibilityToParent s (Widget w) = Some False),
       WA_WState_Hidden = (collapsed s \<or> visibilityToParent s (Widget w) = Some False) \<rparr>"

definition forced_widgets :: "ctkCollapsibleGroupBox \<Rightarrow> QObject list \<Rightarrow> nat \<Rightarrow> QWidget" where
  "forced_widgets s cs = (\<lambda>w. if Widget w \<in> set cs then child_forced s w else widgets s w)"

text \<open>
  A box as the constructor leaves it, with two child widgets and one other child object
  added before the window exists; the same box created and shown; and the latter with its
  first child explicitly hidden by the application.
\<close>

definition shown_widget :: QWidget where
  "shown_widget = \<lparr> WA_WState_ExplicitShowHide = False, WA_WState_Hidden = False \<rparr>"

definition box_new :: ctkCollapsibleGroupBox where
  "box_new =
     \<lparr> isCheckable = True, isChecked = True, WA_WState_Created = False, size_q = (200, 100),
       maximumHeight = 16777215, children = [Widget 0, NonWidget 0, Widget 1],
       toggled_to_expand = True, widgets = (\<lambda>w. shown_widget),
       visibilityToParent = (\<lambda>obj. None),
       eventFilter_installed = (\<lambda>obj. obj = Widget 0 \<or> obj = Widget 1),
       OldSize = (- 1, - 1), MaxHeight = 16777215, ForcingVisibility = False,
       IsStateCreated = False \<rparr>"

definition box_shown :: ctkCollapsibleGroupBox where
  "box_shown = box_new\<lparr>WA_WState_Created := True, IsStateCreated := True\<rparr>"

definition box_child_hidden :: ctkCollapsibleGroupBox where
  "box_child_hidden =
     box_shown\<lparr> widgets := (\<lambda>w. if w = 0
                    then \<lparr> WA_WState_ExplicitShowHide = True, WA_WState_Hidden = True \<rparr>
                    else shown_widget),
                visibilityToParent := (\<lambda>obj. if obj = Widget 0 then Some False else None) \<rparr>"


section \<open>Lemmas\<close>

lemma eventFilter_forcing:
  "ForcingVisibility s \<Longrightarrow> eventFilter n s child e = Inr (False, s)"
  by (simp add: eventFilter.simps)

lemma sendEvent_forcing:
  "ForcingVisibility s \<Longrightarrow> sendEvent n s w e = Inr s"
  by (simp add: sendEvent.simps eventFilter_forcing)

lemma widgets_update_same:
  "widgets s w = x \<Longrightarrow> s\<lparr>widgets := (widgets s)(w := x)\<rparr> = s"
proof -
  assume "widgets s w = x"
  then have "(widgets s)(w := x) = widgets s" by auto
  then show ?thesis by simp
qed

lemma QWidget_setVisible_forcing:
  "ForcingVisibility s \<Longrightarrow>
   QWidget_setVisible n s w visible =
     Inr (s\<lparr>widgets := (widgets s)(w := \<lparr>WA_WState_ExplicitShowHide = True, WA_WState_Hidden = \<not> visible\<rparr>)\<rparr>)"
proof -
  assume f: "ForcingVisibility s"
  obtain e h where wh: "widgets s w = \<lparr>WA_WState_ExplicitShowHide = e, WA_WState_Hidden = h\<rparr>"
    by (cases "widgets s w") simp
  show ?thesis
  proof (cases "e \<and> h = (\<not> visible)")
    case True
    with wh have "widgets s w = \<lparr>WA_WState_ExplicitShowHide = True, WA_WState_Hidden = \<not> visible\<rparr>"
      by simp
    then have "s\<lparr>widgets := (widgets s)(w := \<lparr>WA_WState_ExplicitShowHide = True, WA_WState_Hidden = \<not> visible\<rparr>)\<rparr> = s"
      by (rule widgets_update_same)
    with True wh show ?thesis
      by (auto simp add: QWidget_setVisible.simps)
  next
    case False
    with f wh show ?thesis
      by (auto simp add: QWidget_setVisible.simps sendEvent_forcing setAttribute_Hidden_def
          setAttribute_ExplicitShowHide_def)
  qed
qed

lemma setChildVisibility_Suc:
  "setChildVisibility (Suc n) s w =
     Inr (if \<not> WA_WState_Created s then s
          else s\<lparr>widgets := (widgets s)(w := child_forced s w), ForcingVisibility := False\<rparr>)"
proof (cases "WA_WState_Created s")
  case False
  then show ?thesis by (simp add: setChildVisibility.simps)
next
  case True
  obtain e h where wh: "widgets s w = \<lparr>WA_WState_ExplicitShowHide = e, WA_WState_Hidden = h\<rparr>"
    by (cases "widgets s w") simp
  show ?thesis
  proof (cases "visibilityToParent s (Widget w)")
    case None
    with True wh show ?thesis
      by (auto simp add: setChildVisibility.simps QWidget_setVisible_forcing collapsed_def Let_def
          isValid_def toBool_def property_visibilityToParent_def setAttribute_ExplicitShowHide_def
          child_forced_def)
  next
    case (Some b)
    with True wh show ?thesis
      by (cases b)
        (auto simp add: setChildVisibility.simps QWidget_setVisible_forcing collapsed_def Let_def
          isValid_def toBool_def property_visibilityToParent_def setAttribute_ExplicitShowHide_def
          child_forced_def)
  qed
qed

lemma child_forced_frame:
  "visibilityToParent s' = visibilityToParent s \<Longrightarrow> isChecked s' = isChecked s \<Longrightarrow>
   child_forced s' w = child_forced s w"
  by (simp add: child_forced_def collapsed_def)

lemma forced_widgets_Cons:
  "forced_widgets (s\<lparr>widgets := (widgets s)(w := child_forced s w), ForcingVisibility := f\<rparr>) rest
   = forced_widgets s (Widget w # rest)"
  by (auto simp add: forced_widgets_def child_forced_def collapsed_def fun_eq_iff)

lemma forced_widgets_no_widget:
  "\<forall>w. Widget w \<notin> set cs \<Longrightarrow> forced_widgets s cs = widgets s"
  by (auto simp add: forced_widgets_def fun_eq_iff)

lemma forced_widgets_single:
  "\<forall>w'. Widget w' \<notin> set rest \<Longrightarrow>
   forced_widgets s (Widget w # rest) = (widgets s)(w := child_forced s w)"
  by (auto simp add: forced_widgets_def fun_eq_iff)

lemma forced_widgets_NonWidget:
  "forced_widgets s (NonWidget k # rest) = forced_widgets s rest"
  by (auto simp add: forced_widgets_def fun_eq_iff)

lemma expand_foreach_Suc:
  "expand_foreach (Suc n) s cs =
     Inr (if WA_WState_Created s \<and> (\<exists>w. Widget w \<in> set cs)
          then s\<lparr>widgets := forced_widgets s cs, ForcingVisibility := False\<rparr> else s)"
proof (induction cs arbitrary: s)
  case Nil
  show ?case by simp
next
  case (Cons c rest)
  show ?case
  proof (cases c)
    case (NonWidget k)
    then show ?thesis
      using Cons.IH [of s] by (auto simp add: forced_widgets_NonWidget)
  next
    case (Widget w)
    show ?thesis
    proof (cases "WA_WState_Created s")
      case False
      with Widget show ?thesis
        using Cons.IH [of s] by (simp add: setChildVisibility_Suc)
    next
      case True
      let ?s1 = "s\<lparr>widgets := (widgets s)(w := child_forced s w), ForcingVisibility := False\<rparr>"
      have step: "setChildVisibility (Suc n) s w = Inr ?s1"
        using True by (simp add: setChildVisibility_Suc)
      have unfold: "expand_foreach (Suc n) s (c # rest) = expand_foreach (Suc n) ?s1 rest"
        using Widget step by simp
      show ?thesis
      proof (cases "\<exists>w'. Widget w' \<in> set rest")
        case True
        then have "expand_foreach (Suc n) ?s1 rest =
            Inr (?s1\<lparr>widgets := forced_widgets ?s1 rest, ForcingVisibility := False\<rparr>)"
          using Cons.IH [of ?s1] \<open>WA_WState_Created s\<close> by simp
        then show ?thesis
          using unfold Widget \<open>WA_WState_Created s\<close> by (auto simp add: forced_widgets_Cons)
      next
        case False
        then have none: "\<forall>w'. Widget w' \<notin> set rest" by simp
        then have "expand_foreach (Suc n) ?s1 rest = Inr ?s1"
          using Cons.IH [of ?s1] by simp
        then show ?thesis
          using unfold Widget \<open>WA_WState_Created s\<close> by (auto simp add: forced_widgets_single [OF none])
      qed
    qed
  qed
qed

lemma setVisible_foreach_expand_foreach:
  "setVisible_foreach n s cs = expand_foreach n s cs"
proof (induction cs arbitrary: s)
  case Nil
  show ?case by simp
next
  case (Cons c rest)
  then show ?case by (cases c) (simp_all split: sum.splits)
qed

lemmas toolkit_defs = setProperty_visibilityToParent_def installEventFilter_def
  setAttribute_ExplicitShowHide_def setAttribute_Hidden_def QGroupBox_eventFilter_def
  property_visibilityToParent_def isValid_def toBool_def

lemma eventFilter_Suc_Inr:
  "\<exists>r s'. eventFilter (Suc n) s (Widget w) e = Inr (r, s')"
  by (auto simp add: eventFilter.simps setChildVisibility_Suc Let_def)

lemma sendEvent_Suc_Inr: "\<exists>s'. sendEvent (Suc n) s w e = Inr s'"
proof -
  obtain r s' where "eventFilter (Suc n) s (Widget w) e = Inr (r, s')"
    using eventFilter_Suc_Inr by blast
  then show ?thesis by (simp add: sendEvent.simps)
qed

lemma QWidget_setVisible_Suc_Inr: "\<exists>s'. QWidget_setVisible (Suc n) s w visible = Inr s'"
  by (simp add: QWidget_setVisible.simps sendEvent_Suc_Inr)

lemma QGroupBox_setVisible_Suc_Inr:
  "\<exists>s'. QGroupBox_setVisible (Suc n) s show toolkit = Inr s'"
proof (induction toolkit arbitrary: s)
  case Nil
  show ?case by simp
next
  case (Cons c calls)
  show ?case
  proof (cases c)
    case Toolkit_create
    then show ?thesis using Cons.IH by simp
  next
    case (Toolkit_child_setVisible w visible)
    obtain s1 where "QWidget_setVisible (Suc n) s w visible = Inr s1"
      using QWidget_setVisible_Suc_Inr by blast
    with Toolkit_child_setVisible show ?thesis using Cons.IH [of s1] by simp
  qed
qed

lemma expand_Suc_Inr: "\<exists>s'. expand (Suc n) s b = Inr s'"
  by (simp add: expand_def expand_foreach_Suc Let_def)

lemma QGroupBox_setChecked_Suc_Inr: "\<exists>s'. QGroupBox_setChecked (Suc n) s b = Inr s'"
  by (simp add: QGroupBox_setChecked_def emit_toggled_def expand_Suc_Inr)

lemma setVisible_Suc_Inr: "\<exists>s'. setVisible (Suc n) s show toolkit = Inr s'"
proof -
  obtain s2 where "QGroupBox_setVisible (Suc n) (s\<lparr>ForcingVisibility := True\<rparr>) show toolkit = Inr s2"
    using QGroupBox_setVisible_Suc_Inr by blast
  then show ?thesis
    by (simp add: setVisible_def Let_def setVisible_foreach_expand_foreach expand_foreach_Suc)
qed

lemma childEvent_Suc_Inr: "\<exists>s'. childEvent (Suc n) s c = Inr s'"
  by (cases "child_ev c") (simp_all add: childEvent_def Let_def setChildVisibility_Suc)

lemma step_Suc_Inr: "\<exists>s'. step (Suc n) s a = Inr s'"
  by (cases a)
    (simp_all add: QWidget_setVisible_Suc_Inr setVisible_Suc_Inr QGroupBox_setChecked_Suc_Inr
      expand_Suc_Inr childEvent_Suc_Inr)

lemma run_Suc_Inr: "\<exists>s'. run (Suc n) s acts = Inr s'"
proof (induction acts arbitrary: s)
  case Nil
  show ?case by simp
next
  case (Cons a acts)
  obtain s1 where "step (Suc n) s a = Inr s1" using step_Suc_Inr by blast
  then show ?case using Cons.IH [of s1] by simp
qed

lemma forced_widgets_frame:
  "visibilityToParent s' = visibilityToParent s \<Longrightarrow> isChecked s' = isChecked s \<Longrightarrow>
   widgets s' = widgets s \<Longrightarrow> forced_widgets s' cs = forced_widgets s cs"
  by (auto simp add: forced_widgets_def child_forced_def collapsed_def fun_eq_iff)

lemma expand_foreach_Suc_widgets:
  "\<exists>f. expand_foreach (Suc n) s cs =
     Inr (s\<lparr>widgets := (if WA_WState_Created s then forced_widgets s cs else widgets s),
            ForcingVisibility := f\<rparr>)"
proof (cases "WA_WState_Created s \<and> (\<exists>w. Widget w \<in> set cs)")
  case True
  then have "expand_foreach (Suc n) s cs =
     Inr (s\<lparr>widgets := (if WA_WState_Created s then forced_widgets s cs else widgets s),
            ForcingVisibility := False\<rparr>)"
    by (simp add: expand_foreach_Suc)
  then show ?thesis by blast
next
  case False
  then have w: "(if WA_WState_Created s then forced_widgets s cs else widgets s) = widgets s"
    by (auto simp add: forced_widgets_no_widget)
  have "expand_foreach (Suc n) s cs = Inr s"
    using False by (auto simp add: expand_foreach_Suc)
  then have "expand_foreach (Suc n) s cs =
     Inr (s\<lparr>widgets := (if WA_WState_Created s then forced_widgets s cs else widgets s),
            ForcingVisibility := ForcingVisibility s\<rparr>)"
    by (simp only: w) simp
  then show ?thesis by blast
qed

lemma expand_Suc_frame:
  "\<exists>s'. expand (Suc n) s b = Inr s'
     \<and> widgets s' = (if WA_WState_Created s then forced_widgets s (children s) else widgets s)
     \<and> visibilityToParent s' = visibilityToParent s
     \<and> isChecked s' = isChecked s \<and> isCheckable s' = isCheckable s
     \<and> WA_WState_Created s' = WA_WState_Created s \<and> IsStateCreated s' = IsStateCreated s
     \<and> children s' = children s \<and> toggled_to_expand s' = toggled_to_expand s
     \<and> eventFilter_installed s' = eventFilter_installed s"
proof (cases b)
  case True
  obtain f where "expand_foreach (Suc n) s (children s) =
     Inr (s\<lparr>widgets := (if WA_WState_Created s then forced_widgets s (children s) else widgets s),
            ForcingVisibility := f\<rparr>)"
    using expand_foreach_Suc_widgets by blast
  with True show ?thesis
    by (simp add: expand_def Let_def QWidget_resize_def QWidget_setMaximumHeight_def)
next
  case False
  let ?s1 = "s\<lparr>OldSize := size_q s\<rparr>"
  obtain f where "expand_foreach (Suc n) ?s1 (children ?s1) =
     Inr (?s1\<lparr>widgets := (if WA_WState_Created ?s1 then forced_widgets ?s1 (children ?s1) else widgets ?s1),
            ForcingVisibility := f\<rparr>)"
    using expand_foreach_Suc_widgets by blast
  moreover have "forced_widgets ?s1 (children s) = forced_widgets s (children s)"
    by (rule forced_widgets_frame) simp_all
  ultimately show ?thesis using False
    by (simp add: expand_def Let_def QWidget_resize_def QWidget_setMaximumHeight_def)
qed

lemma expand_Suc_geometry:
  "\<exists>s1. expand (Suc n) s False = Inr s1
     \<and> OldSize s1 = size_q s \<and> MaxHeight s1 = maximumHeight s \<and> maximumHeight s1 = 22
     \<and> size_q s1 = (fst (size_q s), min (snd (size_q s)) 22)"
proof -
  let ?s1 = "s\<lparr>OldSize := size_q s\<rparr>"
  obtain f where "expand_foreach (Suc n) ?s1 (children ?s1) =
     Inr (?s1\<lparr>widgets := (if WA_WState_Created ?s1 then forced_widgets ?s1 (children ?s1) else widgets ?s1),
            ForcingVisibility := f\<rparr>)"
    using expand_foreach_Suc_widgets by blast
  then show ?thesis
    by (auto simp add: expand_def Let_def QWidget_setMaximumHeight_def min_def)
qed

lemma expand_Suc_restore:
  "\<exists>s2. expand (Suc n) s True = Inr s2
     \<and> OldSize s2 = OldSize s \<and> MaxHeight s2 = MaxHeight s \<and> maximumHeight s2 = MaxHeight s
     \<and> size_q s2 = (fst (OldSize s), min (snd (OldSize s)) (MaxHeight s))"
proof -
  obtain f where "expand_foreach (Suc n) s (children s) =
     Inr (s\<lparr>widgets := (if WA_WState_Created s then forced_widgets s (children s) else widgets s),
            ForcingVisibility := f\<rparr>)"
    using expand_foreach_Suc_widgets by blast
  then show ?thesis
    by (auto simp add: expand_def Let_def QWidget_setMaximumHeight_def QWidget_resize_def)
qed

lemma childEvent_Suc_ChildAdded:
  "type_ev c = ChildAdded \<Longrightarrow> child_ev c = Widget w \<Longrightarrow>
   childEvent (Suc n) s c =
     setChildVisibility (Suc n)
       (installEventFilter
          (if WA_WState_ExplicitShowHide (widgets s w) \<and> WA_WState_Hidden (widgets s w)
           then setProperty_visibilityToParent s (Widget w) False else s)
          (Widget w)) w"
  by (simp add: childEvent_def Let_def setChildVisibility_Suc QGroupBox_childEvent_def)

lemma ctkCollapsibleGroupBox_new_QGroupBox_new:
  "\<exists>s0. ctkCollapsibleGroupBox_new n (QGroupBox_new sz ws) = Inr s0
     \<and> isCheckable s0 \<and> isChecked s0 \<and> toggled_to_expand s0 \<and> children s0 = []
     \<and> \<not> WA_WState_Created s0 \<and> \<not> ForcingVisibility s0 \<and> \<not> IsStateCreated s0
     \<and> MaxHeight s0 = maximumHeight s0"
  by (simp add: ctkCollapsibleGroupBox_new_def init_def QGroupBox_setCheckable_def
      QGroupBox_setChecked_def ctkCollapsibleGroupBoxPrivate_new_def QGroupBox_new_def
      QGroupBox.defs ctkCollapsibleGroupBox.defs Let_def)

lemma QGroupBox_setChecked_toggles:
  "isCheckable s \<Longrightarrow> toggled_to_expand s \<Longrightarrow> isChecked s \<noteq> b \<Longrightarrow>
   QGroupBox_setChecked n s b = expand n (s\<lparr>isChecked := b\<rparr>) b"
  by (auto simp add: QGroupBox_setChecked_def emit_toggled_def)

lemma forced_widgets_Hidden:
  "Widget w \<in> set cs \<Longrightarrow>
   WA_WState_Hidden (forced_widgets s cs w) = (collapsed s \<or> visibilityToParent s (Widget w) = Some False)"
  by (simp add: forced_widgets_def child_forced_def)

lemma forced_widgets_other:
  "Widget w \<notin> set cs \<Longrightarrow> forced_widgets s cs w = widgets s w"
  by (simp add: forced_widgets_def)


lemma QGroupBox_setVisible_forcing:
  "ForcingVisibility s \<Longrightarrow>
   \<exists>W. QGroupBox_setVisible n s show toolkit =
     Inr (s\<lparr>WA_WState_Created := (WA_WState_Created s \<or> Toolkit_create \<in> set toolkit),
            widgets := W\<rparr>)
     \<and> (\<forall>w. Toolkit_child_setVisible w True \<notin> set toolkit \<longrightarrow>
            WA_WState_Hidden (widgets s w) \<longrightarrow> WA_WState_Hidden (W w))"
proof (induction toolkit arbitrary: s)
  case Nil
  have "s = s\<lparr>WA_WState_Created := WA_WState_Created s, widgets := widgets s\<rparr>" by simp
  then have "QGroupBox_setVisible n s show [] =
      Inr (s\<lparr>WA_WState_Created := (WA_WState_Created s \<or> Toolkit_create \<in> set []),
             widgets := widgets s\<rparr>)"
    by simp
  then show ?case by blast
next
  case (Cons c calls)
  show ?case
  proof (cases c)
    case Toolkit_create
    let ?s1 = "s\<lparr>WA_WState_Created := True\<rparr>"
    have "ForcingVisibility ?s1" using Cons.prems by simp
    from Cons.IH [OF this] obtain W where
      W: "QGroupBox_setVisible n ?s1 show calls =
           Inr (?s1\<lparr>WA_WState_Created := (WA_WState_Created ?s1 \<or> Toolkit_create \<in> set calls),
                  widgets := W\<rparr>)"
         "\<forall>w. Toolkit_child_setVisible w True \<notin> set calls \<longrightarrow>
            WA_WState_Hidden (widgets ?s1 w) \<longrightarrow> WA_WState_Hidden (W w)"
      by blast
    have "QGroupBox_setVisible n s show (c # calls) =
        Inr (s\<lparr>WA_WState_Created := (WA_WState_Created s \<or> Toolkit_create \<in> set (c # calls)),
               widgets := W\<rparr>)"
      using W(1) Toolkit_create by simp
    moreover have "\<forall>w. Toolkit_child_setVisible w True \<notin> set (c # calls) \<longrightarrow>
            WA_WState_Hidden (widgets s w) \<longrightarrow> WA_WState_Hidden (W w)"
      using W(2) by simp
    ultimately show ?thesis by blast
  next
    case (Toolkit_child_setVisible w' visible)
    let ?s1 = "s\<lparr>widgets := (widgets s)(w' :=
                 \<lparr>WA_WState_ExplicitShowHide = True, WA_WState_Hidden = \<not> visible\<rparr>)\<rparr>"
    have step: "QWidget_setVisible n s w' visible = Inr ?s1"
      using Cons.prems by (rule QWidget_setVisible_forcing)
    have "ForcingVisibility ?s1" using Cons.prems by simp
    from Cons.IH [OF this] obtain W where
      W: "QGroupBox_setVisible n ?s1 show calls =
           Inr (?s1\<lparr>WA_WState_Created := (WA_WState_Created ?s1 \<or> Toolkit_create \<in> set calls),
                  widgets := W\<rparr>)"
         "\<forall>w. Toolkit_child_setVisible w True \<notin> set calls \<longrightarrow>
            WA_WState_Hidden (widgets ?s1 w) \<longrightarrow> WA_WState_Hidden (W w)"
      by blast
    have "QGroupBox_setVisible n s show (c # calls) =
        Inr (s\<lparr>WA_WState_Created := (WA_WState_Created s \<or> Toolkit_create \<in> set (c # calls)),
               widgets := W\<rparr>)"
      using W(1) step Toolkit_child_setVisible by simp
    moreover have "\<forall>w. Toolkit_child_setVisible w True \<notin> set (c # calls) \<longrightarrow>
            WA_WState_Hidden (widgets s w) \<longrightarrow> WA_WState_Hidden (W w)"
      using W(2) Toolkit_child_setVisible by auto
    ultimately show ?thesis by blast
  qed
qed

lemma setVisible_Suc:
  "\<exists>W f. setVisible (Suc n) s show toolkit =
     Inr (s\<lparr>WA_WState_Created := (WA_WState_Created s \<or> Toolkit_create \<in> set toolkit),
            widgets := W, ForcingVisibility := f,
            IsStateCreated := (IsStateCreated s \<or> WA_WState_Created s \<or> Toolkit_create \<in> set toolkit)\<rparr>)
     \<and> (\<forall>w. Toolkit_child_setVisible w True \<notin> set toolkit \<longrightarrow>
            visibilityToParent s (Widget w) = Some False \<longrightarrow>
            WA_WState_Hidden (widgets s w) \<longrightarrow> WA_WState_Hidden (W w))"
proof -
  let ?C = "WA_WState_Created s \<or> Toolkit_create \<in> set toolkit"
  let ?s1 = "s\<lparr>ForcingVisibility := True\<rparr>"
  have "ForcingVisibility ?s1" by simp
  from QGroupBox_setVisible_forcing [OF this, of n "show" toolkit] obtain W where
    W: "QGroupBox_setVisible (Suc n) ?s1 show toolkit =
          Inr (?s1\<lparr>WA_WState_Created := (WA_WState_Created ?s1 \<or> Toolkit_create \<in> set toolkit),
                 widgets := W\<rparr>)"
       "\<forall>w. Toolkit_child_setVisible w True \<notin> set toolkit \<longrightarrow>
            WA_WState_Hidden (widgets ?s1 w) \<longrightarrow> WA_WState_Hidden (W w)"
    using QGroupBox_setVisible_forcing [of ?s1 "Suc n" "show" toolkit] by auto
  let ?s3 = "s\<lparr>WA_WState_Created := ?C, widgets := W, ForcingVisibility := False\<rparr>"
  show ?thesis
  proof (cases "\<not> IsStateCreated s \<and> ?C")
    case False
    then have "setVisible (Suc n) s show toolkit = Inr ?s3"
      using W(1) by (auto simp add: setVisible_def Let_def)
    moreover have "?s3 = s\<lparr>WA_WState_Created := ?C, widgets := W, ForcingVisibility := False,
        IsStateCreated := (IsStateCreated s \<or> ?C)\<rparr>"
      using False by auto
    ultimately have "setVisible (Suc n) s show toolkit =
        Inr (s\<lparr>WA_WState_Created := ?C, widgets := W, ForcingVisibility := False,
        IsStateCreated := (IsStateCreated s \<or> ?C)\<rparr>)"
      by simp
    then show ?thesis using W(2) by auto
  next
    case True
    let ?s4 = "?s3\<lparr>IsStateCreated := True\<rparr>"
    obtain f where f: "expand_foreach (Suc n) ?s4 (children ?s4) =
       Inr (?s4\<lparr>widgets := (if WA_WState_Created ?s4 then forced_widgets ?s4 (children ?s4)
                               else widgets ?s4),
              ForcingVisibility := f\<rparr>)"
      using expand_foreach_Suc_widgets by blast
    have "setVisible (Suc n) s show toolkit = expand_foreach (Suc n) ?s4 (children ?s4)"
      using True W(1) by (auto simp add: setVisible_def Let_def setVisible_foreach_expand_foreach)
    with f True have "setVisible (Suc n) s show toolkit =
        Inr (s\<lparr>WA_WState_Created := ?C, widgets := forced_widgets ?s4 (children ?s4),
               ForcingVisibility := f, IsStateCreated := (IsStateCreated s \<or> ?C)\<rparr>)"
      by auto
    moreover have "\<forall>w. Toolkit_child_setVisible w True \<notin> set toolkit \<longrightarrow>
            visibilityToParent s (Widget w) = Some False \<longrightarrow>
            WA_WState_Hidden (widgets s w) \<longrightarrow>
            WA_WState_Hidden (forced_widgets ?s4 (children ?s4) w)"
      using W(2) by (auto simp add: forced_widgets_def child_forced_def)
    ultimately show ?thesis by blast
  qed
qed

lemma QGroupBox_setVisible_forcing_child:
  "ForcingVisibility s \<Longrightarrow>
   \<exists>W. QGroupBox_setVisible n s sh toolkit =
     Inr (s\<lparr>WA_WState_Created := (WA_WState_Created s \<or> Toolkit_create \<in> set toolkit),
            widgets := W\<rparr>)
     \<and> (\<forall>w. Toolkit_child_setVisible w False \<notin> set toolkit \<longrightarrow>
            W w = (if Toolkit_child_setVisible w True \<in> set toolkit
                   then \<lparr>WA_WState_ExplicitShowHide = True, WA_WState_Hidden = False\<rparr>
                   else widgets s w))"
proof (induction toolkit arbitrary: s)
  case Nil
  have "s = s\<lparr>WA_WState_Created := WA_WState_Created s, widgets := widgets s\<rparr>" by simp
  then have a: "QGroupBox_setVisible n s sh [] =
      Inr (s\<lparr>WA_WState_Created := (WA_WState_Created s \<or> Toolkit_create \<in> set []),
             widgets := widgets s\<rparr>)"
    by simp
  have b: "\<forall>w. Toolkit_child_setVisible w False \<notin> set [] \<longrightarrow>
            widgets s w = (if Toolkit_child_setVisible w True \<in> set []
                   then \<lparr>WA_WState_ExplicitShowHide = True, WA_WState_Hidden = False\<rparr>
                   else widgets s w)"
    by simp
  from a b show ?case by blast
next
  case (Cons c calls)
  show ?case
  proof (cases c)
    case Toolkit_create
    let ?s1 = "s\<lparr>WA_WState_Created := True\<rparr>"
    have "ForcingVisibility ?s1" using Cons.prems by simp
    from Cons.IH [OF this] obtain W where
      W: "QGroupBox_setVisible n ?s1 sh calls =
           Inr (?s1\<lparr>WA_WState_Created := (WA_WState_Created ?s1 \<or> Toolkit_create \<in> set calls),
                  widgets := W\<rparr>)"
         "\<forall>w. Toolkit_child_setVisible w False \<notin> set calls \<longrightarrow>
            W w = (if Toolkit_child_setVisible w True \<in> set calls
                   then \<lparr>WA_WState_ExplicitShowHide = True, WA_WState_Hidden = False\<rparr>
                   else widgets ?s1 w)"
      by blast
    have "QGroupBox_setVisible n s sh (c # calls) =
        Inr (s\<lparr>WA_WState_Created := (WA_WState_Created s \<or> Toolkit_create \<in> set (c # calls)),
               widgets := W\<rparr>)"
      using W(1) Toolkit_create by simp
    moreover have "\<forall>w. Toolkit_child_setVisible w False \<notin> set (c # calls) \<longrightarrow>
            W w = (if Toolkit_child_setVisible w True \<in> set (c # calls)
                   then \<lparr>WA_WState_ExplicitShowHide = True, WA_WState_Hidden = False\<rparr>
                   else widgets s w)"
      using W(2) Toolkit_create by simp
    ultimately show ?thesis by blast
  next
    case (Toolkit_child_setVisible w' visible)
    let ?s1 = "s\<lparr>widgets := (widgets s)(w' :=
                 \<lparr>WA_WState_ExplicitShowHide = True, WA_WState_Hidden = \<not> visible\<rparr>)\<rparr>"
    have step: "QWidget_setVisible n s w' visible = Inr ?s1"
      using Cons.prems by (rule QWidget_setVisible_forcing)
    have "ForcingVisibility ?s1" using Cons.prems by simp
    from Cons.IH [OF this] obtain W where
      W: "QGroupBox_setVisible n ?s1 sh calls =
           Inr (?s1\<lparr>WA_WState_Created := (WA_WState_Created ?s1 \<or> Toolkit_create \<in> set calls),
                  widgets := W\<rparr>)"
         "\<forall>w. Toolkit_child_setVisible w False \<notin> set calls \<longrightarrow>
            W w = (if Toolkit_child_setVisible w True \<in> set calls
                   then \<lparr>WA_WState_ExplicitShowHide = True, WA_WState_Hidden = False\<rparr>
                   else widgets ?s1 w)"
      by blast
    have "QGroupBox_setVisible n s sh (c # calls) =
        Inr (s\<lparr>WA_WState_Created := (WA_WState_Created s \<or> Toolkit_create \<in> set (c # calls)),
               widgets := W\<rparr>)"
      using W(1) step Toolkit_child_setVisible by simp
    moreover have "\<forall>w. Toolkit_child_setVisible w False \<notin> set (c # calls) \<longrightarrow>
            W w = (if Toolkit_child_setVisible w True \<in> set (c # calls)
                   then \<lparr>WA_WState_ExplicitShowHide = True, WA_WState_Hidden = False\<rparr>
                   else widgets s w)"
      using W(2) Toolkit_child_setVisible by auto
    ultimately show ?thesis by blast
  qed
qed

lemma forced_widgets_apply:
  "forced_widgets s cs w = (if Widget w \<in> set cs then child_forced s w else widgets s w)"
  by (simp add: forced_widgets_def)

lemma expand_foreach_Suc_not_forcing:
  "\<not> ForcingVisibility s \<Longrightarrow>
   expand_foreach (Suc n) s cs =
     Inr (s\<lparr>widgets := (if WA_WState_Created s then forced_widgets s cs else widgets s)\<rparr>)"
proof (cases "WA_WState_Created s \<and> (\<exists>w. Widget w \<in> set cs)")
  case True
  assume nf: "\<not> ForcingVisibility s"
  have "s\<lparr>widgets := forced_widgets s cs, ForcingVisibility := False\<rparr>
        = s\<lparr>widgets := forced_widgets s cs\<rparr>"
    using nf by simp
  with True show ?thesis by (simp add: expand_foreach_Suc)
next
  case False
  then have w: "(if WA_WState_Created s then forced_widgets s cs else widgets s) = widgets s"
    by (auto simp add: forced_widgets_no_widget)
  have "expand_foreach (Suc n) s cs = Inr s"
    using False by (auto simp add: expand_foreach_Suc)
  then show ?thesis by (simp only: w) simp
qed

lemma setVisible_Suc_exact:
  "\<exists>W. QGroupBox_setVisible (Suc n) (s\<lparr>ForcingVisibility := True\<rparr>) sh toolkit =
          Inr (s\<lparr>ForcingVisibility := True,
                 WA_WState_Created := (WA_WState_Created s \<or> Toolkit_create \<in> set toolkit),
                 widgets := W\<rparr>)
     \<and> setVisible (Suc n) s sh toolkit =
          Inr (s\<lparr>WA_WState_Created := (WA_WState_Created s \<or> Toolkit_create \<in> set toolkit),
                 widgets :=
                   (if \<not> IsStateCreated s \<and> (WA_WState_Created s \<or> Toolkit_create \<in> set toolkit)
                    then (\<lambda>w. if Widget w \<in> set (children s) then child_forced s w else W w)
                    else W),
                 ForcingVisibility := False,
                 IsStateCreated :=
                   (IsStateCreated s \<or> WA_WState_Created s \<or> Toolkit_create \<in> set toolkit)\<rparr>)
     \<and> (\<forall>w. Toolkit_child_setVisible w False \<notin> set toolkit \<longrightarrow>
            W w = (if Toolkit_child_setVisible w True \<in> set toolkit
                   then \<lparr>WA_WState_ExplicitShowHide = True, WA_WState_Hidden = False\<rparr>
                   else widgets s w))"
proof -
  let ?C = "WA_WState_Created s \<or> Toolkit_create \<in> set toolkit"
  let ?s1 = "s\<lparr>ForcingVisibility := True\<rparr>"
  have "ForcingVisibility ?s1" by simp
  from QGroupBox_setVisible_forcing_child [OF this, of "Suc n" sh toolkit] obtain W where
    W: "QGroupBox_setVisible (Suc n) ?s1 sh toolkit =
          Inr (?s1\<lparr>WA_WState_Created := (WA_WState_Created ?s1 \<or> Toolkit_create \<in> set toolkit),
                 widgets := W\<rparr>)"
       "\<forall>w. Toolkit_child_setVisible w False \<notin> set toolkit \<longrightarrow>
            W w = (if Toolkit_child_setVisible w True \<in> set toolkit
                   then \<lparr>WA_WState_ExplicitShowHide = True, WA_WState_Hidden = False\<rparr>
                   else widgets ?s1 w)"
    by blast
  have base: "QGroupBox_setVisible (Suc n) ?s1 sh toolkit =
          Inr (s\<lparr>ForcingVisibility := True, WA_WState_Created := ?C, widgets := W\<rparr>)"
    using W(1) by simp
  have tk: "\<forall>w. Toolkit_child_setVisible w False \<notin> set toolkit \<longrightarrow>
            W w = (if Toolkit_child_setVisible w True \<in> set toolkit
                   then \<lparr>WA_WState_ExplicitShowHide = True, WA_WState_Hidden = False\<rparr>
                   else widgets s w)"
    using W(2) by simp
  let ?s3 = "s\<lparr>WA_WState_Created := ?C, widgets := W, ForcingVisibility := False\<rparr>"
  have whole: "setVisible (Suc n) s sh toolkit =
          Inr (s\<lparr>WA_WState_Created := ?C,
                 widgets :=
                   (if \<not> IsStateCreated s \<and> ?C
                    then (\<lambda>w. if Widget w \<in> set (children s) then child_forced s w else W w)
                    else W),
                 ForcingVisibility := False,
                 IsStateCreated := (IsStateCreated s \<or> ?C)\<rparr>)"
  proof (cases "\<not> IsStateCreated s \<and> ?C")
    case False
    then have "setVisible (Suc n) s sh toolkit = Inr ?s3"
      using base by (auto simp add: setVisible_def Let_def)
    moreover have "?s3 = s\<lparr>WA_WState_Created := ?C, widgets := W, ForcingVisibility := False,
        IsStateCreated := (IsStateCreated s \<or> ?C)\<rparr>"
      using False by auto
    ultimately show ?thesis using False by auto
  next
    case True
    let ?s4 = "?s3\<lparr>IsStateCreated := True\<rparr>"
    have nf: "\<not> ForcingVisibility ?s4" by simp
    have fw: "forced_widgets ?s4 (children s)
              = (\<lambda>w. if Widget w \<in> set (children s) then child_forced s w else W w)"
      by (auto simp add: forced_widgets_def child_forced_def collapsed_def fun_eq_iff)
    have "setVisible (Suc n) s sh toolkit = expand_foreach (Suc n) ?s4 (children ?s4)"
      using True base by (auto simp add: setVisible_def Let_def setVisible_foreach_expand_foreach)
    also have "\<dots> = Inr (?s4\<lparr>widgets := (if WA_WState_Created ?s4
                               then forced_widgets ?s4 (children ?s4) else widgets ?s4)\<rparr>)"
      using nf by (rule expand_foreach_Suc_not_forcing)
    finally show ?thesis using True fw by auto
  qed
  from base whole tk show ?thesis by blast
qed

lemma setChildVisibility_keeps_hidden:
  assumes "visibilityToParent s (Widget w) = Some False" and "WA_WState_Hidden (widgets s w)"
  shows "\<exists>s'. setChildVisibility (Suc n) s w' = Inr s'
     \<and> visibilityToParent s' (Widget w) = Some False \<and> WA_WState_Hidden (widgets s' w)"
  using assms by (auto simp add: setChildVisibility_Suc child_forced_def)

lemma QWidget_setVisible_keeps_hidden:
  assumes "visibilityToParent s (Widget w) = Some False" and "WA_WState_Hidden (widgets s w)"
    and "\<not> (w' = w \<and> visible)"
  shows "\<exists>s'. QWidget_setVisible (Suc n) s w' visible = Inr s'
     \<and> visibilityToParent s' (Widget w) = Some False \<and> WA_WState_Hidden (widgets s' w)"
  using assms
  by (auto simp add: QWidget_setVisible.simps sendEvent.simps eventFilter.simps
      setChildVisibility_Suc child_forced_def toolkit_defs Let_def)

lemma expand_keeps_hidden:
  assumes "visibilityToParent s (Widget w) = Some False" and "WA_WState_Hidden (widgets s w)"
  shows "\<exists>s'. expand (Suc n) s b = Inr s'
     \<and> visibilityToParent s' (Widget w) = Some False \<and> WA_WState_Hidden (widgets s' w)"
proof -
  obtain s' where "expand (Suc n) s b = Inr s'"
     "widgets s' = (if WA_WState_Created s then forced_widgets s (children s) else widgets s)"
     "visibilityToParent s' = visibilityToParent s"
    using expand_Suc_frame [of n s b] by blast
  with assms show ?thesis
    by (auto simp add: forced_widgets_def child_forced_def)
qed

lemma QGroupBox_setChecked_keeps_hidden:
  assumes "visibilityToParent s (Widget w) = Some False" and "WA_WState_Hidden (widgets s w)"
  shows "\<exists>s'. QGroupBox_setChecked (Suc n) s b = Inr s'
     \<and> visibilityToParent s' (Widget w) = Some False \<and> WA_WState_Hidden (widgets s' w)"
proof (cases "isCheckable s \<and> b \<noteq> isChecked s \<and> toggled_to_expand s")
  case True
  have "visibilityToParent (s\<lparr>isChecked := b\<rparr>) (Widget w) = Some False"
       "WA_WState_Hidden (widgets (s\<lparr>isChecked := b\<rparr>) w)"
    using assms by simp_all
  from expand_keeps_hidden [OF this, of n b] True show ?thesis
    by (simp add: QGroupBox_setChecked_def emit_toggled_def)
next
  case False
  with assms show ?thesis
    by (auto simp add: QGroupBox_setChecked_def emit_toggled_def)
qed

lemma setVisible_keeps_hidden:
  assumes "visibilityToParent s (Widget w) = Some False" and "WA_WState_Hidden (widgets s w)"
    and "Toolkit_child_setVisible w True \<notin> set toolkit"
  shows "\<exists>s'. setVisible (Suc n) s show toolkit = Inr s'
     \<and> visibilityToParent s' (Widget w) = Some False \<and> WA_WState_Hidden (widgets s' w)"
proof -
  obtain W f where "setVisible (Suc n) s show toolkit =
     Inr (s\<lparr>WA_WState_Created := (WA_WState_Created s \<or> Toolkit_create \<in> set toolkit),
            widgets := W, ForcingVisibility := f,
            IsStateCreated := (IsStateCreated s \<or> WA_WState_Created s \<or> Toolkit_create \<in> set toolkit)\<rparr>)"
     "\<forall>w. Toolkit_child_setVisible w True \<notin> set toolkit \<longrightarrow>
            visibilityToParent s (Widget w) = Some False \<longrightarrow>
            WA_WState_Hidden (widgets s w) \<longrightarrow> WA_WState_Hidden (W w)"
    using setVisible_Suc [of n s "show" toolkit] by blast
  with assms show ?thesis by simp
qed

lemma childEvent_keeps_hidden:
  assumes "visibilityToParent s (Widget w) = Some False" and "WA_WState_Hidden (widgets s w)"
  shows "\<exists>s'. childEvent (Suc n) s c = Inr s'
     \<and> visibilityToParent s' (Widget w) = Some False \<and> WA_WState_Hidden (widgets s' w)"
  using assms
  by (cases "child_ev c")
    (auto simp add: childEvent_def Let_def setChildVisibility_Suc child_forced_def toolkit_defs
      QGroupBox_childEvent_def)

lemma step_keeps_hidden:
  assumes "visibilityToParent s (Widget w) = Some False" and "WA_WState_Hidden (widgets s w)"
    and "\<not> shows_child w a"
  shows "\<exists>s'. step (Suc n) s a = Inr s'
     \<and> visibilityToParent s' (Widget w) = Some False \<and> WA_WState_Hidden (widgets s' w)"
proof (cases a)
  case (Child_setVisible w' visible)
  with assms(3) have "\<not> (w' = w \<and> visible)" by simp
  from QWidget_setVisible_keeps_hidden [OF assms(1,2) this] Child_setVisible
  show ?thesis by simp
next
  case (Box_setVisible sh toolkit)
  with assms(3) have "Toolkit_child_setVisible w True \<notin> set toolkit" by simp
  from setVisible_keeps_hidden [OF assms(1,2) this] Box_setVisible
  show ?thesis by simp
next
  case (Box_setChecked b)
  with QGroupBox_setChecked_keeps_hidden [OF assms(1,2)] show ?thesis by simp
next
  case (Box_expand b)
  with expand_keeps_hidden [OF assms(1,2)] show ?thesis by simp
next
  case (Child_added child)
  have "visibilityToParent (s\<lparr>children := children s @ [child]\<rparr>) (Widget w) = Some False"
       "WA_WState_Hidden (widgets (s\<lparr>children := children s @ [child]\<rparr>) w)"
    using assms by simp_all
  from childEvent_keeps_hidden [OF this] Child_added show ?thesis by simp
next
  case Box_created
  with assms show ?thesis by simp
qed

lemma run_keeps_hidden:
  assumes "visibilityToParent s (Widget w) = Some False" and "WA_WState_Hidden (widgets s w)"
    and "\<forall>a\<in>set acts. \<not> shows_child w a"
  shows "\<exists>s'. run (Suc n) s acts = Inr s'
     \<and> visibilityToParent s' (Widget w) = Some False \<and> WA_WState_Hidden (widgets s' w)"
  using assms
proof (induction acts arbitrary: s)
  case Nil
  then show ?case by simp
next
  case (Cons a acts)
  from Cons.prems have "\<not> shows_child w a" by simp
  from step_keeps_hidden [OF Cons.prems(1,2) this, of n] obtain s1 where
    s1: "step (Suc n) s a = Inr s1" "visibilityToParent s1 (Widget w) = Some False"
        "WA_WState_Hidden (widgets s1 w)"
    by blast
  from Cons.prems have "\<forall>a\<in>set acts. \<not> shows_child w a" by simp
  from Cons.IH [OF s1(2,3) this] s1(1) show ?case by simp
qed

lemma QWidget_setVisible_shows_again:
  assumes "WA_WState_Hidden (widgets s w)" and "\<not> ForcingVisibility s"
    and "eventFilter_installed s (Widget w)"
  shows "\<exists>s'. QWidget_setVisible (Suc n) s w True = Inr s'
     \<and> visibilityToParent s' (Widget w) = Some True
     \<and> WA_WState_Hidden (widgets s' w) = (WA_WState_Created s \<and> collapsed s)"
  using assms
  by (auto simp add: QWidget_setVisible.simps sendEvent.simps eventFilter.simps
      setChildVisibility_Suc child_forced_def toolkit_defs Let_def collapsed_def)

lemma QWidget_setVisible_Suc_created:
  "\<exists>s'. QWidget_setVisible (Suc n) s w visible = Inr s'
     \<and> IsStateCreated s' = IsStateCreated s \<and> WA_WState_Created s' = WA_WState_Created s"
  by (auto simp add: QWidget_setVisible.simps sendEvent.simps eventFilter.simps
      setChildVisibility_Suc toolkit_defs Let_def)

lemma childEvent_Suc_created:
  "\<exists>s'. childEvent (Suc n) s c = Inr s'
     \<and> IsStateCreated s' = IsStateCreated s \<and> WA_WState_Created s' = WA_WState_Created s"
  by (cases "child_ev c")
    (auto simp add: childEvent_def Let_def setChildVisibility_Suc toolkit_defs
      QGroupBox_childEvent_def)

lemma QGroupBox_setChecked_Suc_created:
  "\<exists>s'. QGroupBox_setChecked (Suc n) s b = Inr s'
     \<and> IsStateCreated s' = IsStateCreated s \<and> WA_WState_Created s' = WA_WState_Created s"
proof (cases "isCheckable s \<and> b \<noteq> isChecked s \<and> toggled_to_expand s")
  case True
  with expand_Suc_frame [of n "s\<lparr>isChecked := b\<rparr>" b] show ?thesis
    by (auto simp add: QGroupBox_setChecked_def emit_toggled_def)
next
  case False
  then show ?thesis by (auto simp add: QGroupBox_setChecked_def emit_toggled_def)
qed

lemma step_not_setVisible:
  assumes "\<not> is_Box_setVisible a"
  shows "\<exists>s'. step (Suc n) s a = Inr s' \<and> IsStateCreated s' = IsStateCreated s
     \<and> WA_WState_Created s' = (WA_WState_Created s \<or> a = Box_created)"
proof (cases a)
  case (Child_setVisible w visible)
  with QWidget_setVisible_Suc_created [of n s w visible] show ?thesis by simp
next
  case (Box_setVisible sh toolkit)
  with assms show ?thesis by simp
next
  case (Box_setChecked b)
  with QGroupBox_setChecked_Suc_created [of n s b] show ?thesis by simp
next
  case (Box_expand b)
  with expand_Suc_frame [of n s b] show ?thesis by auto
next
  case (Child_added child)
  with childEvent_Suc_created [of n "s\<lparr>children := children s @ [child]\<rparr>"]
  show ?thesis by simp
next
  case Box_created
  then show ?thesis by simp
qed

lemma setVisible_Suc_fixup:
  assumes "\<not> IsStateCreated s" and "WA_WState_Created s \<or> Toolkit_create \<in> set toolkit"
  shows "\<exists>s'. setVisible (Suc n) s sh toolkit = Inr s' \<and> IsStateCreated s'
     \<and> WA_WState_Created s' \<and> visibilityToParent s' = visibilityToParent s
     \<and> (\<forall>c. Widget c \<in> set (children s) \<longrightarrow>
           WA_WState_Hidden (widgets s' c)
             = (collapsed s \<or> visibilityToParent s (Widget c) = Some False)
           \<and> WA_WState_ExplicitShowHide (widgets s' c)
               = (visibilityToParent s (Widget c) = Some False))"
proof -
  obtain W where "setVisible (Suc n) s sh toolkit =
          Inr (s\<lparr>WA_WState_Created := (WA_WState_Created s \<or> Toolkit_create \<in> set toolkit),
                 widgets :=
                   (if \<not> IsStateCreated s \<and> (WA_WState_Created s \<or> Toolkit_create \<in> set toolkit)
                    then (\<lambda>w. if Widget w \<in> set (children s) then child_forced s w else W w)
                    else W),
                 ForcingVisibility := False,
                 IsStateCreated :=
                   (IsStateCreated s \<or> WA_WState_Created s \<or> Toolkit_create \<in> set toolkit)\<rparr>)"
    using setVisible_Suc_exact [of n s sh toolkit] by blast
  with assms show ?thesis by (auto simp add: child_forced_def)
qed

lemma setVisible_Suc_no_fixup:
  assumes "IsStateCreated s \<or> \<not> (WA_WState_Created s \<or> Toolkit_create \<in> set toolkit)"
  shows "\<exists>s2. QGroupBox_setVisible (Suc n) (s\<lparr>ForcingVisibility := True\<rparr>) sh toolkit = Inr s2
     \<and> setVisible (Suc n) s sh toolkit = Inr (s2\<lparr>ForcingVisibility := False\<rparr>)
     \<and> IsStateCreated s2 = IsStateCreated s"
proof -
  have "ForcingVisibility (s\<lparr>ForcingVisibility := True\<rparr>)" by simp
  from QGroupBox_setVisible_forcing [OF this, of "Suc n" sh toolkit] assms
  show ?thesis by (auto simp add: setVisible_def Let_def)
qed

lemma setVisible_Suc_latch:
  "\<exists>s'. setVisible (Suc n) s sh toolkit = Inr s'
     \<and> IsStateCreated s'
         = (IsStateCreated s \<or> WA_WState_Created s \<or> Toolkit_create \<in> set toolkit)"
proof -
  obtain W where "setVisible (Suc n) s sh toolkit =
          Inr (s\<lparr>WA_WState_Created := (WA_WState_Created s \<or> Toolkit_create \<in> set toolkit),
                 widgets :=
                   (if \<not> IsStateCreated s \<and> (WA_WState_Created s \<or> Toolkit_create \<in> set toolkit)
                    then (\<lambda>w. if Widget w \<in> set (children s) then child_forced s w else W w)
                    else W),
                 ForcingVisibility := False,
                 IsStateCreated :=
                   (IsStateCreated s \<or> WA_WState_Created s \<or> Toolkit_create \<in> set toolkit)\<rparr>)"
    using setVisible_Suc_exact [of n s sh toolkit] by blast
  then show ?thesis by simp
qed

lemma step_latch:
  "\<exists>s'. step (Suc n) s a = Inr s' \<and> (IsStateCreated s \<longrightarrow> IsStateCreated s')"
proof (cases "is_Box_setVisible a")
  case False
  from step_not_setVisible [OF this, of n s] show ?thesis by auto
next
  case True
  then obtain sh toolkit where a: "a = Box_setVisible sh toolkit" by (cases a) simp_all
  with setVisible_Suc_latch [of n s sh toolkit] show ?thesis by auto
qed

lemma run_fixups:
  "\<exists>s'. run (Suc n) s acts = Inr s' \<and> (IsStateCreated s \<longrightarrow> IsStateCreated s')
     \<and> fixups (Suc n) s acts = (if \<not> IsStateCreated s \<and> IsStateCreated s' then 1 else 0)"
proof (induction acts arbitrary: s)
  case Nil
  show ?case by simp
next
  case (Cons a acts)
  obtain s1 where s1: "step (Suc n) s a = Inr s1" "IsStateCreated s \<longrightarrow> IsStateCreated s1"
    using step_latch [of n s a] by blast
  obtain s' where s': "run (Suc n) s1 acts = Inr s'" "IsStateCreated s1 \<longrightarrow> IsStateCreated s'"
      "fixups (Suc n) s1 acts = (if \<not> IsStateCreated s1 \<and> IsStateCreated s' then 1 else 0)"
    using Cons.IH [of s1] by blast
  have "run (Suc n) s (a # acts) = Inr s'" using s1(1) s'(1) by simp
  moreover have "IsStateCreated s \<longrightarrow> IsStateCreated s'" using s1(2) s'(2) by simp
  moreover have "fixups (Suc n) s (a # acts)
      = (if \<not> IsStateCreated s \<and> IsStateCreated s' then 1 else 0)"
    using s1 s'(2,3) by auto
  ultimately show ?case by blast
qed

lemma fixups_append:
  "run (Suc n) s pre = Inr s1 \<Longrightarrow>
   fixups (Suc n) s (pre @ rest) = fixups (Suc n) s pre + fixups (Suc n) s1 rest"
proof (induction pre arbitrary: s)
  case Nil
  then show ?case by simp
next
  case (Cons a pre)
  obtain s0 where s0: "step (Suc n) s a = Inr s0" using step_latch [of n s a] by blast
  with Cons.prems have "run (Suc n) s0 pre = Inr s1" by simp
  from Cons.IH [OF this] s0 show ?case by simp
qed

lemma fixups_first_created:
  assumes "run (Suc n) s pre = Inr s1" and "\<not> IsStateCreated s1"
    and "WA_WState_Created s1 \<or> Toolkit_create \<in> set toolkit"
  shows "fixups (Suc n) s pre = 0
     \<and> fixups (Suc n) s (pre @ Box_setVisible sh toolkit # post) = 1
     \<and> (\<exists>s2. step (Suc n) s1 (Box_setVisible sh toolkit) = Inr s2 \<and> IsStateCreated s2
           \<and> (\<forall>c. Widget c \<in> set (children s1) \<longrightarrow>
                 WA_WState_Hidden (widgets s2 c)
                   = (collapsed s1 \<or> visibilityToParent s1 (Widget c) = Some False)))"
proof -
  have pre0: "fixups (Suc n) s pre = 0"
    using run_fixups [of n s pre] assms(1,2) by auto
  obtain s2 where s2: "setVisible (Suc n) s1 sh toolkit = Inr s2" "IsStateCreated s2"
      "\<forall>c. Widget c \<in> set (children s1) \<longrightarrow>
           WA_WState_Hidden (widgets s2 c)
             = (collapsed s1 \<or> visibilityToParent s1 (Widget c) = Some False)
           \<and> WA_WState_ExplicitShowHide (widgets s2 c)
               = (visibilityToParent s1 (Widget c) = Some False)"
    using setVisible_Suc_fixup [OF assms(2,3), of n sh] by blast
  have "fixups (Suc n) s2 post = 0"
    using run_fixups [of n s2 post] s2(2) by auto
  then have "fixups (Suc n) s1 (Box_setVisible sh toolkit # post) = 1"
    using s2(1,2) assms(2) by simp
  then have "fixups (Suc n) s (pre @ Box_setVisible sh toolkit # post) = 1"
    using fixups_append [OF assms(1)] pre0 by simp
  moreover have "\<exists>s2. step (Suc n) s1 (Box_setVisible sh toolkit) = Inr s2 \<and> IsStateCreated s2
           \<and> (\<forall>c. Widget c \<in> set (children s1) \<longrightarrow>
                 WA_WState_Hidden (widgets s2 c)
                   = (collapsed s1 \<or> visibilityToParent s1 (Widget c) = Some False))"
    using s2 by auto
  ultimately show ?thesis using pre0 by blast
qed

lemma expand_Suc_not_forcing:
  assumes "\<not> ForcingVisibility s"
  shows "\<exists>s'. expand (Suc n) s b = Inr s' \<and> \<not> ForcingVisibility s'
     \<and> widgets s' = (if WA_WState_Created s then forced_widgets s (children s) else widgets s)
     \<and> visibilityToParent s' = visibilityToParent s
     \<and> isChecked s' = isChecked s
     \<and> WA_WState_Created s' = WA_WState_Created s \<and> IsStateCreated s' = IsStateCreated s
     \<and> children s' = children s \<and> toggled_to_expand s' = toggled_to_expand s
     \<and> eventFilter_installed s' = eventFilter_installed s"
proof (cases b)
  case True
  have "expand_foreach (Suc n) s (children s) =
     Inr (s\<lparr>widgets := (if WA_WState_Created s then forced_widgets s (children s) else widgets s)\<rparr>)"
    using assms by (rule expand_foreach_Suc_not_forcing)
  with True assms show ?thesis
    by (simp add: expand_def Let_def QWidget_resize_def QWidget_setMaximumHeight_def)
next
  case False
  let ?s1 = "s\<lparr>OldSize := size_q s\<rparr>"
  have nf: "\<not> ForcingVisibility ?s1" using assms by simp
  have "expand_foreach (Suc n) ?s1 (children ?s1) =
     Inr (?s1\<lparr>widgets := (if WA_WState_Created ?s1 then forced_widgets ?s1 (children ?s1)
                             else widgets ?s1)\<rparr>)"
    using nf by (rule expand_foreach_Suc_not_forcing)
  moreover have "forced_widgets ?s1 (children s) = forced_widgets s (children s)"
    by (rule forced_widgets_frame) simp_all
  ultimately show ?thesis using False assms
    by (simp add: expand_def Let_def QWidget_resize_def QWidget_setMaximumHeight_def)
qed

lemma QWidget_setVisible_early:
  "WA_WState_ExplicitShowHide (widgets s w) \<Longrightarrow> WA_WState_Hidden (widgets s w) = (\<not> visible) \<Longrightarrow>
   QWidget_setVisible n s w visible = Inr s"
  by (simp add: QWidget_setVisible.simps)

lemma QWidget_setVisible_marks:
  "\<not> (WA_WState_ExplicitShowHide (widgets s w) \<and> WA_WState_Hidden (widgets s w) = (\<not> visible)) \<Longrightarrow>
   QWidget_setVisible n s w visible =
     sendEvent n
       (s\<lparr>widgets := (widgets s)(w :=
            \<lparr>WA_WState_ExplicitShowHide = True, WA_WState_Hidden = \<not> visible\<rparr>)\<rparr>)
       w (if visible then ShowToParent else HideToParent)"
  by (cases "widgets s w")
    (auto simp add: QWidget_setVisible.simps setAttribute_Hidden_def
      setAttribute_ExplicitShowHide_def)

lemma sendEvent_not_installed:
  "\<not> eventFilter_installed s (Widget w) \<Longrightarrow> sendEvent n s w e = Inr s"
  by (simp add: sendEvent.simps)

lemma sendEvent_HideToParent:
  "eventFilter_installed s (Widget w) \<Longrightarrow> \<not> ForcingVisibility s \<Longrightarrow>
   sendEvent n s w HideToParent =
     Inr (s\<lparr>visibilityToParent := (visibilityToParent s)(Widget w := Some False)\<rparr>)"
  by (simp add: sendEvent.simps eventFilter.simps setProperty_visibilityToParent_def)

lemma sendEvent_ShowToParent:
  "eventFilter_installed s (Widget w) \<Longrightarrow> \<not> ForcingVisibility s \<Longrightarrow>
   sendEvent (Suc n) s w ShowToParent =
     Inr (if \<not> WA_WState_Created s
          then s\<lparr>visibilityToParent := (visibilityToParent s)(Widget w := Some True)\<rparr>
          else s\<lparr>visibilityToParent := (visibilityToParent s)(Widget w := Some True),
                 widgets := (widgets s)(w :=
                   \<lparr>WA_WState_ExplicitShowHide = False, WA_WState_Hidden = collapsed s\<rparr>),
                 ForcingVisibility := False\<rparr>)"
  by (simp add: sendEvent.simps eventFilter.simps setProperty_visibilityToParent_def
      setChildVisibility_Suc child_forced_def collapsed_def Let_def)

lemma tracked_fields:
  assumes "tracked s w"
    and "\<not> ForcingVisibility s'" and "toggled_to_expand s' = toggled_to_expand s"
    and "IsStateCreated s' = IsStateCreated s" and "WA_WState_Created s' = WA_WState_Created s"
    and "children s' = children s" and "eventFilter_installed s' = eventFilter_installed s"
    and "isChecked s' = isChecked s"
    and "WA_WState_ExplicitShowHide (widgets s' w) \<and> WA_WState_Hidden (widgets s' w)
           \<longrightarrow> visibilityToParent s' (Widget w) = Some False"
    and "visibilityToParent s' (Widget w) = Some False \<longrightarrow> WA_WState_Hidden (widgets s' w)"
    and "WA_WState_Created s \<longrightarrow>
           WA_WState_Hidden (widgets s' w)
             = (\<not> isChecked s \<or> visibilityToParent s' (Widget w) = Some False)"
  shows "tracked s' w"
  using assms unfolding tracked_def box_ok_def collapsed_def by metis

lemma tracked_other:
  assumes "tracked s w"
    and "\<not> ForcingVisibility s'" and "toggled_to_expand s' = toggled_to_expand s"
    and "IsStateCreated s' = IsStateCreated s" and "WA_WState_Created s' = WA_WState_Created s"
    and "children s' = children s" and "eventFilter_installed s' = eventFilter_installed s"
    and "isChecked s' = isChecked s"
    and "widgets s' w = widgets s w"
    and "visibilityToParent s' (Widget w) = visibilityToParent s (Widget w)"
  shows "tracked s' w"
  using assms unfolding tracked_def box_ok_def collapsed_def by metis

lemma tracked_not_forcing: "tracked s w \<Longrightarrow> \<not> ForcingVisibility s"
  by (simp add: tracked_def box_ok_def)

lemma tracked_installed: "tracked s w \<Longrightarrow> eventFilter_installed s (Widget w)"
  by (simp add: tracked_def)

lemma tracked_child: "tracked s w \<Longrightarrow> Widget w \<in> set (children s)"
  by (simp add: tracked_def)

lemma tracked_explicitly_hidden:
  "tracked s w \<Longrightarrow> WA_WState_ExplicitShowHide (widgets s w) \<Longrightarrow> WA_WState_Hidden (widgets s w) \<Longrightarrow>
   visibilityToParent s (Widget w) = Some False"
  by (simp add: tracked_def)

lemma tracked_recorded_hidden:
  "tracked s w \<Longrightarrow> visibilityToParent s (Widget w) = Some False \<Longrightarrow> WA_WState_Hidden (widgets s w)"
  by (simp add: tracked_def)

lemma tracked_latch_created: "tracked s w \<Longrightarrow> IsStateCreated s \<Longrightarrow> WA_WState_Created s"
  by (simp add: tracked_def box_ok_def)

lemma tracked_managed:
  "tracked s w \<Longrightarrow> IsStateCreated s \<Longrightarrow>
   WA_WState_Hidden (widgets s w) = (collapsed s \<or> visibilityToParent s (Widget w) = Some False)"
  by (simp add: tracked_def)

lemma tracked_Child_setVisible:
  assumes t: "tracked s w"
  shows "\<exists>s'. QWidget_setVisible (Suc n) s w' visible = Inr s' \<and> tracked s' w
     \<and> (w' = w \<and> \<not> visible \<longrightarrow>
          visibilityToParent s' (Widget w) = Some False \<and> WA_WState_Hidden (widgets s' w))
     \<and> (w' = w \<and> visible \<longrightarrow> visibilityToParent s' (Widget w) \<noteq> Some False)
     \<and> (w' \<noteq> w \<longrightarrow> visibilityToParent s' (Widget w) = visibilityToParent s (Widget w))"
proof (cases "WA_WState_ExplicitShowHide (widgets s w') \<and> WA_WState_Hidden (widgets s w') = (\<not> visible)")
  case True
  then have "QWidget_setVisible (Suc n) s w' visible = Inr s"
    by (simp add: QWidget_setVisible_early)
  moreover have "w' = w \<and> \<not> visible \<longrightarrow>
          visibilityToParent s (Widget w) = Some False \<and> WA_WState_Hidden (widgets s w)"
    using True tracked_explicitly_hidden [OF t] by auto
  moreover have "w' = w \<and> visible \<longrightarrow> visibilityToParent s (Widget w) \<noteq> Some False"
    using True tracked_recorded_hidden [OF t] by auto
  ultimately show ?thesis using t by blast
next
  case False
  let ?sa = "s\<lparr>widgets := (widgets s)(w' :=
       \<lparr>WA_WState_ExplicitShowHide = True, WA_WState_Hidden = \<not> visible\<rparr>)\<rparr>"
  have marks: "QWidget_setVisible (Suc n) s w' visible =
      sendEvent (Suc n) ?sa w' (if visible then ShowToParent else HideToParent)"
    using False by (rule QWidget_setVisible_marks)
  have nfs: "\<not> ForcingVisibility s" using t by (rule tracked_not_forcing)
  have nf: "\<not> ForcingVisibility ?sa" using nfs by simp
  show ?thesis
  proof (cases "eventFilter_installed s (Widget w')")
    case False
    then have ne: "w' \<noteq> w" using tracked_installed [OF t] by auto
    have r: "QWidget_setVisible (Suc n) s w' visible = Inr ?sa"
      using marks False by (simp add: sendEvent_not_installed)
    have "tracked ?sa w"
      using t by (rule tracked_other) (simp_all add: nfs ne ne [THEN not_sym])
    with r ne show ?thesis by simp
  next
    case True
    then have inst: "eventFilter_installed ?sa (Widget w')" by simp
    show ?thesis
    proof (cases visible)
      case False
      let ?s' = "?sa\<lparr>visibilityToParent := (visibilityToParent ?sa)(Widget w' := Some False)\<rparr>"
      have r: "QWidget_setVisible (Suc n) s w' visible = Inr ?s'"
        using marks False sendEvent_HideToParent [OF inst nf] by simp
      show ?thesis
      proof (cases "w' = w")
        case True
        have "tracked ?s' w"
          using t by (rule tracked_fields) (simp_all add: nfs True False)
        moreover have "visibilityToParent ?s' (Widget w) = Some False"
            "WA_WState_Hidden (widgets ?s' w)"
          using True False by simp_all
        ultimately show ?thesis using r True False by simp
      next
        case ne: False
        have "tracked ?s' w"
          using t by (rule tracked_other) (simp_all add: nfs ne ne [THEN not_sym])
        moreover have "visibilityToParent ?s' (Widget w) = visibilityToParent s (Widget w)"
          using ne ne [THEN not_sym] by simp
        ultimately show ?thesis using r ne by simp
      qed
    next
      case vis: True
      show ?thesis
      proof (cases "WA_WState_Created s")
        case False
        let ?s' = "?sa\<lparr>visibilityToParent := (visibilityToParent ?sa)(Widget w' := Some True)\<rparr>"
        have r: "QWidget_setVisible (Suc n) s w' visible = Inr ?s'"
          using marks vis False sendEvent_ShowToParent [OF inst nf, of n] by simp
        show ?thesis
        proof (cases "w' = w")
          case True
          have "tracked ?s' w"
            using t by (rule tracked_fields) (simp_all add: nfs True vis False)
          moreover have "visibilityToParent ?s' (Widget w) \<noteq> Some False"
            using True by simp
          ultimately show ?thesis using r True vis by simp
        next
          case ne: False
          have "tracked ?s' w"
            using t by (rule tracked_other) (simp_all add: nfs ne ne [THEN not_sym])
          moreover have "visibilityToParent ?s' (Widget w) = visibilityToParent s (Widget w)"
            using ne ne [THEN not_sym] by simp
          ultimately show ?thesis using r ne by simp
        qed
      next
        case created: True
        let ?s' = "?sa\<lparr>visibilityToParent := (visibilityToParent ?sa)(Widget w' := Some True),
                 widgets := (widgets ?sa)(w' :=
                   \<lparr>WA_WState_ExplicitShowHide = False, WA_WState_Hidden = collapsed ?sa\<rparr>),
                 ForcingVisibility := False\<rparr>"
        have r: "QWidget_setVisible (Suc n) s w' visible = Inr ?s'"
          using marks vis created sendEvent_ShowToParent [OF inst nf, of n] by simp
        show ?thesis
        proof (cases "w' = w")
          case True
          have "tracked ?s' w"
            using t by (rule tracked_fields) (simp_all add: True collapsed_def)
          moreover have "visibilityToParent ?s' (Widget w) \<noteq> Some False"
            using True by simp
          ultimately show ?thesis using r True vis by simp
        next
          case ne: False
          have "tracked ?s' w"
            using t by (rule tracked_other) (simp_all add: ne ne [THEN not_sym])
          moreover have "visibilityToParent ?s' (Widget w) = visibilityToParent s (Widget w)"
            using ne ne [THEN not_sym] by simp
          ultimately show ?thesis using r ne by simp
        qed
      qed
    qed
  qed
qed

lemma trackedI:
  assumes "\<not> ForcingVisibility s'" and "toggled_to_expand s'"
    and "IsStateCreated s' \<longrightarrow> WA_WState_Created s'"
    and "Widget w \<in> set (children s')" and "eventFilter_installed s' (Widget w)"
    and "WA_WState_ExplicitShowHide (widgets s' w) \<and> WA_WState_Hidden (widgets s' w)
           \<longrightarrow> visibilityToParent s' (Widget w) = Some False"
    and "visibilityToParent s' (Widget w) = Some False \<longrightarrow> WA_WState_Hidden (widgets s' w)"
    and "IsStateCreated s' \<longrightarrow>
           WA_WState_Hidden (widgets s' w)
             = (\<not> isChecked s' \<or> visibilityToParent s' (Widget w) = Some False)"
  shows "tracked s' w"
  using assms unfolding tracked_def box_ok_def collapsed_def by metis

lemma tracked_toggled: "tracked s w \<Longrightarrow> toggled_to_expand s"
  by (simp add: tracked_def box_ok_def)

lemma child_forced_explicit:
  "WA_WState_ExplicitShowHide (child_forced s w) = (visibilityToParent s (Widget w) = Some False)"
  "WA_WState_Hidden (child_forced s w)
     = (\<not> isChecked s \<or> visibilityToParent s (Widget w) = Some False)"
  by (simp_all add: child_forced_def collapsed_def)

lemma tracked_after_expand:
  assumes t: "tracked s w"
    and e: "expand (Suc n) (s\<lparr>isChecked := b\<rparr>) x = Inr s'"
  shows "tracked s' w \<and> visibilityToParent s' (Widget w) = visibilityToParent s (Widget w)"
proof -
  let ?s1 = "s\<lparr>isChecked := b\<rparr>"
  have nf: "\<not> ForcingVisibility ?s1" using tracked_not_forcing [OF t] by simp
  from expand_Suc_not_forcing [OF nf, of n x] e
  have f: "\<not> ForcingVisibility s'"
      "widgets s' = (if WA_WState_Created ?s1 then forced_widgets ?s1 (children ?s1) else widgets ?s1)"
      "visibilityToParent s' = visibilityToParent ?s1" "isChecked s' = isChecked ?s1"
      "WA_WState_Created s' = WA_WState_Created ?s1" "IsStateCreated s' = IsStateCreated ?s1"
      "children s' = children ?s1" "toggled_to_expand s' = toggled_to_expand ?s1"
      "eventFilter_installed s' = eventFilter_installed ?s1"
    by auto
  have vtp: "visibilityToParent s' (Widget w) = visibilityToParent s (Widget w)"
    using f(3) by simp
  have ch: "Widget w \<in> set (children s)" using t by (rule tracked_child)
  have "tracked s' w"
  proof (cases "WA_WState_Created s")
    case True
    then have w: "widgets s' w = child_forced ?s1 w"
      using f(2) ch by (simp add: forced_widgets_apply)
    show ?thesis
    proof (rule trackedI)
      show "\<not> ForcingVisibility s'" by (rule f(1))
      show "toggled_to_expand s'" using f(8) tracked_toggled [OF t] by simp
      show "IsStateCreated s' \<longrightarrow> WA_WState_Created s'" using f(5) True by simp
      show "Widget w \<in> set (children s')" using f(7) ch by simp
      show "eventFilter_installed s' (Widget w)" using f(9) tracked_installed [OF t] by simp
      show "WA_WState_ExplicitShowHide (widgets s' w) \<and> WA_WState_Hidden (widgets s' w)
           \<longrightarrow> visibilityToParent s' (Widget w) = Some False"
        using w f(3) by (simp add: child_forced_explicit)
      show "visibilityToParent s' (Widget w) = Some False \<longrightarrow> WA_WState_Hidden (widgets s' w)"
        using w f(3) by (simp add: child_forced_explicit)
      show "IsStateCreated s' \<longrightarrow>
           WA_WState_Hidden (widgets s' w)
             = (\<not> isChecked s' \<or> visibilityToParent s' (Widget w) = Some False)"
        using w f(3,4) by (simp add: child_forced_explicit)
    qed
  next
    case False
    then have w: "widgets s' w = widgets s w" using f(2) by simp
    have nl: "\<not> IsStateCreated s" using False tracked_latch_created [OF t] by auto
    show ?thesis
    proof (rule trackedI)
      show "\<not> ForcingVisibility s'" by (rule f(1))
      show "toggled_to_expand s'" using f(8) tracked_toggled [OF t] by simp
      show "IsStateCreated s' \<longrightarrow> WA_WState_Created s'" using f(6) nl by simp
      show "Widget w \<in> set (children s')" using f(7) ch by simp
      show "eventFilter_installed s' (Widget w)" using f(9) tracked_installed [OF t] by simp
      show "WA_WState_ExplicitShowHide (widgets s' w) \<and> WA_WState_Hidden (widgets s' w)
           \<longrightarrow> visibilityToParent s' (Widget w) = Some False"
        using w vtp tracked_explicitly_hidden [OF t] by auto
      show "visibilityToParent s' (Widget w) = Some False \<longrightarrow> WA_WState_Hidden (widgets s' w)"
        using w vtp tracked_recorded_hidden [OF t] by auto
      show "IsStateCreated s' \<longrightarrow>
           WA_WState_Hidden (widgets s' w)
             = (\<not> isChecked s' \<or> visibilityToParent s' (Widget w) = Some False)"
        using f(6) nl by simp
    qed
  qed
  with vtp show ?thesis by simp
qed

lemma tracked_expand:
  assumes t: "tracked s w"
  shows "\<exists>s'. expand (Suc n) s x = Inr s' \<and> tracked s' w
     \<and> visibilityToParent s' (Widget w) = visibilityToParent s (Widget w)"
proof -
  obtain s' where e: "expand (Suc n) s x = Inr s'" using expand_Suc_Inr by blast
  have "s\<lparr>isChecked := isChecked s\<rparr> = s" by simp
  with e have "expand (Suc n) (s\<lparr>isChecked := isChecked s\<rparr>) x = Inr s'" by simp
  from tracked_after_expand [OF t this] e show ?thesis by blast
qed

lemma tracked_setChecked:
  assumes t: "tracked s w"
  shows "\<exists>s'. QGroupBox_setChecked (Suc n) s b = Inr s' \<and> tracked s' w
     \<and> visibilityToParent s' (Widget w) = visibilityToParent s (Widget w)"
proof (cases "isCheckable s \<and> b \<noteq> isChecked s")
  case True
  obtain s' where e: "expand (Suc n) (s\<lparr>isChecked := b\<rparr>) b = Inr s'"
    using expand_Suc_Inr by blast
  have "QGroupBox_setChecked (Suc n) s b = Inr s'"
    using True e tracked_toggled [OF t] by (simp add: QGroupBox_setChecked_def emit_toggled_def)
  with tracked_after_expand [OF t e] show ?thesis by blast
next
  case False
  then have "QGroupBox_setChecked (Suc n) s b = Inr s"
    by (auto simp add: QGroupBox_setChecked_def)
  with t show ?thesis by simp
qed

lemma tracked_setVisible:
  assumes t: "tracked s w"
    and r: "toolkit_respects s w (Box_setVisible sh toolkit)"
  shows "\<exists>s'. setVisible (Suc n) s sh toolkit = Inr s' \<and> tracked s' w
     \<and> visibilityToParent s' (Widget w) = visibilityToParent s (Widget w)"
proof -
  let ?C = "WA_WState_Created s \<or> Toolkit_create \<in> set toolkit"
  obtain W where W: "setVisible (Suc n) s sh toolkit =
          Inr (s\<lparr>WA_WState_Created := ?C,
                 widgets :=
                   (if \<not> IsStateCreated s \<and> ?C
                    then (\<lambda>w. if Widget w \<in> set (children s) then child_forced s w else W w)
                    else W),
                 ForcingVisibility := False,
                 IsStateCreated := (IsStateCreated s \<or> ?C)\<rparr>)"
      "\<forall>w. Toolkit_child_setVisible w False \<notin> set toolkit \<longrightarrow>
            W w = (if Toolkit_child_setVisible w True \<in> set toolkit
                   then \<lparr>WA_WState_ExplicitShowHide = True, WA_WState_Hidden = False\<rparr>
                   else widgets s w)"
    using setVisible_Suc_exact [of n s sh toolkit] by blast
  let ?s' = "s\<lparr>WA_WState_Created := ?C,
                 widgets :=
                   (if \<not> IsStateCreated s \<and> ?C
                    then (\<lambda>w. if Widget w \<in> set (children s) then child_forced s w else W w)
                    else W),
                 ForcingVisibility := False,
                 IsStateCreated := (IsStateCreated s \<or> ?C)\<rparr>"
  have nh: "Toolkit_child_setVisible w False \<notin> set toolkit"
    and sh: "Toolkit_child_setVisible w True \<in> set toolkit \<longrightarrow> \<not> WA_WState_Hidden (widgets s w)"
    using r by simp_all
  have Ww: "W w = (if Toolkit_child_setVisible w True \<in> set toolkit
                   then \<lparr>WA_WState_ExplicitShowHide = True, WA_WState_Hidden = False\<rparr>
                   else widgets s w)"
    using W(2) nh by simp
  have ch: "Widget w \<in> set (children s)" using t by (rule tracked_child)
  have lc: "IsStateCreated s \<longrightarrow> WA_WState_Created s" using tracked_latch_created [OF t] by simp
  have "tracked ?s' w"
  proof (cases "\<not> IsStateCreated s \<and> ?C")
    case True
    then have w: "widgets ?s' w = child_forced s w" using ch by simp
    show ?thesis
    proof (rule trackedI)
      show "\<not> ForcingVisibility ?s'" by simp
      show "toggled_to_expand ?s'" using tracked_toggled [OF t] by simp
      show "IsStateCreated ?s' \<longrightarrow> WA_WState_Created ?s'" using lc by auto
      show "Widget w \<in> set (children ?s')" using ch by simp
      show "eventFilter_installed ?s' (Widget w)" using tracked_installed [OF t] by simp
      show "WA_WState_ExplicitShowHide (widgets ?s' w) \<and> WA_WState_Hidden (widgets ?s' w)
           \<longrightarrow> visibilityToParent ?s' (Widget w) = Some False"
        by (simp only: w) (simp add: child_forced_explicit)
      show "visibilityToParent ?s' (Widget w) = Some False \<longrightarrow> WA_WState_Hidden (widgets ?s' w)"
        by (simp only: w) (simp add: child_forced_explicit)
      show "IsStateCreated ?s' \<longrightarrow>
           WA_WState_Hidden (widgets ?s' w)
             = (\<not> isChecked ?s' \<or> visibilityToParent ?s' (Widget w) = Some False)"
        by (simp only: w) (simp add: child_forced_explicit)
    qed
  next
    case False
    then have w: "widgets ?s' w = W w" by auto
    from False have latch: "IsStateCreated ?s' = IsStateCreated s" by auto
    show ?thesis
    proof (cases "Toolkit_child_setVisible w True \<in> set toolkit")
      case True
      then have nhid: "\<not> WA_WState_Hidden (widgets s w)" using sh by simp
      then have nrec: "visibilityToParent s (Widget w) \<noteq> Some False"
        using tracked_recorded_hidden [OF t] by auto
      have w': "widgets ?s' w = \<lparr>WA_WState_ExplicitShowHide = True, WA_WState_Hidden = False\<rparr>"
        using w Ww True by simp
      show ?thesis
      proof (rule trackedI)
        show "\<not> ForcingVisibility ?s'" by simp
        show "toggled_to_expand ?s'" using tracked_toggled [OF t] by simp
        show "IsStateCreated ?s' \<longrightarrow> WA_WState_Created ?s'" using lc by auto
        show "Widget w \<in> set (children ?s')" using ch by simp
        show "eventFilter_installed ?s' (Widget w)" using tracked_installed [OF t] by simp
        show "WA_WState_ExplicitShowHide (widgets ?s' w) \<and> WA_WState_Hidden (widgets ?s' w)
           \<longrightarrow> visibilityToParent ?s' (Widget w) = Some False"
          by (simp only: w') simp
        show "visibilityToParent ?s' (Widget w) = Some False \<longrightarrow> WA_WState_Hidden (widgets ?s' w)"
          using nrec by simp
        show "IsStateCreated ?s' \<longrightarrow>
           WA_WState_Hidden (widgets ?s' w)
             = (\<not> isChecked ?s' \<or> visibilityToParent ?s' (Widget w) = Some False)"
        proof
          assume "IsStateCreated ?s'"
          then have l: "IsStateCreated s" using latch by simp
          from tracked_managed [OF t l] nhid
          have "\<not> (\<not> isChecked s \<or> visibilityToParent s (Widget w) = Some False)"
            by (simp add: collapsed_def)
          then show "WA_WState_Hidden (widgets ?s' w)
             = (\<not> isChecked ?s' \<or> visibilityToParent ?s' (Widget w) = Some False)"
            by (simp only: w') simp
        qed
      qed
    next
      case nshow: False
      have w': "widgets ?s' w = widgets s w" using w Ww nshow by simp
      show ?thesis
      proof (rule trackedI)
        show "\<not> ForcingVisibility ?s'" by simp
        show "toggled_to_expand ?s'" using tracked_toggled [OF t] by simp
        show "IsStateCreated ?s' \<longrightarrow> WA_WState_Created ?s'" using lc by auto
        show "Widget w \<in> set (children ?s')" using ch by simp
        show "eventFilter_installed ?s' (Widget w)" using tracked_installed [OF t] by simp
        show "WA_WState_ExplicitShowHide (widgets ?s' w) \<and> WA_WState_Hidden (widgets ?s' w)
           \<longrightarrow> visibilityToParent ?s' (Widget w) = Some False"
          using tracked_explicitly_hidden [OF t] by (simp only: w') simp
        show "visibilityToParent ?s' (Widget w) = Some False \<longrightarrow> WA_WState_Hidden (widgets ?s' w)"
          using tracked_recorded_hidden [OF t] by (simp only: w') simp
        show "IsStateCreated ?s' \<longrightarrow>
           WA_WState_Hidden (widgets ?s' w)
             = (\<not> isChecked ?s' \<or> visibilityToParent ?s' (Widget w) = Some False)"
        proof
          assume "IsStateCreated ?s'"
          then have l: "IsStateCreated s" using latch by simp
          from tracked_managed [OF t l]
          show "WA_WState_Hidden (widgets ?s' w)
             = (\<not> isChecked ?s' \<or> visibilityToParent ?s' (Widget w) = Some False)"
            by (simp only: w') (simp add: collapsed_def)
        qed
      qed
    qed
  qed
  moreover have "visibilityToParent ?s' (Widget w) = visibilityToParent s (Widget w)" by simp
  ultimately show ?thesis using W(1) by simp
qed

lemma tracked_same:
  assumes t: "tracked s w"
    and "\<not> ForcingVisibility s'" and "toggled_to_expand s' = toggled_to_expand s"
    and "IsStateCreated s' = IsStateCreated s"
    and "WA_WState_Created s \<longrightarrow> WA_WState_Created s'"
    and "Widget w \<in> set (children s')" and "eventFilter_installed s' (Widget w)"
    and "isChecked s' = isChecked s"
    and "widgets s' w = widgets s w"
    and "visibilityToParent s' (Widget w) = visibilityToParent s (Widget w)"
  shows "tracked s' w"
  using assms unfolding tracked_def box_ok_def collapsed_def by metis

lemma tracked_forced:
  assumes t: "tracked s w"
    and "\<not> ForcingVisibility s'" and "toggled_to_expand s' = toggled_to_expand s"
    and "WA_WState_Created s'"
    and "Widget w \<in> set (children s')" and "eventFilter_installed s' (Widget w)"
    and "isChecked s' = isChecked s"
    and "widgets s' w = child_forced s w"
    and "visibilityToParent s' (Widget w) = visibilityToParent s (Widget w)"
  shows "tracked s' w"
proof (rule trackedI)
  show "\<not> ForcingVisibility s'" by fact
  show "toggled_to_expand s'" using assms(3) tracked_toggled [OF t] by simp
  show "IsStateCreated s' \<longrightarrow> WA_WState_Created s'" using assms(4) by simp
  show "Widget w \<in> set (children s')" by fact
  show "eventFilter_installed s' (Widget w)" by fact
  show "WA_WState_ExplicitShowHide (widgets s' w) \<and> WA_WState_Hidden (widgets s' w)
           \<longrightarrow> visibilityToParent s' (Widget w) = Some False"
    using assms(8,9) by (simp add: child_forced_explicit)
  show "visibilityToParent s' (Widget w) = Some False \<longrightarrow> WA_WState_Hidden (widgets s' w)"
    using assms(8,9) by (simp add: child_forced_explicit)
  show "IsStateCreated s' \<longrightarrow>
           WA_WState_Hidden (widgets s' w)
             = (\<not> isChecked s' \<or> visibilityToParent s' (Widget w) = Some False)"
    using assms(7,8,9) by (simp add: child_forced_explicit)
qed

lemma tracked_Child_added:
  assumes t: "tracked s w"
  shows "\<exists>s'. step (Suc n) s (Child_added child) = Inr s' \<and> tracked s' w
     \<and> visibilityToParent s' (Widget w) = visibilityToParent s (Widget w)"
proof (cases child)
  case (NonWidget k)
  let ?s0 = "s\<lparr>children := children s @ [child]\<rparr>"
  have "step (Suc n) s (Child_added child) = Inr ?s0"
    using NonWidget by (simp add: childEvent_def QGroupBox_childEvent_def)
  moreover have "tracked ?s0 w"
    using t
    by (rule tracked_same)
      (simp_all add: tracked_not_forcing [OF t] tracked_child [OF t] tracked_installed [OF t])
  ultimately show ?thesis by simp
next
  case (Widget w')
  let ?s0 = "s\<lparr>children := children s @ [child]\<rparr>"
  let ?s1 = "if WA_WState_ExplicitShowHide (widgets ?s0 w') \<and> WA_WState_Hidden (widgets ?s0 w')
             then setProperty_visibilityToParent ?s0 (Widget w') False else ?s0"
  let ?s2 = "installEventFilter ?s1 (Widget w')"
  have ce: "step (Suc n) s (Child_added child) = setChildVisibility (Suc n) ?s2 w'"
    using Widget childEvent_Suc_ChildAdded [of "\<lparr>type_ev = ChildAdded, child_ev = child\<rparr>" w' n ?s0]
    by simp
  have v2: "visibilityToParent ?s2 (Widget w) = visibilityToParent s (Widget w)"
    using tracked_explicitly_hidden [OF t]
    by (auto simp add: installEventFilter_def setProperty_visibilityToParent_def)
  have f2: "\<not> ForcingVisibility ?s2" "toggled_to_expand ?s2 = toggled_to_expand s"
      "IsStateCreated ?s2 = IsStateCreated s" "WA_WState_Created ?s2 = WA_WState_Created s"
      "Widget w \<in> set (children ?s2)" "eventFilter_installed ?s2 (Widget w)"
      "isChecked ?s2 = isChecked s" "widgets ?s2 = widgets s"
    using tracked_not_forcing [OF t] tracked_child [OF t] tracked_installed [OF t]
    by (simp_all add: installEventFilter_def setProperty_visibilityToParent_def)
  have cf: "child_forced ?s2 w = child_forced s w"
    using v2 f2(7) by (simp add: child_forced_def collapsed_def)
  show ?thesis
  proof (cases "WA_WState_Created s")
    case False
    then have "setChildVisibility (Suc n) ?s2 w' = Inr ?s2"
      using f2(4) by (simp add: setChildVisibility_Suc)
    moreover have "tracked ?s2 w"
      using t by (rule tracked_same) (simp_all only: f2 v2 simp_thms)
    ultimately show ?thesis using ce v2 by simp
  next
    case True
    let ?s' = "?s2\<lparr>widgets := (widgets ?s2)(w' := child_forced ?s2 w'),
                   ForcingVisibility := False\<rparr>"
    have r: "setChildVisibility (Suc n) ?s2 w' = Inr ?s'"
      using True f2(4) by (simp add: setChildVisibility_Suc)
    have f': "\<not> ForcingVisibility ?s'" "toggled_to_expand ?s' = toggled_to_expand s"
        "IsStateCreated ?s' = IsStateCreated s" "WA_WState_Created ?s'"
        "Widget w \<in> set (children ?s')" "eventFilter_installed ?s' (Widget w)"
        "isChecked ?s' = isChecked s"
        "visibilityToParent ?s' (Widget w) = visibilityToParent s (Widget w)"
      using f2 v2 True by simp_all
    have "tracked ?s' w"
    proof (cases "w' = w")
      case True
      have "widgets ?s' w = child_forced s w" using True cf by simp
      with t f' show ?thesis by (intro tracked_forced [OF t]) simp_all
    next
      case False
      have "widgets ?s' w = widgets s w" using False f2(8) by simp
      with t f' \<open>WA_WState_Created s\<close> show ?thesis by (intro tracked_same [OF t]) simp_all
    qed
    with ce r f'(8) show ?thesis by simp
  qed
qed

lemma tracked_Box_created:
  assumes t: "tracked s w"
  shows "tracked (s\<lparr>WA_WState_Created := True\<rparr>) w"
  using t
  by (rule tracked_same)
    (simp_all add: tracked_not_forcing [OF t] tracked_child [OF t] tracked_installed [OF t])

lemma box_okI:
  "\<not> ForcingVisibility s' \<Longrightarrow> toggled_to_expand s' \<Longrightarrow>
   (IsStateCreated s' \<longrightarrow> WA_WState_Created s') \<Longrightarrow> box_ok s'"
  by (simp add: box_ok_def)

lemma box_ok_not_forcing: "box_ok s \<Longrightarrow> \<not> ForcingVisibility s"
  by (simp add: box_ok_def)

lemma box_ok_toggled: "box_ok s \<Longrightarrow> toggled_to_expand s"
  by (simp add: box_ok_def)

lemma box_ok_latch_created: "box_ok s \<Longrightarrow> IsStateCreated s \<Longrightarrow> WA_WState_Created s"
  by (simp add: box_ok_def)

lemma tracked_box_ok: "tracked s w \<Longrightarrow> box_ok s"
  by (simp add: tracked_def)

lemma QWidget_setVisible_Suc_not_forcing:
  "\<not> ForcingVisibility s \<Longrightarrow>
   \<exists>s'. QWidget_setVisible (Suc n) s w visible = Inr s' \<and> \<not> ForcingVisibility s'
     \<and> toggled_to_expand s' = toggled_to_expand s
     \<and> IsStateCreated s' = IsStateCreated s \<and> WA_WState_Created s' = WA_WState_Created s"
  by (auto simp add: QWidget_setVisible.simps sendEvent.simps eventFilter.simps
      setChildVisibility_Suc toolkit_defs Let_def)

lemma childEvent_Suc_not_forcing:
  "\<not> ForcingVisibility s \<Longrightarrow>
   \<exists>s'. childEvent (Suc n) s c = Inr s' \<and> \<not> ForcingVisibility s'
     \<and> toggled_to_expand s' = toggled_to_expand s
     \<and> IsStateCreated s' = IsStateCreated s \<and> WA_WState_Created s' = WA_WState_Created s"
  by (cases "child_ev c")
    (auto simp add: childEvent_def Let_def setChildVisibility_Suc toolkit_defs
      QGroupBox_childEvent_def)

lemma QGroupBox_setChecked_Suc_not_forcing:
  assumes "\<not> ForcingVisibility s"
  shows "\<exists>s'. QGroupBox_setChecked (Suc n) s b = Inr s' \<and> \<not> ForcingVisibility s'
     \<and> toggled_to_expand s' = toggled_to_expand s
     \<and> IsStateCreated s' = IsStateCreated s \<and> WA_WState_Created s' = WA_WState_Created s"
proof (cases "isCheckable s \<and> b \<noteq> isChecked s \<and> toggled_to_expand s")
  case True
  have "\<not> ForcingVisibility (s\<lparr>isChecked := b\<rparr>)" using assms by simp
  from expand_Suc_not_forcing [OF this, of n b] True show ?thesis
    by (auto simp add: QGroupBox_setChecked_def emit_toggled_def)
next
  case False
  with assms show ?thesis by (auto simp add: QGroupBox_setChecked_def emit_toggled_def)
qed

lemma box_ok_step:
  assumes b: "box_ok s"
  shows "\<exists>s'. step (Suc n) s a = Inr s' \<and> box_ok s'"
proof (cases a)
  case (Child_setVisible w visible)
  from QWidget_setVisible_Suc_not_forcing [OF box_ok_not_forcing [OF b], of n w visible]
  obtain s' where s': "QWidget_setVisible (Suc n) s w visible = Inr s'" "\<not> ForcingVisibility s'"
      "toggled_to_expand s' = toggled_to_expand s" "IsStateCreated s' = IsStateCreated s"
      "WA_WState_Created s' = WA_WState_Created s"
    by blast
  have "box_ok s'"
    using s'(2-5) box_ok_toggled [OF b] box_ok_latch_created [OF b] by (intro box_okI) simp_all
  with s'(1) Child_setVisible show ?thesis by simp
next
  case (Box_setVisible sh toolkit)
  obtain W where W: "setVisible (Suc n) s sh toolkit =
          Inr (s\<lparr>WA_WState_Created := (WA_WState_Created s \<or> Toolkit_create \<in> set toolkit),
                 widgets :=
                   (if \<not> IsStateCreated s \<and> (WA_WState_Created s \<or> Toolkit_create \<in> set toolkit)
                    then (\<lambda>w. if Widget w \<in> set (children s) then child_forced s w else W w)
                    else W),
                 ForcingVisibility := False,
                 IsStateCreated :=
                   (IsStateCreated s \<or> WA_WState_Created s \<or> Toolkit_create \<in> set toolkit)\<rparr>)"
    using setVisible_Suc_exact [of n s sh toolkit] by blast
  have "box_ok (s\<lparr>WA_WState_Created := (WA_WState_Created s \<or> Toolkit_create \<in> set toolkit),
                 widgets :=
                   (if \<not> IsStateCreated s \<and> (WA_WState_Created s \<or> Toolkit_create \<in> set toolkit)
                    then (\<lambda>w. if Widget w \<in> set (children s) then child_forced s w else W w)
                    else W),
                 ForcingVisibility := False,
                 IsStateCreated :=
                   (IsStateCreated s \<or> WA_WState_Created s \<or> Toolkit_create \<in> set toolkit)\<rparr>)"
    using box_ok_toggled [OF b] box_ok_latch_created [OF b] by (intro box_okI) auto
  with W Box_setVisible show ?thesis by simp
next
  case (Box_setChecked x)
  from QGroupBox_setChecked_Suc_not_forcing [OF box_ok_not_forcing [OF b], of n x]
  obtain s' where s': "QGroupBox_setChecked (Suc n) s x = Inr s'" "\<not> ForcingVisibility s'"
      "toggled_to_expand s' = toggled_to_expand s" "IsStateCreated s' = IsStateCreated s"
      "WA_WState_Created s' = WA_WState_Created s"
    by blast
  have "box_ok s'"
    using s'(2-5) box_ok_toggled [OF b] box_ok_latch_created [OF b] by (intro box_okI) simp_all
  with s'(1) Box_setChecked show ?thesis by simp
next
  case (Box_expand x)
  from expand_Suc_not_forcing [OF box_ok_not_forcing [OF b], of n x]
  obtain s' where s': "expand (Suc n) s x = Inr s'" "\<not> ForcingVisibility s'"
      "toggled_to_expand s' = toggled_to_expand s" "IsStateCreated s' = IsStateCreated s"
      "WA_WState_Created s' = WA_WState_Created s"
    by blast
  have "box_ok s'"
    using s'(2-5) box_ok_toggled [OF b] box_ok_latch_created [OF b] by (intro box_okI) simp_all
  with s'(1) Box_expand show ?thesis by simp
next
  case (Child_added child)
  have "\<not> ForcingVisibility (s\<lparr>children := children s @ [child]\<rparr>)"
    using box_ok_not_forcing [OF b] by simp
  from childEvent_Suc_not_forcing [OF this, of n "\<lparr>type_ev = ChildAdded, child_ev = child\<rparr>"]
  obtain s' where s': "childEvent (Suc n) (s\<lparr>children := children s @ [child]\<rparr>)
                          \<lparr>type_ev = ChildAdded, child_ev = child\<rparr> = Inr s'"
      "\<not> ForcingVisibility s'"
      "toggled_to_expand s' = toggled_to_expand s" "IsStateCreated s' = IsStateCreated s"
      "WA_WState_Created s' = WA_WState_Created s"
    by auto
  have "box_ok s'"
    using s'(2-5) box_ok_toggled [OF b] box_ok_latch_created [OF b] by (intro box_okI) simp_all
  with s'(1) Child_added show ?thesis by simp
next
  case Box_created
  have "box_ok (s\<lparr>WA_WState_Created := True\<rparr>)"
    using box_ok_not_forcing [OF b] box_ok_toggled [OF b] by (intro box_okI) simp_all
  with Box_created show ?thesis by simp
qed

lemma box_ok_run:
  "box_ok s \<Longrightarrow> \<exists>s'. run (Suc n) s acts = Inr s' \<and> box_ok s'"
proof (induction acts arbitrary: s)
  case Nil
  then show ?case by simp
next
  case (Cons a acts)
  from box_ok_step [OF Cons.prems, of n a] obtain s1 where
    s1: "step (Suc n) s a = Inr s1" "box_ok s1" by blast
  from Cons.IH [OF s1(2)] s1(1) show ?case by simp
qed

lemma box_ok_new:
  "\<exists>s0. ctkCollapsibleGroupBox_new n (QGroupBox_new sz ws) = Inr s0 \<and> box_ok s0
     \<and> children s0 = [] \<and> visibilityToParent s0 = (\<lambda>obj. None)"
  by (simp add: ctkCollapsibleGroupBox_new_def init_def QGroupBox_setCheckable_def
      QGroupBox_setChecked_def ctkCollapsibleGroupBoxPrivate_new_def QGroupBox_new_def
      QGroupBox.defs ctkCollapsibleGroupBox.defs Let_def box_ok_def)

lemma tracked_new_child:
  assumes b: "box_ok s" and v: "visibilityToParent s (Widget w) = None"
  shows "\<exists>s'. step (Suc n) s (Child_added (Widget w)) = Inr s' \<and> tracked s' w
     \<and> (visibilityToParent s' (Widget w) = Some False)
         = (WA_WState_ExplicitShowHide (widgets s w) \<and> WA_WState_Hidden (widgets s w))"
proof -
  let ?E = "WA_WState_ExplicitShowHide (widgets s w) \<and> WA_WState_Hidden (widgets s w)"
  let ?s0 = "s\<lparr>children := children s @ [Widget w]\<rparr>"
  let ?s1 = "if WA_WState_ExplicitShowHide (widgets ?s0 w) \<and> WA_WState_Hidden (widgets ?s0 w)
             then setProperty_visibilityToParent ?s0 (Widget w) False else ?s0"
  let ?s2 = "installEventFilter ?s1 (Widget w)"
  have ce: "step (Suc n) s (Child_added (Widget w)) = setChildVisibility (Suc n) ?s2 w"
    using childEvent_Suc_ChildAdded [of "\<lparr>type_ev = ChildAdded, child_ev = Widget w\<rparr>" w n ?s0]
    by simp
  have v2: "(visibilityToParent ?s2 (Widget w) = Some False) = ?E"
    using v by (auto simp add: installEventFilter_def setProperty_visibilityToParent_def)
  have f2: "\<not> ForcingVisibility ?s2" "toggled_to_expand ?s2"
      "IsStateCreated ?s2 = IsStateCreated s" "WA_WState_Created ?s2 = WA_WState_Created s"
      "Widget w \<in> set (children ?s2)" "eventFilter_installed ?s2 (Widget w)"
      "isChecked ?s2 = isChecked s" "widgets ?s2 = widgets s"
    using box_ok_not_forcing [OF b] box_ok_toggled [OF b]
    by (simp_all add: installEventFilter_def setProperty_visibilityToParent_def)
  show ?thesis
  proof (cases "WA_WState_Created s")
    case False
    then have r: "setChildVisibility (Suc n) ?s2 w = Inr ?s2"
      using f2(4) by (simp add: setChildVisibility_Suc)
    have nl: "\<not> IsStateCreated s" using False box_ok_latch_created [OF b] by blast
    have "tracked ?s2 w"
    proof (rule trackedI)
      show "\<not> ForcingVisibility ?s2" by (rule f2(1))
      show "toggled_to_expand ?s2" by (rule f2(2))
      show "IsStateCreated ?s2 \<longrightarrow> WA_WState_Created ?s2" using nl f2(3) by simp
      show "Widget w \<in> set (children ?s2)" by (rule f2(5))
      show "eventFilter_installed ?s2 (Widget w)" by (rule f2(6))
      show "WA_WState_ExplicitShowHide (widgets ?s2 w) \<and> WA_WState_Hidden (widgets ?s2 w)
              \<longrightarrow> visibilityToParent ?s2 (Widget w) = Some False"
        unfolding f2(8) v2 by simp
      show "visibilityToParent ?s2 (Widget w) = Some False \<longrightarrow> WA_WState_Hidden (widgets ?s2 w)"
        unfolding f2(8) v2 by simp
      show "IsStateCreated ?s2 \<longrightarrow>
              WA_WState_Hidden (widgets ?s2 w)
                = (\<not> isChecked ?s2 \<or> visibilityToParent ?s2 (Widget w) = Some False)"
        using nl f2(3) by simp
    qed
    with ce r v2 show ?thesis by simp
  next
    case True
    let ?s' = "?s2\<lparr>widgets := (widgets ?s2)(w := child_forced ?s2 w),
                   ForcingVisibility := False\<rparr>"
    have r: "setChildVisibility (Suc n) ?s2 w = Inr ?s'"
      using True f2(4) by (simp add: setChildVisibility_Suc)
    have v': "visibilityToParent ?s' (Widget w) = visibilityToParent ?s2 (Widget w)" by simp
    have w': "widgets ?s' w = child_forced ?s2 w" by simp
    have c': "isChecked ?s' = isChecked ?s2" by simp
    have "tracked ?s' w"
    proof (rule trackedI)
      show "\<not> ForcingVisibility ?s'" by simp
      show "toggled_to_expand ?s'" using f2(2) by simp
      show "IsStateCreated ?s' \<longrightarrow> WA_WState_Created ?s'" using True f2(4) by simp
      show "Widget w \<in> set (children ?s')" using f2(5) by simp
      show "eventFilter_installed ?s' (Widget w)" using f2(6) by simp
      show "WA_WState_ExplicitShowHide (widgets ?s' w) \<and> WA_WState_Hidden (widgets ?s' w)
              \<longrightarrow> visibilityToParent ?s' (Widget w) = Some False"
        unfolding w' v' by (simp add: child_forced_explicit)
      show "visibilityToParent ?s' (Widget w) = Some False \<longrightarrow> WA_WState_Hidden (widgets ?s' w)"
        unfolding w' v' by (simp add: child_forced_explicit)
      show "IsStateCreated ?s' \<longrightarrow>
              WA_WState_Hidden (widgets ?s' w)
                = (\<not> isChecked ?s' \<or> visibilityToParent ?s' (Widget w) = Some False)"
        unfolding w' v' c' by (simp add: child_forced_explicit)
    qed
    moreover have "(visibilityToParent ?s' (Widget w) = Some False) = ?E"
      unfolding v' by (rule v2)
    ultimately show ?thesis using ce r by simp
  qed
qed

lemma run_append:
  "run n s (xs @ ys) = (case run n s xs of Inl err \<Rightarrow> Inl err | Inr s1 \<Rightarrow> run n s1 ys)"
  by (induction xs arbitrary: s) (simp_all split: sum.split)

lemma run_respects_append:
  "run n s pre = Inr s1 \<Longrightarrow>
   run_respects n w s (pre @ rest) = (run_respects n w s pre \<and> run_respects n w s1 rest)"
proof (induction pre arbitrary: s)
  case Nil
  then show ?case by simp
next
  case (Cons a pre)
  from Cons.prems obtain s' where s': "step n s a = Inr s'" "run n s' pre = Inr s1"
    by (auto split: sum.splits)
  from Cons.IH [OF s'(2)] s'(1) show ?case by simp
qed

lemma toolkit_respects_not_setVisible: "\<not> is_Box_setVisible a \<Longrightarrow> toolkit_respects s w a"
  by (cases a) simp_all

lemma run_respects_not_setVisible:
  "\<forall>a\<in>set acts. \<not> is_Box_setVisible a \<Longrightarrow> run_respects n w s acts"
  by (induction acts arbitrary: s) (simp_all add: toolkit_respects_not_setVisible split: sum.split)

lemma tracked_step:
  assumes t: "tracked s w" and r: "toolkit_respects s w a"
  shows "\<exists>s'. step (Suc n) s a = Inr s' \<and> tracked s' w
     \<and> (a = Child_setVisible w False \<longrightarrow>
          visibilityToParent s' (Widget w) = Some False \<and> WA_WState_Hidden (widgets s' w))
     \<and> (a = Child_setVisible w True \<longrightarrow> visibilityToParent s' (Widget w) \<noteq> Some False)
     \<and> (\<not> hides_child w a \<longrightarrow> visibilityToParent s (Widget w) \<noteq> Some False \<longrightarrow>
          visibilityToParent s' (Widget w) \<noteq> Some False)"
proof (cases a)
  case (Child_setVisible w' visible)
  from tracked_Child_setVisible [OF t, of n w' visible] obtain s' where
    s': "QWidget_setVisible (Suc n) s w' visible = Inr s'" "tracked s' w"
      "w' = w \<and> \<not> visible \<longrightarrow>
          visibilityToParent s' (Widget w) = Some False \<and> WA_WState_Hidden (widgets s' w)"
      "w' = w \<and> visible \<longrightarrow> visibilityToParent s' (Widget w) \<noteq> Some False"
      "w' \<noteq> w \<longrightarrow> visibilityToParent s' (Widget w) = visibilityToParent s (Widget w)"
    by blast
  have "step (Suc n) s a = Inr s'" using Child_setVisible s'(1) by simp
  moreover have "a = Child_setVisible w False \<longrightarrow>
          visibilityToParent s' (Widget w) = Some False \<and> WA_WState_Hidden (widgets s' w)"
    using Child_setVisible s'(3) by simp
  moreover have "a = Child_setVisible w True \<longrightarrow> visibilityToParent s' (Widget w) \<noteq> Some False"
    using Child_setVisible s'(4) by simp
  moreover have "\<not> hides_child w a \<longrightarrow> visibilityToParent s (Widget w) \<noteq> Some False \<longrightarrow>
          visibilityToParent s' (Widget w) \<noteq> Some False"
  proof (cases "w' = w")
    case True
    with Child_setVisible s'(4) show ?thesis by simp
  next
    case False
    with s'(5) show ?thesis by simp
  qed
  ultimately show ?thesis using s'(2) by blast
next
  case (Box_setVisible sh toolkit)
  from r Box_setVisible have "toolkit_respects s w (Box_setVisible sh toolkit)" by simp
  from tracked_setVisible [OF t this, of n] obtain s' where
    "setVisible (Suc n) s sh toolkit = Inr s'" "tracked s' w"
    "visibilityToParent s' (Widget w) = visibilityToParent s (Widget w)"
    by blast
  with Box_setVisible show ?thesis by simp
next
  case (Box_setChecked b)
  from tracked_setChecked [OF t, of n b] obtain s' where
    "QGroupBox_setChecked (Suc n) s b = Inr s'" "tracked s' w"
    "visibilityToParent s' (Widget w) = visibilityToParent s (Widget w)"
    by blast
  with Box_setChecked show ?thesis by simp
next
  case (Box_expand b)
  from tracked_expand [OF t, of n b] obtain s' where
    "expand (Suc n) s b = Inr s'" "tracked s' w"
    "visibilityToParent s' (Widget w) = visibilityToParent s (Widget w)"
    by blast
  with Box_expand show ?thesis by simp
next
  case (Child_added child)
  from tracked_Child_added [OF t, of n child] obtain s' where
    "step (Suc n) s (Child_added child) = Inr s'" "tracked s' w"
    "visibilityToParent s' (Widget w) = visibilityToParent s (Widget w)"
    by blast
  with Child_added show ?thesis by simp
next
  case Box_created
  have "visibilityToParent (s\<lparr>WA_WState_Created := True\<rparr>) (Widget w)
      = visibilityToParent s (Widget w)" by simp
  with Box_created tracked_Box_created [OF t] show ?thesis by simp
qed

lemma tracked_run:
  assumes "tracked s w" and "run_respects (Suc n) w s acts"
  shows "\<exists>s'. run (Suc n) s acts = Inr s' \<and> tracked s' w
     \<and> ((\<forall>a\<in>set acts. \<not> hides_child w a) \<longrightarrow> visibilityToParent s (Widget w) \<noteq> Some False \<longrightarrow>
          visibilityToParent s' (Widget w) \<noteq> Some False)"
  using assms
proof (induction acts arbitrary: s)
  case Nil
  then show ?case by simp
next
  case (Cons a acts)
  from Cons.prems(2) have r: "toolkit_respects s w a" by simp
  from tracked_step [OF Cons.prems(1) r, of n] obtain s1 where
    s1: "step (Suc n) s a = Inr s1" "tracked s1 w"
      "\<not> hides_child w a \<longrightarrow> visibilityToParent s (Widget w) \<noteq> Some False \<longrightarrow>
          visibilityToParent s1 (Widget w) \<noteq> Some False"
    by blast
  from Cons.prems(2) s1(1) have "run_respects (Suc n) w s1 acts" by simp
  from Cons.IH [OF s1(2) this] obtain s' where
    s': "run (Suc n) s1 acts = Inr s'" "tracked s' w"
      "(\<forall>a\<in>set acts. \<not> hides_child w a) \<longrightarrow> visibilityToParent s1 (Widget w) \<noteq> Some False \<longrightarrow>
          visibilityToParent s' (Widget w) \<noteq> Some False"
    by blast
  have "run (Suc n) s (a # acts) = Inr s'" using s1(1) s'(1) by simp
  moreover have "(\<forall>x\<in>set (a # acts). \<not> hides_child w x) \<longrightarrow>
      visibilityToParent s (Widget w) \<noteq> Some False \<longrightarrow>
      visibilityToParent s' (Widget w) \<noteq> Some False"
    using s1(3) s'(3) by simp
  ultimately show ?case using s'(2) by blast
qed

lemma hide_reaches_filter:
  assumes t: "tracked s w" and rr: "run_respects (Suc n) w s pre"
    and ns: "\<forall>a\<in>set post. \<not> shows_child w a"
  shows "\<exists>s'. run (Suc n) s (pre @ Child_setVisible w False # post) = Inr s'
     \<and> visibilityToParent s' (Widget w) = Some False \<and> WA_WState_Hidden (widgets s' w)"
proof -
  from tracked_run [OF t rr] obtain s1 where
    s1: "run (Suc n) s pre = Inr s1" "tracked s1 w" by blast
  have "toolkit_respects s1 w (Child_setVisible w False)" by simp
  from tracked_step [OF s1(2) this, of n] obtain s2 where
    s2: "step (Suc n) s1 (Child_setVisible w False) = Inr s2"
      "visibilityToParent s2 (Widget w) = Some False" "WA_WState_Hidden (widgets s2 w)"
    by blast
  from run_keeps_hidden [OF s2(2,3) ns, of n] obtain s' where
    s': "run (Suc n) s2 post = Inr s'"
      "visibilityToParent s' (Widget w) = Some False" "WA_WState_Hidden (widgets s' w)"
    by blast
  have "run (Suc n) s (pre @ Child_setVisible w False # post) = Inr s'"
    using s1(1) s2(1) s'(1) by (simp add: run_append)
  with s'(2,3) show ?thesis by simp
qed

lemma show_reaches_filter:
  assumes t: "tracked s w"
    and rr: "run_respects (Suc n) w s (pre @ Child_setVisible w True # post)"
    and nh: "\<forall>a\<in>set post. \<not> hides_child w a"
  shows "\<exists>s'. run (Suc n) s (pre @ Child_setVisible w True # post) = Inr s' \<and> tracked s' w
     \<and> visibilityToParent s' (Widget w) \<noteq> Some False
     \<and> (IsStateCreated s' \<longrightarrow> WA_WState_Hidden (widgets s' w) = collapsed s')"
proof -
  obtain s1 where s1: "run (Suc n) s pre = Inr s1" using run_Suc_Inr by blast
  from rr run_respects_append [OF s1] have
    r1: "run_respects (Suc n) w s pre"
    and r2: "run_respects (Suc n) w s1 (Child_setVisible w True # post)"
    by simp_all
  from tracked_run [OF t r1] s1 have t1: "tracked s1 w" by auto
  have "toolkit_respects s1 w (Child_setVisible w True)" by simp
  from tracked_step [OF t1 this, of n] obtain s2 where
    s2: "step (Suc n) s1 (Child_setVisible w True) = Inr s2" "tracked s2 w"
      "visibilityToParent s2 (Widget w) \<noteq> Some False"
    by blast
  from r2 s2(1) have r3: "run_respects (Suc n) w s2 post" by simp
  from tracked_run [OF s2(2) r3] nh s2(3) obtain s' where
    s': "run (Suc n) s2 post = Inr s'" "tracked s' w"
      "visibilityToParent s' (Widget w) \<noteq> Some False"
    by blast
  have "run (Suc n) s (pre @ Child_setVisible w True # post) = Inr s'"
    using s1 s2(1) s'(1) by (simp add: run_append)
  moreover have "IsStateCreated s' \<longrightarrow> WA_WState_Hidden (widgets s' w) = collapsed s'"
    using tracked_managed [OF s'(2)] s'(3) by simp
  ultimately show ?thesis using s'(2,3) by blast
qed


section \<open>The claims\<close>

text \<open>
  C8. For every boolean \<open>show\<close>, the inline slot \<open>showPopup(bool show)\<close> runs \<open>showPopup()\<close>
  exactly when \<open>show\<close> is true and \<open>hidePopup()\<close> exactly when it is false, and nothing
  else: its result is the result of that one slot, and on a log of calls it appends that
  one call.
\<close>

theorem showPopup_bool_dispatch:
  "showPopup_bool showPopup hidePopup True p = showPopup p
   \<and> showPopup_bool showPopup hidePopup False p = hidePopup p
   \<and> showPopup_bool log_showPopup log_hidePopup show calls
       = calls @ [if show then Call_showPopup else Call_hidePopup]"
  by (simp add: showPopup_bool_def log_showPopup_def log_hidePopup_def)

text \<open>
  C1. While \<open>ForcingVisibility\<close> is set, \<open>eventFilter\<close> returns \<open>false\<close> at once and leaves
  the state as it is: no property is recorded and no visibility is forced. Hence
  \<open>setChildVisibility\<close> completes with a nesting budget of one activation, whatever the
  state and the child: its call of \<open>setVisible\<close> never enters \<open>setChildVisibility\<close> again
  through the event filter, and no property is recorded during it; a larger budget changes
  nothing. \<open>setVisible\<close> of the box completes with the same budget and records no property,
  whatever the toolkit does to the children meanwhile. Every sequence of calls from
  outside completes with that budget.
\<close>

theorem eventFilter_forcing_no_reentry:
  "(ForcingVisibility s \<longrightarrow> eventFilter n s child e = Inr (False, s))
   \<and> (\<exists>s'. setChildVisibility (Suc 0) s w = Inr s'
          \<and> visibilityToParent s' = visibilityToParent s)
   \<and> setChildVisibility (Suc n) s w = setChildVisibility (Suc 0) s w
   \<and> (\<exists>s'. setVisible (Suc 0) s sh toolkit = Inr s'
          \<and> visibilityToParent s' = visibilityToParent s)
   \<and> (\<exists>s'. run (Suc 0) s acts = Inr s')"
proof -
  obtain W f where "setVisible (Suc 0) s sh toolkit =
     Inr (s\<lparr>WA_WState_Created := (WA_WState_Created s \<or> Toolkit_create \<in> set toolkit),
            widgets := W, ForcingVisibility := f,
            IsStateCreated := (IsStateCreated s \<or> WA_WState_Created s \<or> Toolkit_create \<in> set toolkit)\<rparr>)"
    using setVisible_Suc [of 0 s sh toolkit] by blast
  then have "\<exists>s'. setVisible (Suc 0) s sh toolkit = Inr s'
          \<and> visibilityToParent s' = visibilityToParent s"
    by simp
  then show ?thesis
    by (simp add: eventFilter_forcing setChildVisibility_Suc run_Suc_Inr)
qed

theorem eventFilter_forcing_no_reentry_witness:
  "ForcingVisibility (box_shown\<lparr>ForcingVisibility := True\<rparr>)
   \<and> eventFilter 0 (box_shown\<lparr>ForcingVisibility := True\<rparr>) (Widget 0) ShowToParent
       = Inr (False, box_shown\<lparr>ForcingVisibility := True\<rparr>)
   \<and> (\<exists>s'. setChildVisibility (Suc 0) box_shown 0 = Inr s')
   \<and> (\<exists>s'. run (Suc 0) box_shown
         [Child_setVisible 0 False, Box_setChecked False, Child_setVisible 0 True,
          Box_setVisible True [Toolkit_child_setVisible 1 True], Box_setChecked True] = Inr s')"
proof -
  let ?forcing = "box_shown\<lparr>ForcingVisibility := True\<rparr>"
  let ?acts = "[Child_setVisible 0 False, Box_setChecked False, Child_setVisible 0 True,
          Box_setVisible True [Toolkit_child_setVisible 1 True], Box_setChecked True]"
  have f: "ForcingVisibility ?forcing" by simp
  note filter = eventFilter_forcing_no_reentry
    [where s = ?forcing and n = 0 and child = "Widget 0" and e = ShowToParent,
      THEN conjunct1, rule_format, OF f]
  note calls = eventFilter_forcing_no_reentry
    [where s = box_shown and n = 0 and w = 0 and acts = ?acts, THEN conjunct2]
  from calls have a: "\<exists>s'. setChildVisibility (Suc 0) box_shown 0 = Inr s'"
    by blast
  from calls have b: "\<exists>s'. run (Suc 0) box_shown ?acts = Inr s'"
    by blast
  from f filter a b show ?thesis by (intro conjI) (simp_all del: run.simps)
qed

text \<open>
  C5. Collapsing and then expanding is a round trip of the geometry. \<open>expand(false)\<close>
  records the size in \<open>OldSize\<close> and the maximum height in \<open>MaxHeight\<close> and sets the maximum
  height to 22; the following \<open>expand(true)\<close> sets the maximum height back to the recorded
  one and asks for the recorded size. After the pair the maximum height is the one before
  the collapse, the size asked for is the size before the collapse, and the box has that
  size again when the size before the collapse was within the maximum height.
\<close>

theorem expand_collapse_round_trip:
  "\<exists>s1 s2. expand (Suc n) s False = Inr s1 \<and> expand (Suc m) s1 True = Inr s2
     \<and> OldSize s1 = size_q s \<and> MaxHeight s1 = maximumHeight s \<and> maximumHeight s1 = 22
     \<and> maximumHeight s2 = maximumHeight s \<and> OldSize s2 = size_q s
     \<and> (snd (size_q s) \<le> maximumHeight s \<longrightarrow> size_q s2 = size_q s)"
proof -
  obtain s1 where s1: "expand (Suc n) s False = Inr s1" "OldSize s1 = size_q s"
      "MaxHeight s1 = maximumHeight s" "maximumHeight s1 = 22"
    using expand_Suc_geometry [of n s] by blast
  obtain s2 where s2: "expand (Suc m) s1 True = Inr s2" "OldSize s2 = OldSize s1"
      "maximumHeight s2 = MaxHeight s1"
      "size_q s2 = (fst (OldSize s1), min (snd (OldSize s1)) (MaxHeight s1))"
    using expand_Suc_restore [of m s1] by blast
  have "snd (size_q s) \<le> maximumHeight s \<longrightarrow> size_q s2 = size_q s"
    using s1 s2 by (simp add: min_def)
  with s1 s2 show ?thesis by simp
qed

theorem expand_collapse_round_trip_witness:
  "snd (size_q box_shown) \<le> maximumHeight box_shown
   \<and> (\<exists>s1 s2. expand (Suc 0) box_shown False = Inr s1 \<and> expand (Suc 0) s1 True = Inr s2
         \<and> maximumHeight s1 = 22 \<and> maximumHeight s2 = 16777215 \<and> size_q s2 = (200, 100))"
proof -
  have v: "size_q box_shown = (200, 100)" "maximumHeight box_shown = 16777215"
    by (simp_all add: box_shown_def box_new_def)
  then have h: "snd (size_q box_shown) \<le> maximumHeight box_shown" by simp
  from expand_collapse_round_trip [of 0 box_shown 0] h v show ?thesis
    by auto
qed

text \<open>
  C4, amended. For a widget child added to the box (\<open>ChildAdded\<close>), \<open>childEvent\<close>
  records \<open>visibilityToParent = false\<close> when the child had been hidden explicitly before
  (both \<open>WA_WState_ExplicitShowHide\<close> and \<open>WA_WState_Hidden\<close> set), installs the box as
  event filter on the child and calls \<open>setChildVisibility\<close> on it. A child added while the
  box is created and collapsed is hidden; while the window of the box is not created yet,
  no widget's attributes change. The counterexample is a collapsed box whose window is not
  created: the child added to it is not hidden.
\<close>

theorem childEvent_ChildAdded:
  assumes "type_ev c = ChildAdded" and "child_ev c = Widget w"
  shows "\<exists>s'. childEvent (Suc n) s c = Inr s'
     \<and> childEvent (Suc n) s c =
         setChildVisibility (Suc n)
           (installEventFilter
              (if WA_WState_ExplicitShowHide (widgets s w) \<and> WA_WState_Hidden (widgets s w)
               then setProperty_visibilityToParent s (Widget w) False else s)
              (Widget w)) w
     \<and> eventFilter_installed s' (Widget w)
     \<and> visibilityToParent s' (Widget w) =
         (if WA_WState_ExplicitShowHide (widgets s w) \<and> WA_WState_Hidden (widgets s w)
          then Some False else visibilityToParent s (Widget w))
     \<and> (WA_WState_Created s \<and> collapsed s \<longrightarrow> WA_WState_Hidden (widgets s' w))
     \<and> (\<not> WA_WState_Created s \<longrightarrow> widgets s' = widgets s)"
  using assms
  by (auto simp add: childEvent_Suc_ChildAdded setChildVisibility_Suc installEventFilter_def
      setProperty_visibilityToParent_def child_forced_def collapsed_def)

theorem childEvent_ChildAdded_witness:
  "type_ev \<lparr>type_ev = ChildAdded, child_ev = Widget 2\<rparr> = ChildAdded
   \<and> child_ev \<lparr>type_ev = ChildAdded, child_ev = Widget 2\<rparr> = Widget 2
   \<and> WA_WState_Created (box_shown\<lparr>isChecked := False\<rparr>)
   \<and> collapsed (box_shown\<lparr>isChecked := False\<rparr>)
   \<and> \<not> WA_WState_Created box_new
   \<and> (\<exists>s'. childEvent (Suc 0) (box_shown\<lparr>isChecked := False\<rparr>)
               \<lparr>type_ev = ChildAdded, child_ev = Widget 2\<rparr> = Inr s'
         \<and> eventFilter_installed s' (Widget 2) \<and> WA_WState_Hidden (widgets s' 2))
   \<and> (\<exists>s'. childEvent (Suc 0) box_new \<lparr>type_ev = ChildAdded, child_ev = Widget 2\<rparr> = Inr s'
         \<and> eventFilter_installed s' (Widget 2) \<and> widgets s' = widgets box_new)"
proof -
  have h: "type_ev \<lparr>type_ev = ChildAdded, child_ev = Widget 2\<rparr> = ChildAdded"
      "child_ev \<lparr>type_ev = ChildAdded, child_ev = Widget 2\<rparr> = Widget 2"
    by simp_all
  have c: "WA_WState_Created (box_shown\<lparr>isChecked := False\<rparr>)"
      "collapsed (box_shown\<lparr>isChecked := False\<rparr>)" "\<not> WA_WState_Created box_new"
    by (simp_all add: box_shown_def box_new_def collapsed_def)
  from childEvent_ChildAdded [OF h, of 0 "box_shown\<lparr>isChecked := False\<rparr>"]
       childEvent_ChildAdded [OF h, of 0 box_new] h c
  show ?thesis by auto
qed

theorem childEvent_collapsed_not_created_counterexample:
  "collapsed (box_new\<lparr>isChecked := False\<rparr>)
   \<and> \<not> isl (childEvent (Suc 0) (box_new\<lparr>isChecked := False\<rparr>)
               \<lparr>type_ev = ChildAdded, child_ev = Widget 2\<rparr>)
   \<and> \<not> WA_WState_Hidden
         (widgets (projr (childEvent (Suc 0) (box_new\<lparr>isChecked := False\<rparr>)
                           \<lparr>type_ev = ChildAdded, child_ev = Widget 2\<rparr>)) 2)"
  by (simp add: childEvent_def Let_def setChildVisibility.simps box_new_def collapsed_def
      shown_widget_def installEventFilter_def QGroupBox_childEvent_def)

text \<open>
  C3, amended. The constructor makes the box checkable and connects \<open>toggled(bool)\<close> to
  \<open>expand(bool)\<close>; a change of the check state to \<open>b\<close> runs \<open>expand(b)\<close> on a box that is
  collapsed exactly when \<open>b\<close> is false. \<open>expand\<close> goes through the direct widget children
  and no other widget. Once the window of the box is created, every direct widget child
  is hidden after \<open>expand\<close> when the box is collapsed, and when the box is expanded it is
  shown unless its \<open>visibilityToParent\<close> property is valid and false; so unchecking a
  created box hides every direct widget child, and checking it shows each of them unless
  its property is valid and false. While the window is not created, \<open>expand\<close> changes no
  widget's attributes. The counterexample is a collapsed box whose window is not created:
  after \<open>expand(false)\<close> its first child is not hidden.
\<close>

theorem expand_children_visibility:
  "(\<exists>s0. ctkCollapsibleGroupBox_new n (QGroupBox_new sz ws) = Inr s0
        \<and> isCheckable s0 \<and> toggled_to_expand s0)
   \<and> (isCheckable s \<and> toggled_to_expand s \<and> isChecked s \<noteq> b \<longrightarrow>
        QGroupBox_setChecked (Suc n) s b = expand (Suc n) (s\<lparr>isChecked := b\<rparr>) b
        \<and> collapsed (s\<lparr>isChecked := b\<rparr>) = (\<not> b))
   \<and> (\<exists>s'. expand (Suc n) s b = Inr s'
        \<and> (WA_WState_Created s \<longrightarrow>
             (\<forall>w. Widget w \<in> set (children s) \<longrightarrow>
                WA_WState_Hidden (widgets s' w)
                  = (collapsed s \<or> visibilityToParent s (Widget w) = Some False)))
        \<and> (\<forall>w. Widget w \<notin> set (children s) \<longrightarrow> widgets s' w = widgets s w)
        \<and> (\<not> WA_WState_Created s \<longrightarrow> widgets s' = widgets s))
   \<and> (WA_WState_Created s \<and> isCheckable s \<and> toggled_to_expand s \<and> isChecked s \<noteq> b \<longrightarrow>
        (\<exists>s'. QGroupBox_setChecked (Suc n) s b = Inr s'
           \<and> (\<forall>w. Widget w \<in> set (children s) \<longrightarrow>
                  WA_WState_Hidden (widgets s' w)
                    = (\<not> b \<or> visibilityToParent s (Widget w) = Some False))))"
proof -
  have ctor: "\<exists>s0. ctkCollapsibleGroupBox_new n (QGroupBox_new sz ws) = Inr s0
        \<and> isCheckable s0 \<and> toggled_to_expand s0"
    using ctkCollapsibleGroupBox_new_QGroupBox_new [of n sz ws] by blast
  have toggle: "isCheckable s \<and> toggled_to_expand s \<and> isChecked s \<noteq> b \<longrightarrow>
        QGroupBox_setChecked (Suc n) s b = expand (Suc n) (s\<lparr>isChecked := b\<rparr>) b
        \<and> collapsed (s\<lparr>isChecked := b\<rparr>) = (\<not> b)"
    by (simp add: QGroupBox_setChecked_toggles collapsed_def)
  obtain s' where s': "expand (Suc n) s b = Inr s'"
      "widgets s' = (if WA_WState_Created s then forced_widgets s (children s) else widgets s)"
    using expand_Suc_frame [of n s b] by blast
  have "WA_WState_Created s \<longrightarrow>
         (\<forall>w. Widget w \<in> set (children s) \<longrightarrow>
            WA_WState_Hidden (widgets s' w)
              = (collapsed s \<or> visibilityToParent s (Widget w) = Some False))"
    using s'(2) by (simp add: forced_widgets_Hidden)
  moreover have "\<forall>w. Widget w \<notin> set (children s) \<longrightarrow> widgets s' w = widgets s w"
    using s'(2) by (simp add: forced_widgets_other)
  moreover have "\<not> WA_WState_Created s \<longrightarrow> widgets s' = widgets s"
    using s'(2) by simp
  ultimately have ex: "\<exists>s'. expand (Suc n) s b = Inr s'
        \<and> (WA_WState_Created s \<longrightarrow>
             (\<forall>w. Widget w \<in> set (children s) \<longrightarrow>
                WA_WState_Hidden (widgets s' w)
                  = (collapsed s \<or> visibilityToParent s (Widget w) = Some False)))
        \<and> (\<forall>w. Widget w \<notin> set (children s) \<longrightarrow> widgets s' w = widgets s w)
        \<and> (\<not> WA_WState_Created s \<longrightarrow> widgets s' = widgets s)"
    using s'(1) by blast
  have driven: "WA_WState_Created s \<and> isCheckable s \<and> toggled_to_expand s \<and> isChecked s \<noteq> b \<longrightarrow>
        (\<exists>s'. QGroupBox_setChecked (Suc n) s b = Inr s'
           \<and> (\<forall>w. Widget w \<in> set (children s) \<longrightarrow>
                  WA_WState_Hidden (widgets s' w)
                    = (\<not> b \<or> visibilityToParent s (Widget w) = Some False)))"
  proof
    assume a: "WA_WState_Created s \<and> isCheckable s \<and> toggled_to_expand s \<and> isChecked s \<noteq> b"
    let ?s1 = "s\<lparr>isChecked := b\<rparr>"
    obtain s'' where s'': "expand (Suc n) ?s1 b = Inr s''"
        "widgets s'' = (if WA_WState_Created ?s1 then forced_widgets ?s1 (children ?s1)
                        else widgets ?s1)"
      using expand_Suc_frame [of n ?s1 b] by blast
    have "QGroupBox_setChecked (Suc n) s b = Inr s''"
      using a s''(1) by (simp add: QGroupBox_setChecked_toggles)
    moreover have "\<forall>w. Widget w \<in> set (children s) \<longrightarrow>
                  WA_WState_Hidden (widgets s'' w)
                    = (\<not> b \<or> visibilityToParent s (Widget w) = Some False)"
      using a s''(2) by (simp add: forced_widgets_Hidden collapsed_def)
    ultimately show "\<exists>s'. QGroupBox_setChecked (Suc n) s b = Inr s'
           \<and> (\<forall>w. Widget w \<in> set (children s) \<longrightarrow>
                  WA_WState_Hidden (widgets s' w)
                    = (\<not> b \<or> visibilityToParent s (Widget w) = Some False))"
      by blast
  qed
  from ctor toggle ex driven show ?thesis by blast
qed

theorem expand_children_visibility_witness:
  "WA_WState_Created box_child_hidden \<and> isCheckable box_child_hidden
   \<and> toggled_to_expand box_child_hidden \<and> isChecked box_child_hidden \<noteq> False
   \<and> Widget 0 \<in> set (children box_child_hidden) \<and> Widget 1 \<in> set (children box_child_hidden)
   \<and> Widget 5 \<notin> set (children box_child_hidden)
   \<and> \<not> WA_WState_Created box_new
   \<and> (\<exists>s'. QGroupBox_setChecked (Suc 0) box_child_hidden False = Inr s'
         \<and> WA_WState_Hidden (widgets s' 0) \<and> WA_WState_Hidden (widgets s' 1))
   \<and> (\<exists>s'. expand (Suc 0) box_child_hidden True = Inr s'
         \<and> WA_WState_Hidden (widgets s' 0) \<and> \<not> WA_WState_Hidden (widgets s' 1)
         \<and> widgets s' 5 = widgets box_child_hidden 5)
   \<and> (\<exists>s'. expand (Suc 0) box_new False = Inr s' \<and> widgets s' = widgets box_new)"
proof -
  have h: "WA_WState_Created box_child_hidden \<and> isCheckable box_child_hidden
      \<and> toggled_to_expand box_child_hidden \<and> isChecked box_child_hidden \<noteq> False"
    by (simp add: box_child_hidden_def box_shown_def box_new_def)
  have c: "Widget 0 \<in> set (children box_child_hidden)" "Widget 1 \<in> set (children box_child_hidden)"
      "Widget 5 \<notin> set (children box_child_hidden)"
    by (simp_all add: box_child_hidden_def box_shown_def box_new_def)
  have n: "\<not> WA_WState_Created box_new"
    by (simp add: box_new_def)
  have v: "\<not> collapsed box_child_hidden"
      "visibilityToParent box_child_hidden (Widget 0) = Some False"
      "visibilityToParent box_child_hidden (Widget 1) \<noteq> Some False"
    by (simp_all add: box_child_hidden_def box_shown_def box_new_def collapsed_def)
  note driven = expand_children_visibility
    [where s = box_child_hidden and b = False and n = 0,
      THEN conjunct2, THEN conjunct2, THEN conjunct2, rule_format, OF h]
  then obtain s1 where s1: "QGroupBox_setChecked (Suc 0) box_child_hidden False = Inr s1"
      "\<forall>w. Widget w \<in> set (children box_child_hidden) \<longrightarrow>
          WA_WState_Hidden (widgets s1 w)
            = (\<not> False \<or> visibilityToParent box_child_hidden (Widget w) = Some False)"
    by (elim exE conjE)
  from s1(2) c have "WA_WState_Hidden (widgets s1 0)" "WA_WState_Hidden (widgets s1 1)"
    by simp_all
  with s1(1) have a: "\<exists>s'. QGroupBox_setChecked (Suc 0) box_child_hidden False = Inr s'
         \<and> WA_WState_Hidden (widgets s' 0) \<and> WA_WState_Hidden (widgets s' 1)"
    by simp
  note ex = expand_children_visibility
    [where s = box_child_hidden and b = True and n = 0,
      THEN conjunct2, THEN conjunct2, THEN conjunct1]
  then obtain s2 where s2: "expand (Suc 0) box_child_hidden True = Inr s2"
      "WA_WState_Created box_child_hidden \<longrightarrow>
         (\<forall>w. Widget w \<in> set (children box_child_hidden) \<longrightarrow>
            WA_WState_Hidden (widgets s2 w)
              = (collapsed box_child_hidden
                 \<or> visibilityToParent box_child_hidden (Widget w) = Some False))"
      "\<forall>w. Widget w \<notin> set (children box_child_hidden) \<longrightarrow>
         widgets s2 w = widgets box_child_hidden w"
    by (elim exE conjE)
  from s2(2,3) h c v have "WA_WState_Hidden (widgets s2 0)" "\<not> WA_WState_Hidden (widgets s2 1)"
      "widgets s2 5 = widgets box_child_hidden 5"
    by simp_all
  with s2(1) have b: "\<exists>s'. expand (Suc 0) box_child_hidden True = Inr s'
         \<and> WA_WState_Hidden (widgets s' 0) \<and> \<not> WA_WState_Hidden (widgets s' 1)
         \<and> widgets s' 5 = widgets box_child_hidden 5"
    by simp
  note ex_new = expand_children_visibility
    [where s = box_new and b = False and n = 0,
      THEN conjunct2, THEN conjunct2, THEN conjunct1]
  then obtain s3 where s3: "expand (Suc 0) box_new False = Inr s3"
      "\<not> WA_WState_Created box_new \<longrightarrow> widgets s3 = widgets box_new"
    by (elim exE conjE)
  with n have d: "\<exists>s'. expand (Suc 0) box_new False = Inr s' \<and> widgets s' = widgets box_new"
    by simp
  from h c n a b d show ?thesis by (intro conjI) simp_all
qed

theorem expand_false_not_created_counterexample:
  "Widget 0 \<in> set (children (box_new\<lparr>isChecked := False\<rparr>))
   \<and> collapsed (box_new\<lparr>isChecked := False\<rparr>)
   \<and> \<not> isl (expand (Suc 0) (box_new\<lparr>isChecked := False\<rparr>) False)
   \<and> \<not> WA_WState_Hidden
         (widgets (projr (expand (Suc 0) (box_new\<lparr>isChecked := False\<rparr>) False)) 0)"
  by (simp add: expand_def Let_def setChildVisibility.simps box_new_def collapsed_def
      shown_widget_def QWidget_setMaximumHeight_def)



text \<open>
  C2. A child whose \<open>visibilityToParent\<close> property is valid and false and which is hidden
  stays so: \<open>setChildVisibility\<close> leaves it hidden with its property false, so does
  \<open>expand(true)\<close>, and so does every sequence of calls from outside in which nobody shows
  the child (checking and unchecking, expanding, showing and hiding the box, hiding the
  child again, adding children, creating the window). The record ends when the child is
  shown explicitly: a \<open>setVisible(true)\<close> on the child, seen by the event filter, sets the
  property to true, and the child is then hidden only while the created box is collapsed.
  A \<open>HideToParent\<close> event that reaches the filter while the box is not forcing sets the
  property to false.

  That the application's hide and show do reach the filter follows from the state the box
  leaves between two calls. The constructor leaves \<open>box_ok\<close>, and every sequence of calls
  keeps it; in particular every call leaves \<open>ForcingVisibility\<close> cleared. Adding a child
  whose property is not set to such a box leaves the child \<open>tracked\<close>, with the property
  false exactly when the child had been hidden explicitly. Every sequence of calls in
  which the toolkit keeps to \<open>toolkit_respects\<close> for the child keeps it \<open>tracked\<close>. From a
  tracked state, after any such sequence, then a \<open>setVisible(false)\<close> on the child, then
  any calls in which nobody shows the child, the property is false and the child is
  hidden: a hide is recorded also while the box is collapsed, and the child stays hidden
  when the box is expanded. After any such sequence with a \<open>setVisible(true)\<close> on the
  child and no hide of the child after it, the property is not false, and once the
  deferred loop of \<open>setVisible\<close> has run the child is hidden exactly when the box is
  collapsed.
\<close>

theorem explicitly_hidden_child_stays_hidden:
  "(visibilityToParent s (Widget w) = Some False \<and> WA_WState_Hidden (widgets s w) \<longrightarrow>
      (\<exists>s'. setChildVisibility (Suc n) s w = Inr s'
            \<and> visibilityToParent s' (Widget w) = Some False \<and> WA_WState_Hidden (widgets s' w))
      \<and> (\<exists>s'. expand (Suc n) s True = Inr s'
            \<and> visibilityToParent s' (Widget w) = Some False \<and> WA_WState_Hidden (widgets s' w))
      \<and> ((\<forall>a\<in>set acts. \<not> shows_child w a) \<longrightarrow>
           (\<exists>s'. run (Suc n) s acts = Inr s'
             \<and> visibilityToParent s' (Widget w) = Some False \<and> WA_WState_Hidden (widgets s' w)))
      \<and> (\<not> ForcingVisibility s \<and> eventFilter_installed s (Widget w) \<longrightarrow>
           (\<exists>s'. QWidget_setVisible (Suc n) s w True = Inr s'
             \<and> visibilityToParent s' (Widget w) = Some True
             \<and> WA_WState_Hidden (widgets s' w) = (WA_WState_Created s \<and> collapsed s))))
   \<and> (\<not> ForcingVisibility s \<longrightarrow>
        (\<exists>s'. eventFilter n s (Widget w) HideToParent = Inr (False, s')
          \<and> visibilityToParent s' (Widget w) = Some False))
   \<and> (\<exists>s0. ctkCollapsibleGroupBox_new n (QGroupBox_new sz ws) = Inr s0 \<and> box_ok s0
          \<and> children s0 = [] \<and> visibilityToParent s0 = (\<lambda>obj. None))
   \<and> (box_ok s \<longrightarrow> (\<exists>s'. run (Suc n) s acts = Inr s' \<and> box_ok s'))
   \<and> (box_ok s \<and> visibilityToParent s (Widget w) = None \<longrightarrow>
        (\<exists>s'. step (Suc n) s (Child_added (Widget w)) = Inr s' \<and> tracked s' w
          \<and> (visibilityToParent s' (Widget w) = Some False)
              = (WA_WState_ExplicitShowHide (widgets s w) \<and> WA_WState_Hidden (widgets s w))))
   \<and> (tracked s w \<and> run_respects (Suc n) w s acts \<longrightarrow>
        (\<exists>s'. run (Suc n) s acts = Inr s' \<and> tracked s' w))
   \<and> (tracked s w \<and> run_respects (Suc n) w s pre \<and> (\<forall>a\<in>set post. \<not> shows_child w a) \<longrightarrow>
        (\<exists>s'. run (Suc n) s (pre @ Child_setVisible w False # post) = Inr s'
          \<and> visibilityToParent s' (Widget w) = Some False \<and> WA_WState_Hidden (widgets s' w)))
   \<and> (tracked s w \<and> run_respects (Suc n) w s (pre @ Child_setVisible w True # post)
        \<and> (\<forall>a\<in>set post. \<not> hides_child w a) \<longrightarrow>
        (\<exists>s'. run (Suc n) s (pre @ Child_setVisible w True # post) = Inr s' \<and> tracked s' w
          \<and> visibilityToParent s' (Widget w) \<noteq> Some False
          \<and> (IsStateCreated s' \<longrightarrow> WA_WState_Hidden (widgets s' w) = collapsed s')))"
proof (intro conjI impI)
  assume h: "visibilityToParent s (Widget w) = Some False \<and> WA_WState_Hidden (widgets s w)"
  from h have h1: "visibilityToParent s (Widget w) = Some False"
    and h2: "WA_WState_Hidden (widgets s w)" by simp_all
  show "\<exists>s'. setChildVisibility (Suc n) s w = Inr s'
            \<and> visibilityToParent s' (Widget w) = Some False \<and> WA_WState_Hidden (widgets s' w)"
    using h1 h2 by (rule setChildVisibility_keeps_hidden)
  show "\<exists>s'. expand (Suc n) s True = Inr s'
            \<and> visibilityToParent s' (Widget w) = Some False \<and> WA_WState_Hidden (widgets s' w)"
    using h1 h2 by (rule expand_keeps_hidden)
  {
    assume "\<forall>a\<in>set acts. \<not> shows_child w a"
    with h1 h2 show "\<exists>s'. run (Suc n) s acts = Inr s'
             \<and> visibilityToParent s' (Widget w) = Some False \<and> WA_WState_Hidden (widgets s' w)"
      by (rule run_keeps_hidden)
  }
  {
    assume "\<not> ForcingVisibility s \<and> eventFilter_installed s (Widget w)"
    then have "\<not> ForcingVisibility s" and "eventFilter_installed s (Widget w)" by simp_all
    with h2 show "\<exists>s'. QWidget_setVisible (Suc n) s w True = Inr s'
             \<and> visibilityToParent s' (Widget w) = Some True
             \<and> WA_WState_Hidden (widgets s' w) = (WA_WState_Created s \<and> collapsed s)"
      by (rule QWidget_setVisible_shows_again)
  }
next
  assume "\<not> ForcingVisibility s"
  then show "\<exists>s'. eventFilter n s (Widget w) HideToParent = Inr (False, s')
          \<and> visibilityToParent s' (Widget w) = Some False"
    by (simp add: eventFilter.simps toolkit_defs)
next
  show "\<exists>s0. ctkCollapsibleGroupBox_new n (QGroupBox_new sz ws) = Inr s0 \<and> box_ok s0
          \<and> children s0 = [] \<and> visibilityToParent s0 = (\<lambda>obj. None)"
    by (rule box_ok_new)
next
  assume "box_ok s"
  then show "\<exists>s'. run (Suc n) s acts = Inr s' \<and> box_ok s'" by (rule box_ok_run)
next
  assume "box_ok s \<and> visibilityToParent s (Widget w) = None"
  then have "box_ok s" and "visibilityToParent s (Widget w) = None" by simp_all
  then show "\<exists>s'. step (Suc n) s (Child_added (Widget w)) = Inr s' \<and> tracked s' w
          \<and> (visibilityToParent s' (Widget w) = Some False)
              = (WA_WState_ExplicitShowHide (widgets s w) \<and> WA_WState_Hidden (widgets s w))"
    by (rule tracked_new_child)
next
  assume "tracked s w \<and> run_respects (Suc n) w s acts"
  then have "tracked s w" and "run_respects (Suc n) w s acts" by simp_all
  from tracked_run [OF this] show "\<exists>s'. run (Suc n) s acts = Inr s' \<and> tracked s' w" by blast
next
  assume "tracked s w \<and> run_respects (Suc n) w s pre \<and> (\<forall>a\<in>set post. \<not> shows_child w a)"
  then have "tracked s w" and "run_respects (Suc n) w s pre"
    and "\<forall>a\<in>set post. \<not> shows_child w a" by simp_all
  then show "\<exists>s'. run (Suc n) s (pre @ Child_setVisible w False # post) = Inr s'
          \<and> visibilityToParent s' (Widget w) = Some False \<and> WA_WState_Hidden (widgets s' w)"
    by (rule hide_reaches_filter)
next
  assume "tracked s w \<and> run_respects (Suc n) w s (pre @ Child_setVisible w True # post)
        \<and> (\<forall>a\<in>set post. \<not> hides_child w a)"
  then have "tracked s w" and "run_respects (Suc n) w s (pre @ Child_setVisible w True # post)"
    and "\<forall>a\<in>set post. \<not> hides_child w a" by simp_all
  then show "\<exists>s'. run (Suc n) s (pre @ Child_setVisible w True # post) = Inr s' \<and> tracked s' w
          \<and> visibilityToParent s' (Widget w) \<noteq> Some False
          \<and> (IsStateCreated s' \<longrightarrow> WA_WState_Hidden (widgets s' w) = collapsed s')"
    by (rule show_reaches_filter)
qed

theorem explicitly_hidden_child_stays_hidden_witness:
  "visibilityToParent box_child_hidden (Widget 0) = Some False
   \<and> WA_WState_Hidden (widgets box_child_hidden 0)
   \<and> filter (shows_child 0)
         [Box_setChecked False, Box_setChecked True, Child_setVisible 1 True,
          Box_setVisible True [Toolkit_create, Toolkit_child_setVisible 1 True],
          Child_setVisible 0 False, Child_added (Widget 2), Box_expand True] = []
   \<and> \<not> ForcingVisibility box_child_hidden
   \<and> eventFilter_installed box_child_hidden (Widget 0)
   \<and> (\<exists>s'. run (Suc 0) box_child_hidden
               [Box_setChecked False, Box_setChecked True, Child_setVisible 1 True,
                Box_setVisible True [Toolkit_create, Toolkit_child_setVisible 1 True],
                Child_setVisible 0 False, Child_added (Widget 2), Box_expand True] = Inr s'
         \<and> visibilityToParent s' (Widget 0) = Some False \<and> WA_WState_Hidden (widgets s' 0))
   \<and> (\<exists>s'. QWidget_setVisible (Suc 0) box_child_hidden 0 True = Inr s'
         \<and> visibilityToParent s' (Widget 0) = Some True \<and> \<not> WA_WState_Hidden (widgets s' 0))
   \<and> (\<exists>s'. eventFilter 0 box_child_hidden (Widget 0) HideToParent = Inr (False, s')
         \<and> visibilityToParent s' (Widget 0) = Some False)
   \<and> box_ok box_new \<and> visibilityToParent box_new (Widget 2) = None
   \<and> (\<exists>s'. step (Suc 0) box_new (Child_added (Widget 2)) = Inr s' \<and> tracked s' 2
         \<and> visibilityToParent s' (Widget 2) \<noteq> Some False)
   \<and> box_ok (box_new\<lparr>widgets := (\<lambda>w. \<lparr>WA_WState_ExplicitShowHide = True, WA_WState_Hidden = True\<rparr>)\<rparr>)
   \<and> visibilityToParent (box_new\<lparr>widgets := (\<lambda>w. \<lparr>WA_WState_ExplicitShowHide = True, WA_WState_Hidden = True\<rparr>)\<rparr>) (Widget 2) = None
   \<and> (\<exists>s'. step (Suc 0) (box_new\<lparr>widgets := (\<lambda>w. \<lparr>WA_WState_ExplicitShowHide = True, WA_WState_Hidden = True\<rparr>)\<rparr>) (Child_added (Widget 2)) = Inr s' \<and> tracked s' 2
         \<and> visibilityToParent s' (Widget 2) = Some False)
   \<and> tracked box_new 0
   \<and> run_respects (Suc 0) 0 box_new
        [Box_setVisible True [Toolkit_create, Toolkit_child_setVisible 0 True,
                              Toolkit_child_setVisible 1 True],
         Box_setChecked False]
   \<and> filter (shows_child 0)
        [Box_setChecked True, Box_setVisible False [],
         Box_setVisible True [Toolkit_child_setVisible 1 True]] = []
   \<and> (\<exists>s'. run (Suc 0) box_new
              ([Box_setVisible True [Toolkit_create, Toolkit_child_setVisible 0 True,
                                     Toolkit_child_setVisible 1 True],
                Box_setChecked False]
               @ Child_setVisible 0 False
               # [Box_setChecked True, Box_setVisible False [],
                  Box_setVisible True [Toolkit_child_setVisible 1 True]]) = Inr s'
         \<and> visibilityToParent s' (Widget 0) = Some False \<and> WA_WState_Hidden (widgets s' 0))
   \<and> tracked box_shown 0
   \<and> run_respects (Suc 0) 0 box_shown
        ([Child_setVisible 0 False, Box_setChecked False, Box_setChecked True]
         @ Child_setVisible 0 True # [Box_setChecked False, Box_setChecked True])
   \<and> filter (hides_child 0) [Box_setChecked False, Box_setChecked True] = []
   \<and> (\<exists>s'. run (Suc 0) box_shown
              ([Child_setVisible 0 False, Box_setChecked False, Box_setChecked True]
               @ Child_setVisible 0 True # [Box_setChecked False, Box_setChecked True]) = Inr s'
         \<and> tracked s' 0 \<and> visibilityToParent s' (Widget 0) \<noteq> Some False
         \<and> \<not> WA_WState_Hidden (widgets s' 0))"
proof -
  let ?acts = "[Box_setChecked False, Box_setChecked True, Child_setVisible 1 True,
                 Box_setVisible True [Toolkit_create, Toolkit_child_setVisible 1 True],
                 Child_setVisible 0 False, Child_added (Widget 2), Box_expand True]"
  let ?pre1 = "[Box_setVisible True [Toolkit_create, Toolkit_child_setVisible 0 True,
                                      Toolkit_child_setVisible 1 True],
                Box_setChecked False]"
  let ?post1 = "[Box_setChecked True, Box_setVisible False [],
                 Box_setVisible True [Toolkit_child_setVisible 1 True]]"
  let ?hid = "box_new\<lparr>widgets := (\<lambda>w. \<lparr>WA_WState_ExplicitShowHide = True, WA_WState_Hidden = True\<rparr>)\<rparr>"
  let ?pre2 = "[Child_setVisible 0 False, Box_setChecked False, Box_setChecked True]"
  let ?post2 = "[Box_setChecked False, Box_setChecked True]"
  have h: "visibilityToParent box_child_hidden (Widget 0) = Some False
           \<and> WA_WState_Hidden (widgets box_child_hidden 0)"
    by (simp add: box_child_hidden_def box_shown_def box_new_def)
  have a: "\<forall>a\<in>set ?acts. \<not> shows_child 0 a" by simp
  have a': "filter (shows_child 0) ?acts = []" by simp
  have f: "\<not> ForcingVisibility box_child_hidden \<and> eventFilter_installed box_child_hidden (Widget 0)"
    by (simp add: box_child_hidden_def box_shown_def box_new_def)
  have nc: "\<not> collapsed box_child_hidden"
    by (simp add: box_child_hidden_def box_shown_def box_new_def collapsed_def)
  note k = explicitly_hidden_child_stays_hidden
             [where s = box_child_hidden and w = 0 and n = 0 and acts = ?acts,
              THEN conjunct1, THEN mp, OF h]
  have r1: "\<exists>s'. run (Suc 0) box_child_hidden ?acts = Inr s'
         \<and> visibilityToParent s' (Widget 0) = Some False \<and> WA_WState_Hidden (widgets s' 0)"
    using k [THEN conjunct2, THEN conjunct2, THEN conjunct1, THEN mp, OF a] .
  have "\<exists>s'. QWidget_setVisible (Suc 0) box_child_hidden 0 True = Inr s'
         \<and> visibilityToParent s' (Widget 0) = Some True
         \<and> WA_WState_Hidden (widgets s' 0)
             = (WA_WState_Created box_child_hidden \<and> collapsed box_child_hidden)"
    using k [THEN conjunct2, THEN conjunct2, THEN conjunct2, THEN mp, OF f] .
  with nc have r2: "\<exists>s'. QWidget_setVisible (Suc 0) box_child_hidden 0 True = Inr s'
         \<and> visibilityToParent s' (Widget 0) = Some True \<and> \<not> WA_WState_Hidden (widgets s' 0)"
    by simp
  have r3: "\<exists>s'. eventFilter 0 box_child_hidden (Widget 0) HideToParent = Inr (False, s')
         \<and> visibilityToParent s' (Widget 0) = Some False"
    using explicitly_hidden_child_stays_hidden
             [where s = box_child_hidden and w = 0 and n = 0,
              THEN conjunct2, THEN conjunct1, THEN mp, OF f [THEN conjunct1]] .
  have b: "box_ok box_new \<and> visibilityToParent box_new (Widget 2) = None"
    by (simp add: box_ok_def box_new_def)
  have "\<exists>s'. step (Suc 0) box_new (Child_added (Widget 2)) = Inr s' \<and> tracked s' 2
         \<and> (visibilityToParent s' (Widget 2) = Some False)
             = (WA_WState_ExplicitShowHide (widgets box_new 2) \<and> WA_WState_Hidden (widgets box_new 2))"
    using explicitly_hidden_child_stays_hidden
             [where s = box_new and w = 2 and n = 0,
              THEN conjunct2, THEN conjunct2, THEN conjunct2, THEN conjunct2, THEN conjunct1,
              THEN mp, OF b] .
  moreover have "\<not> WA_WState_ExplicitShowHide (widgets box_new 2)"
    by (simp add: box_new_def shown_widget_def)
  ultimately have r4: "\<exists>s'. step (Suc 0) box_new (Child_added (Widget 2)) = Inr s' \<and> tracked s' 2
         \<and> visibilityToParent s' (Widget 2) \<noteq> Some False"
    by simp
  have bh: "box_ok ?hid \<and> visibilityToParent ?hid (Widget 2) = None"
    by (simp add: box_ok_def box_new_def)
  have "\<exists>s'. step (Suc 0) ?hid (Child_added (Widget 2)) = Inr s' \<and> tracked s' 2
         \<and> (visibilityToParent s' (Widget 2) = Some False)
             = (WA_WState_ExplicitShowHide (widgets ?hid 2) \<and> WA_WState_Hidden (widgets ?hid 2))"
    using explicitly_hidden_child_stays_hidden
             [where s = ?hid and w = 2 and n = 0,
              THEN conjunct2, THEN conjunct2, THEN conjunct2, THEN conjunct2, THEN conjunct1,
              THEN mp, OF bh] .
  moreover have "WA_WState_ExplicitShowHide (widgets ?hid 2) \<and> WA_WState_Hidden (widgets ?hid 2)"
    by simp
  ultimately have r4h: "\<exists>s'. step (Suc 0) ?hid (Child_added (Widget 2)) = Inr s' \<and> tracked s' 2
         \<and> visibilityToParent s' (Widget 2) = Some False"
    by simp
  have t1: "tracked box_new 0"
    by (simp add: tracked_def box_ok_def box_new_def shown_widget_def)
  have rr1: "run_respects (Suc 0) 0 box_new ?pre1"
    by (simp add: box_new_def shown_widget_def run_respects_not_setVisible split: sum.split)
  have ns1: "\<forall>a\<in>set ?post1. \<not> shows_child 0 a" by simp
  have ns1': "filter (shows_child 0) ?post1 = []" by simp
  have r5: "\<exists>s'. run (Suc 0) box_new (?pre1 @ Child_setVisible 0 False # ?post1) = Inr s'
         \<and> visibilityToParent s' (Widget 0) = Some False \<and> WA_WState_Hidden (widgets s' 0)"
    using explicitly_hidden_child_stays_hidden
             [where s = box_new and w = 0 and n = 0 and pre = ?pre1 and post = ?post1,
              THEN conjunct2, THEN conjunct2, THEN conjunct2, THEN conjunct2, THEN conjunct2,
              THEN conjunct2, THEN conjunct1, THEN mp, OF conjI [OF t1 conjI [OF rr1 ns1]]] .
  have t2: "tracked box_shown 0"
    by (simp add: tracked_def box_ok_def box_shown_def box_new_def shown_widget_def collapsed_def)
  have rr2: "run_respects (Suc 0) 0 box_shown (?pre2 @ Child_setVisible 0 True # ?post2)"
    by (rule run_respects_not_setVisible) simp
  have nh2: "\<forall>a\<in>set ?post2. \<not> hides_child 0 a" by simp
  have nh2': "filter (hides_child 0) ?post2 = []" by simp
  from explicitly_hidden_child_stays_hidden
             [where s = box_shown and w = 0 and n = 0 and pre = ?pre2 and post = ?post2,
              THEN conjunct2, THEN conjunct2, THEN conjunct2, THEN conjunct2, THEN conjunct2,
              THEN conjunct2, THEN conjunct2, THEN mp, OF conjI [OF t2 conjI [OF rr2 nh2]]]
  obtain s' where s': "run (Suc 0) box_shown (?pre2 @ Child_setVisible 0 True # ?post2) = Inr s'"
      "tracked s' 0" "visibilityToParent s' (Widget 0) \<noteq> Some False"
      "IsStateCreated s' \<longrightarrow> WA_WState_Hidden (widgets s' 0) = collapsed s'"
    by (elim exE conjE)
  have "\<exists>s'. run (Suc 0) box_shown (?pre2 @ Child_setVisible 0 True # ?post2) = Inr s'
          \<and> IsStateCreated s' \<and> isChecked s'"
    by (simp add: box_shown_def box_new_def shown_widget_def QWidget_setVisible.simps
        sendEvent.simps eventFilter.simps setChildVisibility_Suc toolkit_defs Let_def
        QGroupBox_setChecked_def emit_toggled_def expand_def child_forced_def collapsed_def
        QWidget_setMaximumHeight_def QWidget_resize_def)
  with s'(1) have "IsStateCreated s'" and "\<not> collapsed s'" by (simp_all add: collapsed_def)
  with s'(4) have "\<not> WA_WState_Hidden (widgets s' 0)" by simp
  with s'(1-3) have r6: "\<exists>s'. run (Suc 0) box_shown (?pre2 @ Child_setVisible 0 True # ?post2) = Inr s'
         \<and> tracked s' 0 \<and> visibilityToParent s' (Widget 0) \<noteq> Some False
         \<and> \<not> WA_WState_Hidden (widgets s' 0)"
    by blast
  from h a' f r1 r2 r3 b r4 bh r4h t1 rr1 ns1' r5 t2 rr2 nh2' r6 show ?thesis
    by (intro conjI) (simp_all only: simp_thms)
qed

text \<open>
  C6. While \<open>WA_WState_Created\<close> is not set, \<open>setChildVisibility\<close> returns the state it
  was given: no visibility, attribute or property of any child changes. A \<open>setVisible\<close>
  call that finds \<open>IsStateCreated\<close> unset and the window created once the base class has
  returned (created before the call, or by the toolkit during it) sets \<open>IsStateCreated\<close>
  and applies \<open>setChildVisibility\<close> to every direct widget child: afterwards each of them
  is hidden exactly when the box is collapsed or its property is valid and false, has
  \<open>WA_WState_ExplicitShowHide\<close> exactly in the latter case, and no property has changed.
  Every other \<open>setVisible\<close> call returns what the base class left, with
  \<open>ForcingVisibility\<close> cleared, and leaves \<open>IsStateCreated\<close> as it was; no other call from
  outside changes \<open>IsStateCreated\<close>. Over every sequence of calls the deferred loop runs
  at most once, never from a state with \<open>IsStateCreated\<close> set, and once exactly when the
  sequence takes \<open>IsStateCreated\<close> from unset to set. When a sequence of calls has left
  \<open>IsStateCreated\<close> unset and the window is created by the end of the next \<open>setVisible\<close>
  call, the loop has not run before that call, it has run exactly once after that call
  and any further calls, and that call leaves every direct widget child hidden exactly
  when the box is collapsed or its property is valid and false.
\<close>

theorem setChildVisibility_deferred_until_created:
  "(\<not> WA_WState_Created s \<longrightarrow> setChildVisibility (Suc n) s w = Inr s)
   \<and> (\<not> IsStateCreated s \<and> (WA_WState_Created s \<or> Toolkit_create \<in> set toolkit) \<longrightarrow>
        (\<exists>s'. setVisible (Suc n) s sh toolkit = Inr s' \<and> IsStateCreated s'
           \<and> WA_WState_Created s' \<and> visibilityToParent s' = visibilityToParent s
           \<and> (\<forall>c. Widget c \<in> set (children s) \<longrightarrow>
                 WA_WState_Hidden (widgets s' c)
                   = (collapsed s \<or> visibilityToParent s (Widget c) = Some False)
                 \<and> WA_WState_ExplicitShowHide (widgets s' c)
                     = (visibilityToParent s (Widget c) = Some False))))
   \<and> (IsStateCreated s \<or> \<not> (WA_WState_Created s \<or> Toolkit_create \<in> set toolkit) \<longrightarrow>
        (\<exists>s2. QGroupBox_setVisible (Suc n) (s\<lparr>ForcingVisibility := True\<rparr>) sh toolkit = Inr s2
           \<and> setVisible (Suc n) s sh toolkit = Inr (s2\<lparr>ForcingVisibility := False\<rparr>)
           \<and> IsStateCreated s2 = IsStateCreated s))
   \<and> (\<not> is_Box_setVisible a \<longrightarrow>
        (\<exists>s'. step (Suc n) s a = Inr s' \<and> IsStateCreated s' = IsStateCreated s))
   \<and> (\<exists>s'. run (Suc n) s acts = Inr s' \<and> (IsStateCreated s \<longrightarrow> IsStateCreated s')
          \<and> fixups (Suc n) s acts = (if \<not> IsStateCreated s \<and> IsStateCreated s' then 1 else 0))
   \<and> fixups (Suc n) s acts \<le> 1
   \<and> (IsStateCreated s \<longrightarrow> fixups (Suc n) s acts = 0)
   \<and> (run (Suc n) s pre = Inr s1 \<and> \<not> IsStateCreated s1
        \<and> (WA_WState_Created s1 \<or> Toolkit_create \<in> set toolkit) \<longrightarrow>
        fixups (Suc n) s pre = 0
        \<and> fixups (Suc n) s (pre @ Box_setVisible sh toolkit # post) = 1
        \<and> (\<exists>s2. step (Suc n) s1 (Box_setVisible sh toolkit) = Inr s2 \<and> IsStateCreated s2
              \<and> (\<forall>c. Widget c \<in> set (children s1) \<longrightarrow>
                    WA_WState_Hidden (widgets s2 c)
                      = (collapsed s1 \<or> visibilityToParent s1 (Widget c) = Some False))))"
proof -
  have c1: "\<not> WA_WState_Created s \<longrightarrow> setChildVisibility (Suc n) s w = Inr s"
    by (simp add: setChildVisibility.simps)
  have c2: "\<not> IsStateCreated s \<and> (WA_WState_Created s \<or> Toolkit_create \<in> set toolkit) \<longrightarrow>
        (\<exists>s'. setVisible (Suc n) s sh toolkit = Inr s' \<and> IsStateCreated s'
           \<and> WA_WState_Created s' \<and> visibilityToParent s' = visibilityToParent s
           \<and> (\<forall>c. Widget c \<in> set (children s) \<longrightarrow>
                 WA_WState_Hidden (widgets s' c)
                   = (collapsed s \<or> visibilityToParent s (Widget c) = Some False)
                 \<and> WA_WState_ExplicitShowHide (widgets s' c)
                     = (visibilityToParent s (Widget c) = Some False)))"
    using setVisible_Suc_fixup [of s toolkit n sh] by blast
  have c3: "IsStateCreated s \<or> \<not> (WA_WState_Created s \<or> Toolkit_create \<in> set toolkit) \<longrightarrow>
        (\<exists>s2. QGroupBox_setVisible (Suc n) (s\<lparr>ForcingVisibility := True\<rparr>) sh toolkit = Inr s2
           \<and> setVisible (Suc n) s sh toolkit = Inr (s2\<lparr>ForcingVisibility := False\<rparr>)
           \<and> IsStateCreated s2 = IsStateCreated s)"
    using setVisible_Suc_no_fixup [of s toolkit n sh] by blast
  have c4: "\<not> is_Box_setVisible a \<longrightarrow>
        (\<exists>s'. step (Suc n) s a = Inr s' \<and> IsStateCreated s' = IsStateCreated s)"
    using step_not_setVisible [of a n s] by blast
  have c5: "\<exists>s'. run (Suc n) s acts = Inr s' \<and> (IsStateCreated s \<longrightarrow> IsStateCreated s')
          \<and> fixups (Suc n) s acts = (if \<not> IsStateCreated s \<and> IsStateCreated s' then 1 else 0)"
    by (rule run_fixups)
  then have c6: "fixups (Suc n) s acts \<le> 1" by auto
  from c5 have c7: "IsStateCreated s \<longrightarrow> fixups (Suc n) s acts = 0" by auto
  have c8: "run (Suc n) s pre = Inr s1 \<and> \<not> IsStateCreated s1
        \<and> (WA_WState_Created s1 \<or> Toolkit_create \<in> set toolkit) \<longrightarrow>
        fixups (Suc n) s pre = 0
        \<and> fixups (Suc n) s (pre @ Box_setVisible sh toolkit # post) = 1
        \<and> (\<exists>s2. step (Suc n) s1 (Box_setVisible sh toolkit) = Inr s2 \<and> IsStateCreated s2
              \<and> (\<forall>c. Widget c \<in> set (children s1) \<longrightarrow>
                    WA_WState_Hidden (widgets s2 c)
                      = (collapsed s1 \<or> visibilityToParent s1 (Widget c) = Some False)))"
    using fixups_first_created [of n s pre s1 toolkit sh post] by blast
  from c1 c2 c3 c4 c5 c6 c7 c8 show ?thesis by (intro conjI)
qed

theorem setChildVisibility_deferred_until_created_witness:
  "\<not> WA_WState_Created box_new
   \<and> setChildVisibility (Suc 0) box_new 0 = Inr box_new
   \<and> \<not> IsStateCreated (box_new\<lparr>isChecked := False\<rparr>)
   \<and> Toolkit_create \<in> set [Toolkit_create, Toolkit_child_setVisible 0 True]
   \<and> Widget 0 \<in> set (children (box_new\<lparr>isChecked := False\<rparr>))
   \<and> Widget 1 \<in> set (children (box_new\<lparr>isChecked := False\<rparr>))
   \<and> (\<exists>s'. setVisible (Suc 0) (box_new\<lparr>isChecked := False\<rparr>) True
               [Toolkit_create, Toolkit_child_setVisible 0 True] = Inr s'
         \<and> IsStateCreated s' \<and> WA_WState_Hidden (widgets s' 0) \<and> WA_WState_Hidden (widgets s' 1))
   \<and> IsStateCreated box_shown
   \<and> setVisible (Suc 0) box_shown False [] = Inr box_shown
   \<and> fixups (Suc 0) box_shown [Box_setVisible False [], Box_setVisible True []] = 0
   \<and> \<not> is_Box_setVisible (Box_expand True)
   \<and> (\<exists>s'. step (Suc 0) box_new (Box_expand True) = Inr s' \<and> \<not> IsStateCreated s')
   \<and> run (Suc 0) box_new [Box_setVisible True [], Box_created]
       = Inr (box_new\<lparr>WA_WState_Created := True\<rparr>)
   \<and> \<not> IsStateCreated (box_new\<lparr>WA_WState_Created := True\<rparr>)
   \<and> WA_WState_Created (box_new\<lparr>WA_WState_Created := True\<rparr>)
   \<and> fixups (Suc 0) box_new
        ([Box_setVisible True [], Box_created]
         @ Box_setVisible False [] # [Box_setVisible True []]) = 1"
proof -
  let ?collapsed = "box_new\<lparr>isChecked := False\<rparr>"
  let ?tk = "[Toolkit_create, Toolkit_child_setVisible 0 True]"
  let ?pre = "[Box_setVisible True [], Box_created]"
  let ?s1 = "box_new\<lparr>WA_WState_Created := True\<rparr>"
  have h1: "\<not> WA_WState_Created box_new" by (simp add: box_new_def)
  have h2: "\<not> IsStateCreated ?collapsed \<and> (WA_WState_Created ?collapsed \<or> Toolkit_create \<in> set ?tk)"
    by (simp add: box_new_def)
  have h2c: "Widget 0 \<in> set (children ?collapsed)" "Widget 1 \<in> set (children ?collapsed)"
      "collapsed ?collapsed"
    by (simp_all add: box_new_def collapsed_def)
  have h3: "IsStateCreated box_shown" by (simp add: box_shown_def)
  have h4: "\<not> is_Box_setVisible (Box_expand True)" by simp
  have h5: "run (Suc 0) box_new ?pre = Inr ?s1"
    by (simp add: setVisible_def Let_def box_new_def)
  have h6: "\<not> IsStateCreated ?s1" "WA_WState_Created ?s1" "\<not> IsStateCreated box_new"
    by (simp_all add: box_new_def)
  have h7: "run (Suc 0) box_new ?pre = Inr ?s1 \<and> \<not> IsStateCreated ?s1
        \<and> (WA_WState_Created ?s1 \<or> Toolkit_create \<in> set [])"
    using h5 h6 by simp
  note noop = setChildVisibility_deferred_until_created
    [where s = box_new and n = 0 and w = 0, THEN conjunct1, rule_format, OF h1]
  note performed = setChildVisibility_deferred_until_created
    [where s = ?collapsed and n = 0 and toolkit = ?tk and sh = True,
      THEN conjunct2, THEN conjunct1, rule_format, OF h2]
  then obtain s' where s': "setVisible (Suc 0) ?collapsed True ?tk = Inr s'" "IsStateCreated s'"
      "\<forall>c. Widget c \<in> set (children ?collapsed) \<longrightarrow>
           WA_WState_Hidden (widgets s' c)
             = (collapsed ?collapsed \<or> visibilityToParent ?collapsed (Widget c) = Some False)
           \<and> WA_WState_ExplicitShowHide (widgets s' c)
               = (visibilityToParent ?collapsed (Widget c) = Some False)"
    by (elim exE conjE)
  from s'(3) h2c have "WA_WState_Hidden (widgets s' 0)" "WA_WState_Hidden (widgets s' 1)"
    by simp_all
  with s'(1,2) have p: "\<exists>s'. setVisible (Suc 0) ?collapsed True ?tk = Inr s'
         \<and> IsStateCreated s' \<and> WA_WState_Hidden (widgets s' 0) \<and> WA_WState_Hidden (widgets s' 1)"
    by blast
  note latched = setChildVisibility_deferred_until_created
    [where s = box_shown and n = 0 and toolkit = "[]" and sh = False
       and acts = "[Box_setVisible False [], Box_setVisible True []]"]
  from latched h3 have q1: "\<exists>s2. QGroupBox_setVisible (Suc 0) (box_shown\<lparr>ForcingVisibility := True\<rparr>)
         False [] = Inr s2
       \<and> setVisible (Suc 0) box_shown False [] = Inr (s2\<lparr>ForcingVisibility := False\<rparr>)"
    by blast
  then have q: "setVisible (Suc 0) box_shown False [] = Inr box_shown"
    by (simp add: box_shown_def box_new_def)
  from latched h3 have r: "fixups (Suc 0) box_shown [Box_setVisible False [], Box_setVisible True []] = 0"
    by blast
  note other = setChildVisibility_deferred_until_created
    [where s = box_new and n = 0 and a = "Box_expand True",
      THEN conjunct2, THEN conjunct2, THEN conjunct2, THEN conjunct1, rule_format, OF h4]
  with h6(3) have o: "\<exists>s'. step (Suc 0) box_new (Box_expand True) = Inr s' \<and> \<not> IsStateCreated s'"
    by auto
  note first = setChildVisibility_deferred_until_created
    [where s = box_new and n = 0 and pre = ?pre and ?s1.0 = ?s1 and toolkit = "[]"
       and sh = False and post = "[Box_setVisible True []]",
      THEN conjunct2, THEN conjunct2, THEN conjunct2, THEN conjunct2, THEN conjunct2,
      THEN conjunct2, THEN conjunct2, rule_format, OF h7]
  then have f: "fixups (Suc 0) box_new (?pre @ Box_setVisible False [] # [Box_setVisible True []]) = 1"
    by (elim conjE)
  from h1 noop h2 h2c(1,2) p h3 q r h4 o h5 h6(1,2) f show ?thesis
    by (intro conjI) (simp_all del: fixups.simps run.simps setVisible_foreach.simps)
qed

end
